(* ===== verification/Go_Prelude.thy ===== *)
theory Go_Prelude
  imports Main "HOL-Library.Word" "HOL-Library.AList"
begin

text \<open>
  What every component of cashier takes from the Go language and its runtime: error values, a
  returned value against a panic, the world a function acts on (clock readings, random draws,
  requests to remote services and the metrics counters, each counted so that two calls of the
  same service may give two different answers), \<^verbatim>\<open>time.Time\<close>, the conversions between
  \<^verbatim>\<open>int64\<close> and \<^verbatim>\<open>uint64\<close>, and Go maps as association lists with distinct keys.
\<close>

section \<open>Collections used by the component proofs\<close>

named_theorems go_simps \<open>unfolding rules for the Go runtime\<close>
named_theorems store_simps \<open>unfolding rules for the certificate stores\<close>
named_theorems provider_simps \<open>unfolding rules for the authentication providers\<close>
named_theorems handler_simps \<open>unfolding rules for the HTTP handlers\<close>
named_theorems client_simps \<open>unfolding rules for the client\<close>

section \<open>Errors and panics\<close>

text \<open>
  An \<^verbatim>\<open>error\<close> value. \<open>ENew\<close> is \<^verbatim>\<open>errors.New\<close> (or \<^verbatim>\<open>fmt.Errorf\<close> without \<^verbatim>\<open>%w\<close>),
  \<open>EWrap\<close> is \<^verbatim>\<open>fmt.Errorf("...%w", err)\<close>, \<open>EText\<close> is \<^verbatim>\<open>fmt.Errorf("...%v", err)\<close>, which keeps
  the text of the error but does not wrap it, \<open>EWrap2\<close> is \<^verbatim>\<open>fmt.Errorf("%w: %w", a, b)\<close>
  and \<open>ErrNeedsReason\<close> is the client's sentinel, which is compared by identity.
  \<open>EMulti\<close> is a \<^verbatim>\<open>multierror\<close>, which keeps the appended errors in order.
\<close>

datatype error =
    ENew string
  | EWrap string error
  | EText string error
  | EWrap2 error error
  | EMulti "error list"
  | ErrNeedsReason

text \<open>\<^verbatim>\<open>errors.Is(err, errNeedsReason)\<close>: the sentinel itself or an error that wraps it.\<close>

fun is_needs_reason :: "error \<Rightarrow> bool" where
  "is_needs_reason ErrNeedsReason = True"
| "is_needs_reason (EWrap _ e) = is_needs_reason e"
| "is_needs_reason (EWrap2 a b) = (is_needs_reason a \<or> is_needs_reason b)"
| "is_needs_reason (EMulti es) = list_ex is_needs_reason es"
| "is_needs_reason (EText _ _) = False"
| "is_needs_reason (ENew _) = False"

text \<open>A Go function returns or panics.\<close>

datatype 'a outcome = Return 'a | Panic

fun returned :: "'a outcome \<Rightarrow> bool" where
  "returned (Return _) = True"
| "returned Panic = False"

section \<open>The world\<close>

text \<open>
  \<open>ticks\<close>, \<open>rands\<close> and \<open>calls\<close> count the readings of the clock, the draws from
  \<^verbatim>\<open>crypto/rand\<close> and the requests sent to remote services. A remote service is a parameter that
  takes the number of the call, so nothing ties the answer of one call to the answer of the
  next. \<open>AuthValid\<close> and \<open>AuthExchange\<close> are the two counter vectors of
  \<^verbatim>\<open>server/metrics\<close>, by label.
\<close>

record world =
  ticks :: nat
  rands :: nat
  calls :: nat
  AuthValid :: "string \<Rightarrow> nat"
  AuthExchange :: "string \<Rightarrow> nat"

definition world0 :: world where
  "world0 = \<lparr>ticks = 0, rands = 0, calls = 0, AuthValid = (\<lambda>_. 0), AuthExchange = (\<lambda>_. 0)\<rparr>"

type_synonym 'a io = "world \<Rightarrow> 'a outcome \<times> world"

definition ret :: "'a \<Rightarrow> 'a io" where
  "ret x w = (Return x, w)"

definition throw :: "'a io" where
  "throw w = (Panic, w)"

definition bind_io :: "'a io \<Rightarrow> ('a \<Rightarrow> 'b io) \<Rightarrow> 'b io" where
  "bind_io m f w = (case m w of (Return x, w') \<Rightarrow> f x w' | (Panic, w') \<Rightarrow> (Panic, w'))"

lemma bind_io_ret [simp]: "bind_io (ret x) f = f x"
  by (rule ext) (simp add: bind_io_def ret_def)

lemma bind_io_throw [simp]: "bind_io throw f = throw"
  by (rule ext) (simp add: bind_io_def throw_def)

lemma bind_io_assoc: "bind_io (bind_io m f) g = bind_io m (\<lambda>x. bind_io (f x) g)"
  by (rule ext) (simp add: bind_io_def split: prod.split outcome.split)

lemma bind_io_ReturnE:
  assumes "bind_io m f w = (Return y, w'')"
  obtains x w' where "m w = (Return x, w')" and "f x w' = (Return y, w'')"
  using assms by (auto simp: bind_io_def split: prod.splits outcome.splits)

lemma ret_Return_iff [simp]: "ret x w = (Return y, w') \<longleftrightarrow> y = x \<and> w' = w"
  by (auto simp: ret_def)

lemma throw_Return_iff [simp]: "throw w = (Return y, w') \<longleftrightarrow> False"
  by (simp add: throw_def)

text \<open>A computation that a panic cannot end.\<close>

definition no_panic :: "'a io \<Rightarrow> bool" where
  "no_panic m \<longleftrightarrow> (\<forall>w. returned (fst (m w)))"

lemma no_panic_ret [simp]: "no_panic (ret x)"
  by (simp add: no_panic_def ret_def)

lemma no_panic_bind:
  assumes "no_panic m" and "\<And>x. no_panic (f x)"
  shows "no_panic (bind_io m f)"
  unfolding no_panic_def
proof
  fix w
  from assms(1) have "returned (fst (m w))" by (simp add: no_panic_def)
  then obtain x w' where "m w = (Return x, w')"
    by (cases "m w"; cases "fst (m w)") auto
  with assms(2) [of x] show "returned (fst (bind_io m f w))"
    by (simp add: bind_io_def no_panic_def)
qed

lemma no_panicD:
  assumes "no_panic m"
  obtains x w' where "m w = (Return x, w')"
  using assms by (cases "m w"; cases "fst (m w)") (auto simp: no_panic_def elim!: allE [of _ w])

definition incAuthValid :: "string \<Rightarrow> unit io" where
  "incAuthValid l w = (Return (), w\<lparr>AuthValid := (AuthValid w)(l := Suc (AuthValid w l))\<rparr>)"

definition incAuthExchange :: "string \<Rightarrow> unit io" where
  "incAuthExchange l w = (Return (), w\<lparr>AuthExchange := (AuthExchange w)(l := Suc (AuthExchange w l))\<rparr>)"

text \<open>Number the next request to a remote service, the next clock reading, the next draw.\<close>

definition remote :: "(nat \<Rightarrow> 'a) \<Rightarrow> 'a io" where
  "remote f w = (Return (f (calls w)), w\<lparr>calls := Suc (calls w)\<rparr>)"

definition Now :: "(nat \<Rightarrow> 'a) \<Rightarrow> 'a io" where
  "Now clk w = (Return (clk (ticks w)), w\<lparr>ticks := Suc (ticks w)\<rparr>)"

definition draw :: "(nat \<Rightarrow> 'a) \<Rightarrow> 'a io" where
  "draw f w = (Return (f (rands w)), w\<lparr>rands := Suc (rands w)\<rparr>)"

lemmas io_defs = bind_io_def ret_def throw_def remote_def Now_def draw_def
  incAuthValid_def incAuthExchange_def

declare io_defs [go_simps]

lemma no_panic_prims [simp]:
  "no_panic (incAuthValid l)" "no_panic (incAuthExchange l)"
  "no_panic (remote f)" "no_panic (Now g)" "no_panic (draw h)"
  by (simp_all add: no_panic_def incAuthValid_def incAuthExchange_def remote_def Now_def draw_def)

section \<open>Machine integers and time\<close>

text \<open>\<^verbatim>\<open>int64(u)\<close> and \<^verbatim>\<open>uint64(i)\<close> reinterpret the same 64 bits.\<close>

type_synonym u64 = "64 word"

definition int64 :: "u64 \<Rightarrow> int" where
  "int64 u = sint u"

definition uint64 :: "int \<Rightarrow> u64" where
  "uint64 i = word_of_int i"

definition wrap64 :: "int \<Rightarrow> int" where
  "wrap64 i = (i + 2 ^ 63) mod 2 ^ 64 - 2 ^ 63"

definition fits64 :: "int \<Rightarrow> bool" where
  "fits64 i \<longleftrightarrow> - (2 ^ 63) \<le> i \<and> i < 2 ^ 63"

lemma wrap64_id [simp]: "fits64 i \<Longrightarrow> wrap64 i = i"
  by (simp add: wrap64_def fits64_def)

lemma fits64_wrap64 [simp]: "fits64 (wrap64 i)"
  by (simp add: wrap64_def fits64_def)

lemma wrap64_add: "wrap64 (wrap64 (i + k) - k) = wrap64 i"
proof -
  have "(((i + k + 2 ^ 63) mod 2 ^ 64 - 2 ^ 63) - k + 2 ^ 63) mod (2 ^ 64 :: int)
      = ((i + k + 2 ^ 63) mod 2 ^ 64 - k) mod 2 ^ 64"
    by simp
  also have "\<dots> = (i + k + 2 ^ 63 - k) mod 2 ^ 64"
    by (simp only: mod_diff_left_eq)
  also have "\<dots> = (i + 2 ^ 63) mod 2 ^ 64"
    by simp
  finally show ?thesis
    by (simp add: wrap64_def)
qed

lemma int64_uint64 [simp]: "fits64 i \<Longrightarrow> int64 (uint64 i) = i"
  by (simp add: int64_def uint64_def fits64_def signed_take_bit_int_eq_self sint_sbintrunc')

lemma uint_uint64_nonneg: "0 \<le> i \<Longrightarrow> i < 2 ^ 64 \<Longrightarrow> uint (uint64 i) = i"
  by (simp add: uint64_def uint_word_of_int)

lemma uint_uint64_neg: "- (2 ^ 64) \<le> i \<Longrightarrow> i < 0 \<Longrightarrow> uint (uint64 i) = 2 ^ 64 + i"
proof -
  assume "- (2 ^ 64) \<le> i" and "i < 0"
  then have "i mod 2 ^ 64 = (i + 2 ^ 64) mod 2 ^ 64" by simp
  also have "\<dots> = i + 2 ^ 64"
    using \<open>- (2 ^ 64) \<le> i\<close> \<open>i < 0\<close> by (intro mod_pos_pos_trivial) simp_all
  finally show ?thesis
    by (simp add: uint64_def uint_word_of_int)
qed

text \<open>
  An instant is a number of nanoseconds since the Unix epoch and a \<^verbatim>\<open>time.Duration\<close> a number of
  nanoseconds. \<^verbatim>\<open>time.Time\<close> keeps the seconds since year 1 in an \<^verbatim>\<open>int64\<close>, so
  \<^verbatim>\<open>time.Unix\<close> adds an offset that may wrap around and \<^verbatim>\<open>Unix\<close> takes it off again; nanoseconds
  are always in \<open>[0, 10^9)\<close>, so seconds are rounded down.
\<close>

type_synonym time = int
type_synonym duration = int

definition nano :: int where
  "nano = 1000000000"

definition unixToInternal :: int where
  "unixToInternal = 62135596800"

definition time_Unix :: "int \<Rightarrow> time" where
  "time_Unix s = (wrap64 (s + unixToInternal) - unixToInternal) * nano"

definition Unix :: "time \<Rightarrow> int" where
  "Unix t = wrap64 (t div nano)"

definition After :: "time \<Rightarrow> time \<Rightarrow> bool" where
  "After t u \<longleftrightarrow> u < t"

definition Before :: "time \<Rightarrow> time \<Rightarrow> bool" where
  "Before t u \<longleftrightarrow> t < u"

definition Add :: "time \<Rightarrow> duration \<Rightarrow> time" where
  "Add t d = t + d"

text \<open>\<^verbatim>\<open>var t time.Time\<close>: the zero time is the first instant of year 1.\<close>

definition zero_time :: time where
  "zero_time = - unixToInternal * nano"

definition Hour :: duration where
  "Hour = 3600 * nano"

definition Minute :: duration where
  "Minute = 60 * nano"

lemmas time_defs = After_def Before_def Add_def

declare time_defs [go_simps]

lemma Unix_time_Unix [simp]: "fits64 s \<Longrightarrow> Unix (time_Unix s) = s"
  by (simp add: Unix_def time_Unix_def nano_def wrap64_add)

lemma Unix_nonneg_bounds:
  assumes "0 \<le> t" and "t < 2 ^ 63"
  shows "Unix t = t div nano" and "0 \<le> Unix t" and "Unix t < 2 ^ 63"
proof -
  from assms have "0 \<le> t div nano" and "t div nano \<le> t"
    by (simp_all add: nano_def div_le_dividend pos_imp_zdiv_nonneg_iff)
  moreover from this assms have "fits64 (t div nano)" by (simp add: fits64_def)
  ultimately show "Unix t = t div nano" "0 \<le> Unix t" "Unix t < 2 ^ 63"
    using assms by (simp_all add: Unix_def fits64_def)
qed

text \<open>The instants whose seconds an \<^verbatim>\<open>int64\<close> can hold; every clock reading is one.\<close>

definition representable :: "time \<Rightarrow> bool" where
  "representable t \<longleftrightarrow> fits64 (t div nano)"

lemma Unix_representable: "representable t \<Longrightarrow> Unix t = t div nano"
  by (simp add: representable_def Unix_def)

lemma Unix_mono:
  assumes "representable t" and "representable u" and "t \<le> u"
  shows "Unix t \<le> Unix u"
  using assms by (simp add: Unix_representable zdiv_mono1 nano_def)

section \<open>Go maps\<close>

text \<open>
  A Go map is an association list with distinct keys: \<open>AList.update\<close> stores, \<open>map_of\<close> looks up
  and \<open>AList.delete\<close> deletes. The order of a \<^verbatim>\<open>range\<close> loop over a map is not specified, so a loop
  takes a rearrangement of the entries as a parameter.
\<close>

type_synonym 'v gomap = "(string \<times> 'v) list"

definition wf_map :: "('k \<times> 'v) list \<Rightarrow> bool" where
  "wf_map m \<longleftrightarrow> distinct (map fst m)"

text \<open>\<^verbatim>\<open>m[k]\<close> for a \<^verbatim>\<open>map[string]string\<close>: the zero value \<^verbatim>\<open>""\<close> for a missing key.\<close>

definition map_get :: "string gomap \<Rightarrow> string \<Rightarrow> string" where
  "map_get m k = (case map_of m k of None \<Rightarrow> '''' | Some v \<Rightarrow> v)"

text \<open>A \<^verbatim>\<open>map[string]bool\<close> built by \<^verbatim>\<open>for _, u := range xs { m[u] = true }\<close>.\<close>

definition bool_map :: "string list \<Rightarrow> bool gomap" where
  "bool_map xs = fold (\<lambda>u m. AList.update u True m) xs []"

text \<open>\<^verbatim>\<open>m[k]\<close> for a \<^verbatim>\<open>map[string]bool\<close>: \<^verbatim>\<open>false\<close> for a missing key.\<close>

definition map_is :: "bool gomap \<Rightarrow> string \<Rightarrow> bool" where
  "map_is m k \<longleftrightarrow> map_of m k = Some True"

lemma wf_map_Nil [simp]: "wf_map []"
  by (simp add: wf_map_def)

lemma wf_map_update [simp]: "wf_map m \<Longrightarrow> wf_map (AList.update k v m)"
  by (simp add: wf_map_def distinct_update)

lemma map_of_fold_update:
  "map_of (fold (\<lambda>u m. AList.update u True m) xs m) k
     = (if k \<in> set xs then Some True else map_of m k)"
  by (induction xs arbitrary: m) (auto simp: update_conv')

lemma map_is_bool_map [simp]: "map_is (bool_map xs) k \<longleftrightarrow> k \<in> set xs"
  by (simp add: map_is_def bool_map_def map_of_fold_update)

lemma map_of_all_None: "(\<forall>x. map_of m x = None) \<longleftrightarrow> m = []"
proof (cases m)
  case (Cons p r)
  then have "map_of m (fst p) \<noteq> None" by simp
  with Cons show ?thesis by auto
qed simp

lemma bool_map_empty_iff [simp]: "bool_map xs = [] \<longleftrightarrow> xs = []"
proof -
  have "bool_map xs = [] \<longleftrightarrow> (\<forall>k. map_of (bool_map xs) k = None)"
    by (rule map_of_all_None [symmetric])
  also have "\<dots> \<longleftrightarrow> xs = []"
    by (cases xs) (auto simp: bool_map_def map_of_fold_update split: if_splits)
  finally show ?thesis .
qed

end
