(* ===== verification/Go_Strings.thy ===== *)
theory Go_Strings
  imports Go_Prelude "HOL-Library.Sublist"
begin

text \<open>
  The functions of Go's \<^verbatim>\<open>strings\<close>, \<^verbatim>\<open>strconv\<close>, \<^verbatim>\<open>path\<close> and \<^verbatim>\<open>encoding/hex\<close>
  packages the sources use. A Go string is a list of bytes. \<^verbatim>\<open>TrimSpace\<close> and \<^verbatim>\<open>ToUpper\<close> are
  modelled on ASCII bytes: every byte from 128 on is neither a space nor a letter. Every
  separator handed to \<^verbatim>\<open>strings.Split\<close> is one character.
\<close>

section \<open>Prefixes, suffixes, substrings\<close>

definition HasPrefix :: "string \<Rightarrow> string \<Rightarrow> bool" where
  "HasPrefix s p \<longleftrightarrow> take (length p) s = p"

definition HasSuffix :: "string \<Rightarrow> string \<Rightarrow> bool" where
  "HasSuffix s p \<longleftrightarrow> length p \<le> length s \<and> drop (length s - length p) s = p"

definition TrimPrefix :: "string \<Rightarrow> string \<Rightarrow> string" where
  "TrimPrefix s p = (if HasPrefix s p then drop (length p) s else s)"

definition TrimSuffix :: "string \<Rightarrow> string \<Rightarrow> string" where
  "TrimSuffix s p = (if HasSuffix s p then take (length s - length p) s else s)"

fun Contains :: "string \<Rightarrow> string \<Rightarrow> bool" where
  "Contains [] p = (p = [])"
| "Contains (c # s) p = (HasPrefix (c # s) p \<or> Contains s p)"

lemma HasPrefix_append [simp]: "HasPrefix (p @ s) p"
  by (simp add: HasPrefix_def)

lemma HasPrefix_iff: "HasPrefix s p \<longleftrightarrow> (\<exists>r. s = p @ r)"
  unfolding HasPrefix_def by (metis append_eq_conv_conj append_take_drop_id)

lemma HasSuffix_append [simp]: "HasSuffix (s @ p) p"
  by (simp add: HasSuffix_def)

lemma TrimPrefix_append [simp]: "TrimPrefix (p @ s) p = s"
  by (simp add: TrimPrefix_def)

lemma TrimSuffix_append [simp]: "TrimSuffix (s @ p) p = s"
  by (simp add: TrimSuffix_def)

lemma Contains_iff: "Contains s p \<longleftrightarrow> (\<exists>a b. s = a @ p @ b)"
proof (induction s)
  case Nil
  then show ?case by auto
next
  case (Cons c s)
  have "(\<exists>a b. c # s = a @ p @ b) \<longleftrightarrow> (\<exists>b. c # s = p @ b) \<or> (\<exists>a b. s = a @ p @ b)"
    by (auto simp: Cons_eq_append_conv)
  with Cons show ?case
    by (simp add: HasPrefix_iff)
qed

lemma Contains_char [simp]: "Contains s [c] \<longleftrightarrow> c \<in> set s"
  by (induction s) (auto simp: HasPrefix_def)

section \<open>Splitting and trimming\<close>

fun Split :: "string \<Rightarrow> char \<Rightarrow> string list" where
  "Split [] c = [[]]"
| "Split (x # s) c =
     (if x = c then [] # Split s c
      else (case Split s c of [] \<Rightarrow> [[x]] | y # ys \<Rightarrow> (x # y) # ys))"

fun join :: "char \<Rightarrow> string list \<Rightarrow> string" where
  "join c [] = []"
| "join c [s] = s"
| "join c (s # ss) = s @ c # join c ss"

lemma Split_nonempty [simp]: "Split s c \<noteq> []"
  by (induction s) (auto split: list.split)

lemma Split_no_sep: "c \<notin> set s \<Longrightarrow> Split s c = [s]"
  by (induction s) auto

lemma Split_append_sep: "c \<notin> set s \<Longrightarrow> Split (s @ c # r) c = s # Split r c"
  by (induction s) auto

lemma join_Split [simp]: "join c (Split s c) = s"
proof (induction s)
  case Nil
  then show ?case by simp
next
  case (Cons x s)
  obtain y ys where y: "Split s c = y # ys"
    by (cases "Split s c") auto
  with Cons show ?case by (cases ys) auto
qed

lemma Split_parts_no_sep: "p \<in> set (Split s c) \<Longrightarrow> c \<notin> set p"
proof (induction s arbitrary: p)
  case Nil
  then show ?case by simp
next
  case (Cons x s)
  then show ?case by (auto split: if_splits list.splits)
qed

lemma length_Split: "length (Split s c) = Suc (count_list s c)"
proof (induction s)
  case Nil
  then show ?case by simp
next
  case (Cons x s)
  then show ?case by (auto split: list.split)
qed

text \<open>\<^verbatim>\<open>strings.Split(s, sep)[i]\<close>: an index out of range panics.\<close>

definition nth_part :: "string list \<Rightarrow> nat \<Rightarrow> string outcome" where
  "nth_part ps i = (if i < length ps then Return (ps ! i) else Panic)"

definition is_space :: "char \<Rightarrow> bool" where
  "is_space c \<longleftrightarrow> of_char c \<in> {9 :: nat, 10, 11, 12, 13, 32}"

definition trim_by :: "(char \<Rightarrow> bool) \<Rightarrow> string \<Rightarrow> string" where
  "trim_by p s = rev (dropWhile p (rev (dropWhile p s)))"

definition TrimSpace :: "string \<Rightarrow> string" where
  "TrimSpace s = trim_by is_space s"

text \<open>\<^verbatim>\<open>strings.Trim(s, " ")\<close>\<close>

definition TrimBlank :: "string \<Rightarrow> string" where
  "TrimBlank s = trim_by (\<lambda>c. c = CHR '' '') s"

lemma trim_by_id:
  assumes "\<And>c. c \<in> set s \<Longrightarrow> \<not> p c"
  shows "trim_by p s = s"
proof -
  have id: "dropWhile p xs = xs" if "\<forall>c \<in> set xs. \<not> p c" for xs
    using that by (cases xs) auto
  from assms have "dropWhile p s = s" and "dropWhile p (rev s) = rev s"
    by (auto intro!: id)
  then show ?thesis by (simp add: trim_by_def)
qed

lemma set_trim_by: "set (trim_by p s) \<subseteq> set s"
  unfolding trim_by_def by (auto dest!: set_dropWhileD)

section \<open>Case mapping\<close>

definition upper :: "char \<Rightarrow> char" where
  "upper c = (if 97 \<le> (of_char c :: nat) \<and> (of_char c :: nat) \<le> 122
              then char_of ((of_char c :: nat) - 32) else c)"

definition ToUpper :: "string \<Rightarrow> string" where
  "ToUpper s = map upper s"

lemma upper_blank [simp]: "upper c = CHR '' '' \<longleftrightarrow> c = CHR '' ''"
proof
  assume u: "upper c = CHR '' ''"
  show "c = CHR '' ''"
  proof (cases "97 \<le> (of_char c :: nat) \<and> (of_char c :: nat) \<le> 122")
    case True
    with u have "char_of ((of_char c :: nat) - 32) = CHR '' ''" by (simp add: upper_def)
    then have "(of_char (char_of ((of_char c :: nat) - 32) :: char) :: nat) = 32" by simp
    then have "((of_char c :: nat) - 32) mod 256 = 32" by simp
    moreover have "((of_char c :: nat) - 32) mod 256 = of_char c - 32"
      using True by (intro mod_less) linarith
    ultimately show ?thesis using True by linarith
  next
    case False
    with u show ?thesis by (auto simp: upper_def split: if_splits)
  qed
qed (simp add: upper_def)

section \<open>The last path separator\<close>

text \<open>\<^verbatim>\<open>strings.LastIndex(s, "/")\<close>; \<open>None\<close> is \<^verbatim>\<open>-1\<close>.\<close>

fun LastIndex :: "string \<Rightarrow> char \<Rightarrow> nat option" where
  "LastIndex [] c = None"
| "LastIndex (x # s) c =
     (case LastIndex s c of
        Some i \<Rightarrow> Some (Suc i)
      | None \<Rightarrow> if x = c then Some 0 else None)"

lemma LastIndex_None [simp]: "LastIndex s c = None \<longleftrightarrow> c \<notin> set s"
  by (induction s) (auto split: option.split)

lemma LastIndex_append: "c \<notin> set r \<Longrightarrow> LastIndex (s @ c # r) c = Some (length s)"
proof (induction s)
  case Nil
  then have "LastIndex r c = None" by simp
  then show ?case by (simp split: option.split)
next
  case (Cons x s)
  then show ?case by simp
qed

lemma LastIndex_Some:
  "LastIndex s c = Some i \<Longrightarrow>
     i < length s \<and> s = take i s @ c # drop (Suc i) s \<and> c \<notin> set (drop (Suc i) s)"
proof (induction s arbitrary: i)
  case Nil
  then show ?case by simp
next
  case (Cons x s)
  show ?case
  proof (cases "LastIndex s c")
    case None
    with Cons.prems have "x = c" and "i = 0" by (auto split: if_splits)
    with None show ?thesis by simp
  next
    case (Some j)
    with Cons.prems have i: "i = Suc j" by simp
    from Cons.IH [OF Some] i show ?thesis by simp
  qed
qed

section \<open>Numbers and booleans as text\<close>

definition digit_char :: "nat \<Rightarrow> char" where
  "digit_char d = char_of (48 + d)"

definition is_digit :: "char \<Rightarrow> bool" where
  "is_digit c \<longleftrightarrow> 48 \<le> (of_char c :: nat) \<and> (of_char c :: nat) \<le> 57"

definition digit_val :: "char \<Rightarrow> nat" where
  "digit_val c = of_char c - 48"

fun show_nat :: "nat \<Rightarrow> string" where
  "show_nat n = (if n < 10 then [digit_char n] else show_nat (n div 10) @ [digit_char (n mod 10)])"

declare show_nat.simps [simp del]

text \<open>\<^verbatim>\<open>fmt.Sprintf("%d", i)\<close>\<close>

definition show_int :: "int \<Rightarrow> string" where
  "show_int i = (if i < 0 then CHR ''-'' # show_nat (nat (- i)) else show_nat (nat i))"

fun read_digits :: "nat \<Rightarrow> string \<Rightarrow> nat" where
  "read_digits a [] = a"
| "read_digits a (c # s) = read_digits (10 * a + digit_val c) s"

lemma digit_char_digit [simp]: "d < 10 \<Longrightarrow> is_digit (digit_char d)"
  by (simp add: is_digit_def digit_char_def)

lemma digit_val_char [simp]: "d < 10 \<Longrightarrow> digit_val (digit_char d) = d"
  by (simp add: digit_val_def digit_char_def)

lemma show_nat_digits: "c \<in> set (show_nat n) \<Longrightarrow> is_digit c"
proof (induction n rule: show_nat.induct)
  case (1 n)
  then show ?case
    by (subst (asm) (2) show_nat.simps) (auto split: if_splits)
qed

lemma show_nat_nonempty [simp]: "show_nat n \<noteq> []"
  by (subst show_nat.simps) simp

lemma read_digits_append: "read_digits a (s @ t) = read_digits (read_digits a s) t"
  by (induction s arbitrary: a) auto

lemma read_digits_show [simp]: "read_digits 0 (show_nat n) = n"
proof (induction n rule: show_nat.induct)
  case (1 n)
  show ?case
  proof (cases "n < 10")
    case True
    then show ?thesis by (subst show_nat.simps) simp
  next
    case False
    with "1.IH" show ?thesis
      by (subst show_nat.simps) (simp add: read_digits_append)
  qed
qed

lemma not_digit_punct [simp]:
  "\<not> is_digit (CHR ''-'')" "\<not> is_digit (CHR ''_'')" "\<not> is_digit (CHR ''+'')"
  by (simp_all add: is_digit_def)

lemma show_int_no_underscore: "CHR ''_'' \<notin> set (show_int i)"
  using show_nat_digits [of "CHR ''_''"] by (auto simp: show_int_def)

lemma show_nat_no_minus: "show_nat n = CHR ''-'' # s \<Longrightarrow> False"
  using show_nat_digits [of "CHR ''-''" n] by auto

lemma show_int_inject: "show_int i = show_int j \<Longrightarrow> i = j"
proof -
  assume e: "show_int i = show_int j"
  have inj: "m = n" if "show_nat m = show_nat n" for m n
    using that by (metis read_digits_show)
  show "i = j"
  proof (cases "i < 0"; cases "j < 0")
    assume "i < 0" and "j < 0"
    with e have "nat (- i) = nat (- j)" by (auto simp: show_int_def dest: inj)
    with \<open>i < 0\<close> \<open>j < 0\<close> show ?thesis by simp
  next
    assume "\<not> i < 0" and "\<not> j < 0"
    with e have "nat i = nat j" by (auto simp: show_int_def dest: inj)
    with \<open>\<not> i < 0\<close> \<open>\<not> j < 0\<close> show ?thesis by simp
  qed (use e in \<open>auto simp: show_int_def dest: show_nat_no_minus sym [THEN show_nat_no_minus]\<close>)
qed

text \<open>
  \<^verbatim>\<open>strconv.Atoi\<close> on a 64-bit platform: an optional sign, then at least one decimal digit and
  nothing else, in the range of \<^verbatim>\<open>int\<close>.
\<close>

definition Atoi :: "string \<Rightarrow> int option" where
  "Atoi s =
     (let (neg, ds) = (case s of [] \<Rightarrow> (False, [])
                       | c # r \<Rightarrow> if c = CHR ''-'' then (True, r)
                                 else if c = CHR ''+'' then (False, r) else (False, s));
          v = (if neg then - int (read_digits 0 ds) else int (read_digits 0 ds))
      in if ds \<noteq> [] \<and> list_all is_digit ds \<and> fits64 v then Some v else None)"

lemma Atoi_show_int:
  assumes "fits64 i"
  shows "Atoi (show_int i) = Some i"
proof -
  have d: "list_all is_digit (show_nat n)" for n
    by (auto simp: list_all_iff dest: show_nat_digits)
  show ?thesis
  proof (cases "i < 0")
    case True
    with assms d show ?thesis by (simp add: Atoi_def show_int_def)
  next
    case False
    obtain c r where c: "show_nat (nat i) = c # r"
      by (cases "show_nat (nat i)") auto
    then have "is_digit c" using show_nat_digits [of c "nat i"] by simp
    then have "c \<noteq> CHR ''-''" and "c \<noteq> CHR ''+''" by auto
    moreover have "read_digits 0 (c # r) = nat i" and "list_all is_digit (c # r)"
      using d [of "nat i"] by (simp_all only: flip: c) simp
    ultimately show ?thesis
      using False assms by (simp add: Atoi_def show_int_def c del: read_digits.simps list.pred_inject)
  qed
qed

text \<open>\<^verbatim>\<open>strconv.ParseBool\<close> with its error ignored: \<^verbatim>\<open>false\<close> for anything else.\<close>

definition ParseBool :: "string \<Rightarrow> bool" where
  "ParseBool s \<longleftrightarrow> s \<in> {''1'', ''t'', ''T'', ''TRUE'', ''true'', ''True''}"

section \<open>Hexadecimal\<close>

definition hex_digit :: "nat \<Rightarrow> char" where
  "hex_digit d = (if d < 10 then char_of (48 + d) else char_of (87 + d))"

definition hex_EncodeToString :: "string \<Rightarrow> string" where
  "hex_EncodeToString bs = concat (map (\<lambda>b. [hex_digit (of_char b div 16), hex_digit (of_char b mod 16)]) bs)"

lemma length_hex [simp]: "length (hex_EncodeToString bs) = 2 * length bs"
  by (induction bs) (auto simp: hex_EncodeToString_def)

lemma hex_digit_inject: "a < 16 \<Longrightarrow> b < 16 \<Longrightarrow> hex_digit a = hex_digit b \<longleftrightarrow> a = b"
  by (auto simp: hex_digit_def char_of_eq_iff take_bit_eq_mod split: if_splits)

section \<open>Quoting\<close>

text \<open>
  The verb \<^verbatim>\<open>%q\<close> of \<^verbatim>\<open>fmt\<close> (\<^verbatim>\<open>strconv.Quote\<close>). Bytes from 128 up are kept as they are, which is what it does with
  printable UTF-8.
\<close>

definition quote_char :: "char \<Rightarrow> string" where
  "quote_char c =
     (let n = (of_char c :: nat)
      in case map_of [(7, CHR ''a''), (8, CHR ''b''), (9, CHR ''t''), (10, CHR ''n''), (11, CHR ''v''), (12, CHR ''f''),
                      (13, CHR ''r''), (34, CHR 0x22), (92, CHR 0x5C)] n of
           Some e \<Rightarrow> [CHR 0x5C, e]
         | None \<Rightarrow> if n < 32 \<or> n = 127 then [CHR 0x5C, CHR ''x''] @ hex_EncodeToString [c] else [c])"

definition Quote :: "string \<Rightarrow> string" where
  "Quote s = [CHR 0x22] @ concat (map quote_char s) @ [CHR 0x22]"

end
