(* ===== verification/Config.thy ===== *)
theory Config
  imports Go_Strings
begin

text \<open>
  \<^verbatim>\<open>server/helpers/vault/vault.go\<close>, \<^verbatim>\<open>server/wkfs/vaultfs/vault.go\<close> and
  \<^verbatim>\<open>server/config/config.go\<close>: the server's configuration and the secrets it may keep in a Vault
  server. The Vault API client, the HCL parser and the file system are parameters.
\<close>

section \<open>The vault helper\<close>

text \<open>
  A secret's data maps names to JSON values. \<open>LogicalRead\<close> is a request to the server;
  \<open>None\<close> is the nil secret the API gives for a path that holds nothing.
\<close>

datatype vvalue = VString string | VOther

record Client =
  vc_address :: string
  vc_token :: string

record vault_api =
  api_NewClient :: "string \<Rightarrow> error option"
  LogicalRead :: "nat \<Rightarrow> Client \<Rightarrow> string \<Rightarrow> error + (string \<times> vvalue) list option"
  LogicalDelete :: "nat \<Rightarrow> Client \<Rightarrow> string \<Rightarrow> error option"

definition vault_NewClient :: "vault_api \<Rightarrow> string \<Rightarrow> string \<Rightarrow> error + Client" where
  "vault_NewClient api address token =
     (case api_NewClient api address of
        Some e \<Rightarrow> Inl e
      | None \<Rightarrow> Inr \<lparr>vc_address = address, vc_token = token\<rparr>)"

definition vault_prefix :: string where
  "vault_prefix = ''/vault/''"

definition parseName :: "string \<Rightarrow> string \<times> string" where
  "parseName name =
     (let name = TrimPrefix name vault_prefix
      in case LastIndex name (CHR ''/'') of
           None \<Rightarrow> (name, '''')
         | Some i \<Rightarrow> (take i name, drop (i + 1) name))"

text \<open>
  \<^verbatim>\<open>Client.Read\<close> gives the value and an error. \<^verbatim>\<open>secret.(string)\<close> panics on a secret that is not
  a string, and a nil \<^verbatim>\<open>*Client\<close> (\<open>None\<close>) panics when its \<^verbatim>\<open>vault\<close> field is read.
\<close>

definition Client_Read :: "vault_api \<Rightarrow> Client option \<Rightarrow> string \<Rightarrow> (string \<times> error option) io" where
  "Client_Read api c value =
     (let (p, k) = parseName value
      in case c of
           None \<Rightarrow> throw
         | Some cl \<Rightarrow> bind_io (remote (\<lambda>n. LogicalRead api n cl p)) (\<lambda>r.
             case r of
               Inl e \<Rightarrow> ret (value, Some e)
             | Inr None \<Rightarrow> ret (value, Some (ENew (''no such key '' @ k)))
             | Inr (Some data) \<Rightarrow>
                 (case map_of data k of
                    None \<Rightarrow> ret (value, Some (ENew (''no such key '' @ k)))
                  | Some (VString s) \<Rightarrow> ret (s, None)
                  | Some VOther \<Rightarrow> throw)))"

definition Client_Delete :: "vault_api \<Rightarrow> Client option \<Rightarrow> string \<Rightarrow> error option io" where
  "Client_Delete api c value =
     (let (p, k) = parseName value
      in case c of
           None \<Rightarrow> throw
         | Some cl \<Rightarrow> remote (\<lambda>n. LogicalDelete api n cl p))"

lemma parseName_split:
  assumes "CHR ''/'' \<notin> set k"
  shows "parseName (vault_prefix @ p @ CHR ''/'' # k) = (p, k)"
  using assms by (simp add: parseName_def LastIndex_append)

section \<open>The configuration\<close>

record Database =
  db_Type :: string
  db_DBName :: string
  db_Address :: string
  db_Username :: string
  db_Password :: string
  db_Filename :: string

record Server =
  UseTLS :: bool
  TLSKey :: string
  TLSCert :: string
  LetsEncryptServername :: string
  LetsEncryptCache :: string
  Addr :: string
  Port :: int
  User :: string
  CookieSecret :: string
  CSRFSecret :: string
  HTTPLogFile :: string
  server_Database :: Database
  RequireReason :: bool
  ShutdownTimeout :: string

record Auth =
  OauthClientID :: string
  OauthClientSecret :: string
  OauthCallbackURL :: string
  auth_Provider :: string
  ProviderOpts :: "string gomap"
  UsersWhitelist :: "string list"

record SSH =
  SigningKey :: string
  AdditionalPrincipals :: "string list"
  MaxAge :: string
  Permissions :: "string list"

record AWS =
  Region :: string
  AccessKey :: string
  SecretKey :: string

record Vault =
  vault_Address :: string
  vault_Token :: string

text \<open>The sections are pointers: \<open>None\<close> is a section missing from the file.\<close>

record Config =
  cfg_Server :: "Server option"
  cfg_Auth :: "Auth option"
  cfg_SSH :: "SSH option"
  cfg_AWS :: "AWS option"
  cfg_Vault :: "Vault option"

definition missing :: "string \<Rightarrow> 'a option \<Rightarrow> error list" where
  "missing what x = (if x = None then [ENew (''missing '' @ what @ '' config section'')] else [])"

definition verifyConfig :: "Config \<Rightarrow> error option" where
  "verifyConfig c =
     (let errs = missing ''ssh'' (cfg_SSH c) @ missing ''auth'' (cfg_Auth c) @ missing ''server'' (cfg_Server c)
      in if errs = [] then None else Some (EMulti errs))"

text \<open>
  \<^verbatim>\<open>setFromEnvironment\<close>: \<open>env\<close> is \<^verbatim>\<open>os.Getenv\<close>. An assignment through a missing section panics.
\<close>

definition set_server :: "Config \<Rightarrow> (Server \<Rightarrow> Server) \<Rightarrow> Config outcome" where
  "set_server c f =
     (case cfg_Server c of None \<Rightarrow> Panic | Some s \<Rightarrow> Return (c\<lparr>cfg_Server := Some (f s)\<rparr>))"

definition set_auth :: "Config \<Rightarrow> (Auth \<Rightarrow> Auth) \<Rightarrow> Config outcome" where
  "set_auth c f =
     (case cfg_Auth c of None \<Rightarrow> Panic | Some a \<Rightarrow> Return (c\<lparr>cfg_Auth := Some (f a)\<rparr>))"

fun bind_out :: "'a outcome \<Rightarrow> ('a \<Rightarrow> 'b outcome) \<Rightarrow> 'b outcome" where
  "bind_out (Return x) f = f x"
| "bind_out Panic f = Panic"

definition setFromEnvironment :: "(string \<Rightarrow> string) \<Rightarrow> Config \<Rightarrow> Config outcome" where
  "setFromEnvironment env c =
     bind_out (case Atoi (env ''PORT'') of
                 Some port \<Rightarrow> set_server c (\<lambda>s. s\<lparr>Port := port\<rparr>)
               | None \<Rightarrow> Return c) (\<lambda>c.
     bind_out (if env ''OAUTH_CLIENT_ID'' \<noteq> '''' then set_auth c (\<lambda>a. a\<lparr>OauthClientID := env ''OAUTH_CLIENT_ID''\<rparr>)
               else Return c) (\<lambda>c.
     bind_out (if env ''OAUTH_CLIENT_SECRET'' \<noteq> '''' then set_auth c (\<lambda>a. a\<lparr>OauthClientSecret := env ''OAUTH_CLIENT_SECRET''\<rparr>)
               else Return c) (\<lambda>c.
     bind_out (if env ''CSRF_SECRET'' \<noteq> '''' then set_server c (\<lambda>s. s\<lparr>CSRFSecret := env ''CSRF_SECRET''\<rparr>)
               else Return c) (\<lambda>c.
     if env ''COOKIE_SECRET'' \<noteq> '''' then set_server c (\<lambda>s. s\<lparr>CookieSecret := env ''COOKIE_SECRET''\<rparr>)
     else Return c))))"

text \<open>
  The closure \<^verbatim>\<open>get\<close> of \<^verbatim>\<open>setFromVault\<close>: a value under \<^verbatim>\<open>/vault/\<close> is replaced by what
  \<^verbatim>\<open>Read\<close> returns (the value itself if it failed) and the error is collected in \<open>errs\<close>.
\<close>

definition vault_get :: "vault_api \<Rightarrow> Client \<Rightarrow> string \<Rightarrow> error list \<Rightarrow> (string \<times> error list) io" where
  "vault_get api v value errs =
     (if HasPrefix value vault_prefix then
        bind_io (Client_Read api (Some v) value) (\<lambda>(s, err).
          ret (s, case err of None \<Rightarrow> errs | Some e \<Rightarrow> errs @ [e]))
      else ret (value, errs))"

definition set_vault_auth ::
  "vault_api \<Rightarrow> Client \<Rightarrow> Auth option \<Rightarrow> error list \<Rightarrow> (Auth option \<times> error list) io" where
  "set_vault_auth api v auth errs =
     (case auth of
        None \<Rightarrow> throw
      | Some a \<Rightarrow>
          bind_io (vault_get api v (OauthClientID a) errs) (\<lambda>(x, errs).
          bind_io (vault_get api v (OauthClientSecret a) errs) (\<lambda>(y, errs).
          ret (Some (a\<lparr>OauthClientID := x, OauthClientSecret := y\<rparr>), errs))))"

definition set_vault_server ::
  "vault_api \<Rightarrow> Client \<Rightarrow> Server option \<Rightarrow> error list \<Rightarrow> (Server option \<times> error list) io" where
  "set_vault_server api v server errs =
     (case server of
        None \<Rightarrow> throw
      | Some s \<Rightarrow>
          bind_io (vault_get api v (CSRFSecret s) errs) (\<lambda>(x, errs).
          bind_io (vault_get api v (CookieSecret s) errs) (\<lambda>(y, errs).
          bind_io (vault_get api v (db_Password (server_Database s)) errs) (\<lambda>(z, errs).
          ret (Some (s\<lparr>CSRFSecret := x, CookieSecret := y,
                       server_Database := (server_Database s)\<lparr>db_Password := z\<rparr>\<rparr>), errs)))))"

definition set_vault_aws ::
  "vault_api \<Rightarrow> Client \<Rightarrow> AWS option \<Rightarrow> error list \<Rightarrow> (AWS option \<times> error list) io" where
  "set_vault_aws api v aws errs =
     (case aws of
        None \<Rightarrow> ret (None, errs)
      | Some a \<Rightarrow>
          bind_io (vault_get api v (AccessKey a) errs) (\<lambda>(x, errs).
          bind_io (vault_get api v (SecretKey a) errs) (\<lambda>(y, errs).
          ret (Some (a\<lparr>AccessKey := x, SecretKey := y\<rparr>), errs))))"

definition setFromVault :: "vault_api \<Rightarrow> Config \<Rightarrow> (error + Config) io" where
  "setFromVault api c =
     (case cfg_Vault c of
        None \<Rightarrow> ret (Inr c)
      | Some vc \<Rightarrow>
          if vault_Token vc = '''' \<or> vault_Address vc = '''' then ret (Inr c)
          else case vault_NewClient api (vault_Address vc) (vault_Token vc) of
            Inl e \<Rightarrow> ret (Inl (EWrap ''vault error: '' e))
          | Inr v \<Rightarrow>
              bind_io (set_vault_auth api v (cfg_Auth c) []) (\<lambda>(auth, errs).
              bind_io (set_vault_server api v (cfg_Server c) errs) (\<lambda>(server, errs).
              bind_io (set_vault_aws api v (cfg_AWS c) errs) (\<lambda>(aws, errs).
                ret (if errs = [] then Inr (c\<lparr>cfg_Auth := auth, cfg_Server := server, cfg_AWS := aws\<rparr>)
                     else Inl (EMulti errs))))))"

text \<open>
  \<^verbatim>\<open>ReadConfig\<close>: \<open>read_file\<close> is \<^verbatim>\<open>os.ReadFile\<close> and \<open>hcl_Unmarshal\<close> the HCL parser. The vault
  and the environment are consulted before the sections are checked.
\<close>

record config_env =
  read_file :: "string \<Rightarrow> error + string"
  hcl_Unmarshal :: "string \<Rightarrow> error + Config"
  Getenv :: "string \<Rightarrow> string"
  vault_client :: vault_api

definition ReadConfig :: "config_env \<Rightarrow> string \<Rightarrow> (error + Config) io" where
  "ReadConfig env f =
     (case read_file env f of
        Inl e \<Rightarrow> ret (Inl (EWrap (''unable to read config from file '' @ f @ '': '') e))
      | Inr bs \<Rightarrow>
          (case hcl_Unmarshal env bs of
             Inl e \<Rightarrow> ret (Inl (EText ''error parsing config: '' e))
           | Inr config \<Rightarrow>
               bind_io (setFromVault (vault_client env) config) (\<lambda>r.
                 case r of
                   Inl e \<Rightarrow> ret (Inl e)
                 | Inr config \<Rightarrow>
                     (case setFromEnvironment (Getenv env) config of
                        Panic \<Rightarrow> throw
                      | Return config \<Rightarrow>
                          (case verifyConfig config of
                             Some e \<Rightarrow> ret (Inl (EWrap ''unabe to verify config: '' e))
                           | None \<Rightarrow> ret (Inr config))))))"

section \<open>The vault file system\<close>

text \<open>
  \<^verbatim>\<open>path.Base\<close>: the last element of a path, without trailing slashes; \<^verbatim>\<open>"."\<close> for the empty path
  and \<^verbatim>\<open>"/"\<close> for a path of slashes only.
\<close>

definition path_Base :: "string \<Rightarrow> string" where
  "path_Base p =
     (if p = '''' then ''.''
      else let q = rev (dropWhile (\<lambda>c. c = CHR ''/'') (rev p));
               b = rev (takeWhile (\<lambda>c. c \<noteq> CHR ''/'') (rev q))
           in if b = '''' then ''/'' else b)"

record vaultFS =
  fs_err :: "error option"
  fs_client :: "Client option"

definition registerBrokenFS :: "error \<Rightarrow> vaultFS" where
  "registerBrokenFS err = \<lparr>fs_err = Some err, fs_client = None\<rparr>"

definition vaultfs_Register :: "vault_api \<Rightarrow> Vault option \<Rightarrow> vaultFS" where
  "vaultfs_Register api vc =
     (case vc of
        None \<Rightarrow> registerBrokenFS (ENew ''no vault configuration found'')
      | Some v \<Rightarrow>
          (case vault_NewClient api (vault_Address v) (vault_Token v) of
             Inl e \<Rightarrow> registerBrokenFS e
           | Inr client \<Rightarrow> \<lparr>fs_err = None, fs_client = Some client\<rparr>))"

record vaultfile =
  file_name :: string
  file_content :: string

record statInfo =
  si_name :: string
  si_size :: int
  si_isDir :: bool
  si_modtime :: time

definition vaultFS_Open :: "vault_api \<Rightarrow> vaultFS \<Rightarrow> string \<Rightarrow> (error + vaultfile) io" where
  "vaultFS_Open api fs name =
     bind_io (Client_Read api (fs_client fs) name) (\<lambda>(secret, err).
       case err of
         Some e \<Rightarrow> ret (Inl e)
       | None \<Rightarrow> ret (Inr \<lparr>file_name = name, file_content = secret\<rparr>))"

definition vaultFS_Lstat :: "vault_api \<Rightarrow> vaultFS \<Rightarrow> string \<Rightarrow> (error + statInfo) io" where
  "vaultFS_Lstat api fs name =
     bind_io (Client_Read api (fs_client fs) name) (\<lambda>(secret, err).
       case err of
         Some e \<Rightarrow> ret (Inl e)
       | None \<Rightarrow> ret (Inr \<lparr>si_name = path_Base name, si_size = int (length secret),
                            si_isDir = False, si_modtime = zero_time\<rparr>))"

definition vaultFS_Stat :: "vault_api \<Rightarrow> vaultFS \<Rightarrow> string \<Rightarrow> (error + statInfo) io" where
  "vaultFS_Stat api fs name = vaultFS_Lstat api fs name"

definition vaultFS_MkdirAll :: "vaultFS \<Rightarrow> string \<Rightarrow> error option io" where
  "vaultFS_MkdirAll fs path = ret None"

definition vaultFS_OpenFile :: "vaultFS \<Rightarrow> string \<Rightarrow> (error + vaultfile) io" where
  "vaultFS_OpenFile fs name = ret (Inl (ENew ''not implemented''))"

definition vaultFS_Remove :: "vault_api \<Rightarrow> vaultFS \<Rightarrow> string \<Rightarrow> error option io" where
  "vaultFS_Remove api fs path = Client_Delete api (fs_client fs) path"

definition statInfo_Name :: "statInfo \<Rightarrow> string" where
  "statInfo_Name si = path_Base (si_name si)"

definition file_Name :: "vaultfile \<Rightarrow> string" where
  "file_Name f = path_Base (file_name f)"

definition file_Stat :: "vaultfile \<Rightarrow> error + statInfo" where
  "file_Stat f = Inl (ENew ''Stat not implemented on /vault/ files'')"

end
