(* ===== verification/Auth_Types.thy ===== *)
theory Auth_Types
  imports Config
begin

text \<open>
  \<^verbatim>\<open>server/auth/provider.go\<close>: the interface of an authentication provider as a record of operations, its
  contract as locales, and what the four providers share. \<^verbatim>\<open>golang.org/x/oauth2\<close> and the provider APIs are
  not part of the repository: they are the fields of \<open>oauth2_api\<close>, an argument of every definition
  that uses them. A request takes the number of the call, so two requests may be answered differently.
\<close>

section \<open>Tokens and requests\<close>

record Token =
  AccessToken :: string
  TokenType :: string
  RefreshToken :: string
  Expiry :: time

definition empty_Token :: Token where
  "empty_Token = \<lparr>AccessToken = '''', TokenType = '''', RefreshToken = '''', Expiry = zero_time\<rparr>"

record Endpoint =
  AuthURL :: string
  TokenURL :: string

record oauth2_Config =
  ClientID :: string
  ClientSecret :: string
  RedirectURL :: string
  oauth2_Endpoint :: Endpoint
  Scopes :: "string list"

text \<open>
  A JSON value as \<^verbatim>\<open>encoding/json\<close> reads it. \<open>JInt\<close> is a number that an \<^verbatim>\<open>int\<close> can hold and that is written
  without a fraction or an exponent, \<open>JNumber\<close> any other number.
\<close>

datatype json =
    JNull
  | JBool bool
  | JInt int
  | JNumber
  | JString string
  | JArray "json list"
  | JObject "(string \<times> json) list"

text \<open>
  The answer to an HTTP request: status code and body. \<open>http_Do\<close> sends a GET request with the token;
  \<open>json_parse\<close> is the syntax part of \<^verbatim>\<open>json.Decoder\<close>, which reads the first value of the body.
\<close>

record oauth2_api =
  TokenValid :: "time \<Rightarrow> Token \<Rightarrow> bool"
  oauth2_Exchange :: "nat \<Rightarrow> oauth2_Config \<Rightarrow> string \<Rightarrow> error + Token"
  AuthCodeURL :: "oauth2_Config \<Rightarrow> string \<Rightarrow> (string \<times> string) list \<Rightarrow> string"
  github_Endpoint :: Endpoint
  google_Endpoint :: Endpoint
  AzureADEndpoint :: "string \<Rightarrow> Endpoint"
  http_NewRequest :: "string \<Rightarrow> error option"
  http_Do :: "nat \<Rightarrow> oauth2_Config \<Rightarrow> Token \<Rightarrow> string \<Rightarrow> error + int \<times> string"
  json_parse :: "string \<Rightarrow> error + json"

text \<open>What the package documents of \<^verbatim>\<open>Token.Valid\<close>: a valid token has an access token.\<close>

definition token_valid_ok :: "oauth2_api \<Rightarrow> bool" where
  "token_valid_ok api \<longleftrightarrow> (\<forall>now t. TokenValid api now t \<longrightarrow> AccessToken t \<noteq> '''')"

definition token_Valid :: "oauth2_api \<Rightarrow> (nat \<Rightarrow> time) \<Rightarrow> Token \<Rightarrow> bool io" where
  "token_Valid api clk t = bind_io (Now clk) (\<lambda>now. ret (TokenValid api now t))"

section \<open>The Provider interface\<close>

record Provider =
  prov_Name :: string
  prov_StartSession :: "string \<Rightarrow> string"
  prov_Exchange :: "string \<Rightarrow> (error + Token) io"
  prov_Username :: "Token \<Rightarrow> string io"
  prov_Valid :: "Token \<Rightarrow> bool io"
  prov_Revoke :: "Token \<Rightarrow> error option io"

text \<open>
  The effects every provider keeps to: no operation turns the clock back, only \<^verbatim>\<open>Exchange\<close> touches the exchange
  counter and only \<^verbatim>\<open>Valid\<close> the counter of valid tokens.
\<close>

definition quiet :: "'a io \<Rightarrow> bool" where
  "quiet m \<longleftrightarrow> (\<forall>w. ticks w \<le> ticks (snd (m w)) \<and> AuthValid (snd (m w)) = AuthValid w
      \<and> AuthExchange (snd (m w)) = AuthExchange w)"

definition later :: "'a io \<Rightarrow> bool" where
  "later m \<longleftrightarrow> (\<forall>w. ticks w \<le> ticks (snd (m w)))"

lemma quiet_later: "quiet m \<Longrightarrow> later m"
  by (simp add: quiet_def later_def)

lemma quiet_prims [simp]:
  "quiet (ret x)" "quiet throw" "quiet (remote f)" "quiet (Now g)" "quiet (draw h)"
  by (simp_all add: quiet_def ret_def throw_def remote_def Now_def draw_def)

lemma quiet_bind [intro!]:
  assumes "quiet m" and "\<And>x. quiet (f x)"
  shows "quiet (bind_io m f)"
  unfolding quiet_def
proof
  fix w
  obtain o1 w1 where m: "m w = (o1, w1)" by (cases "m w")
  with assms(1) have q: "ticks w \<le> ticks w1 \<and> AuthValid w1 = AuthValid w \<and> AuthExchange w1 = AuthExchange w"
    unfolding quiet_def by (metis snd_conv)
  show "ticks w \<le> ticks (snd (bind_io m f w)) \<and> AuthValid (snd (bind_io m f w)) = AuthValid w
      \<and> AuthExchange (snd (bind_io m f w)) = AuthExchange w"
  proof (cases o1)
    case (Return x)
    with m have "bind_io m f w = f x w1" by (simp add: bind_io_def)
    moreover have "ticks w1 \<le> ticks (snd (f x w1)) \<and> AuthValid (snd (f x w1)) = AuthValid w1
      \<and> AuthExchange (snd (f x w1)) = AuthExchange w1"
      using assms(2) by (simp add: quiet_def)
    ultimately show ?thesis using q by simp
  next
    case Panic
    with m q show ?thesis by (simp add: bind_io_def)
  qed
qed

lemma later_prims [simp]:
  "later (ret x)" "later throw" "later (remote f)" "later (Now g)" "later (draw h)"
  "later (incAuthValid l)" "later (incAuthExchange l)"
  by (simp_all add: later_def io_defs)

lemma later_bind [intro!]:
  assumes "later m" and "\<And>x. later (f x)"
  shows "later (bind_io m f)"
  unfolding later_def
proof
  fix w
  obtain o1 w1 where m: "m w = (o1, w1)" by (cases "m w")
  with assms(1) have "ticks w \<le> ticks w1" unfolding later_def by (metis snd_conv)
  moreover have "ticks w1 \<le> ticks (snd (f x w1))" for x
    using assms(2) by (simp add: later_def)
  ultimately show "ticks w \<le> ticks (snd (bind_io m f w))"
    using m by (cases o1) (auto simp: bind_io_def intro: order.trans)
qed

lemma laterD: "later m \<Longrightarrow> m w = (r, w') \<Longrightarrow> ticks w \<le> ticks w'"
  unfolding later_def by (metis snd_conv)

lemma quietD:
  assumes "quiet m" and "m w = (r, w')"
  shows "ticks w \<le> ticks w'" and "AuthValid w' = AuthValid w" and "AuthExchange w' = AuthExchange w"
  using assms unfolding quiet_def by (metis snd_conv)+

lemma token_Valid_quiet [simp]: "quiet (token_Valid api clk t)"
  by (auto simp: token_Valid_def)

lemma token_Valid_TrueD:
  "token_Valid api clk t w = (Return True, w') \<Longrightarrow>
     TokenValid api (clk (ticks w)) t \<and> w' = w\<lparr>ticks := Suc (ticks w)\<rparr>"
  by (simp add: token_Valid_def io_defs)

text \<open>
  \<open>provider\<close> is what every implementation keeps; \<open>token_provider\<close> adds what the four real providers promise:
  a token they accept is valid at a reading of the clock taken by the call, and the call is counted once
  under the provider's name, as is every exchanged code.
\<close>

locale provider =
  fixes p :: Provider
  assumes username_quiet: "quiet (prov_Username p t)"
    and revoke_quiet: "quiet (prov_Revoke p t)"
    and valid_later: "later (prov_Valid p t)"
    and exchange_later: "later (prov_Exchange p code)"

locale token_provider = provider p for p :: Provider +
  fixes api :: oauth2_api and clk :: "nat \<Rightarrow> time"
  assumes valid_law: "prov_Valid p t w = (Return True, w') \<Longrightarrow>
      (\<exists>i. ticks w \<le> i \<and> i < ticks w' \<and> TokenValid api (clk i) t) \<and>
      AuthValid w' = (AuthValid w)(prov_Name p := Suc (AuthValid w (prov_Name p))) \<and>
      AuthExchange w' = AuthExchange w"
    and exchange_law: "prov_Exchange p code w = (Return (Inr t), w') \<Longrightarrow>
      AuthExchange w' = (AuthExchange w)(prov_Name p := Suc (AuthExchange w (prov_Name p))) \<and>
      AuthValid w' = AuthValid w"

section \<open>What several providers share\<close>

text \<open>
  The whitelist check in front of \<^verbatim>\<open>Valid\<close>: \<^verbatim>\<open>len(c.whitelist) > 0 && !c.whitelist[who()]\<close>. The user is only
  asked for when there is a list.
\<close>

definition not_whitelisted :: "bool gomap \<Rightarrow> string io \<Rightarrow> bool io" where
  "not_whitelisted wl who =
     (if wl = [] then ret False else bind_io who (\<lambda>u. ret (\<not> map_is wl u)))"

lemma not_whitelisted_quiet [simp]: "quiet who \<Longrightarrow> quiet (not_whitelisted wl who)"
  by (auto simp: not_whitelisted_def)

lemma not_whitelisted_FalseD:
  assumes "not_whitelisted wl who w = (Return False, w')" and "wl \<noteq> []"
  obtains u where "who w = (Return u, w')" and "map_is wl u"
  using assms by (auto simp: not_whitelisted_def elim!: bind_io_ReturnE)

lemma not_whitelisted_Nil [simp]: "not_whitelisted [] who = ret False"
  by (simp add: not_whitelisted_def)

text \<open>An exchange that counts the codes it could exchange, as in three of the providers.\<close>

definition counted_exchange :: "oauth2_api \<Rightarrow> oauth2_Config \<Rightarrow> string \<Rightarrow> string \<Rightarrow> (error + Token) io" where
  "counted_exchange api conf nm code =
     bind_io (remote (\<lambda>n. oauth2_Exchange api n conf code)) (\<lambda>r.
       case r of
         Inl e \<Rightarrow> ret (Inl e)
       | Inr t \<Rightarrow> bind_io (incAuthExchange nm) (\<lambda>_. ret (Inr t)))"

lemma counted_exchange_later [simp]: "later (counted_exchange api conf nm code)"
  by (auto simp: counted_exchange_def split: sum.split)

lemma counted_exchange_Inr:
  assumes "counted_exchange api conf nm code w = (Return (Inr t), w')"
  shows "AuthExchange w' = (AuthExchange w)(nm := Suc (AuthExchange w nm)) \<and> AuthValid w' = AuthValid w
    \<and> oauth2_Exchange api (calls w) conf code = Inr t"
  using assms by (auto simp: counted_exchange_def io_defs split: sum.splits)

text \<open>\<^verbatim>\<open>strings.Split(email, "@")[0]\<close>.\<close>

definition before_at :: "string \<Rightarrow> string" where
  "before_at email = Split email (CHR ''@'') ! 0"

lemma before_at_takeWhile: "before_at email = takeWhile (\<lambda>c. c \<noteq> CHR ''@'') email"
  by (induction email) (auto simp: before_at_def split: list.split)

lemma incAuthValid_iff [simp]:
  "incAuthValid l w = (Return u, w') \<longleftrightarrow> w' = w\<lparr>AuthValid := (AuthValid w)(l := Suc (AuthValid w l))\<rparr>"
  by (auto simp: incAuthValid_def)

lemma remote_iff [simp]:
  "remote f w = (Return x, w') \<longleftrightarrow> x = f (calls w) \<and> w' = w\<lparr>calls := Suc (calls w)\<rparr>"
  by (auto simp: remote_def)

text \<open>
  \<^verbatim>\<open>http.NewRequestWithContext\<close> and \<^verbatim>\<open>client.Do\<close>: a request that cannot be built or sent is an error, any other
  gives the status code and the body.
\<close>

definition http_get :: "oauth2_api \<Rightarrow> oauth2_Config \<Rightarrow> Token \<Rightarrow> string \<Rightarrow> (error + int \<times> string) io" where
  "http_get api conf t url =
     remote (\<lambda>n. case http_NewRequest api url of Some e \<Rightarrow> Inl e | None \<Rightarrow> http_Do api n conf t url)"

lemma http_get_quiet [simp]: "quiet (http_get api conf t url)"
  by (simp add: http_get_def)

text \<open>
  \<^verbatim>\<open>encoding/json\<close> matches the keys of an object to the fields of a struct without regard to case, keeps the last of
  two values for a key, skips null, and goes on after a value of the wrong type, which makes
  it report an error at the end.
\<close>

definition equal_fold :: "string \<Rightarrow> string \<Rightarrow> bool" where
  "equal_fold a b \<longleftrightarrow> ToUpper a = ToUpper b"

fun decode_int :: "json \<Rightarrow> int \<Rightarrow> int \<times> bool" where
  "decode_int (JInt i) old = (i, False)"
| "decode_int JNull old = (old, False)"
| "decode_int _ old = (old, True)"

fun decode_string :: "json \<Rightarrow> string \<Rightarrow> string \<times> bool" where
  "decode_string (JString s) old = (s, False)"
| "decode_string JNull old = (old, False)"
| "decode_string _ old = (old, True)"

text \<open>Decoding into a struct: \<open>field\<close> handles one key of the object.\<close>

fun decode_struct :: "((string \<times> json) \<Rightarrow> 'a \<times> bool \<Rightarrow> 'a \<times> bool) \<Rightarrow> 'a \<Rightarrow> json \<Rightarrow> error + 'a" where
  "decode_struct field zero (JObject fs) =
     (case fold field fs (zero, False) of
        (x, bad) \<Rightarrow> if bad then Inl (ENew ''json: cannot unmarshal'') else Inr x)"
| "decode_struct field zero JNull = Inr zero"
| "decode_struct field zero _ = Inl (ENew ''json: cannot unmarshal'')"

text \<open>\<^verbatim>\<open>m[k]\<close> on a decoded object, whose last value for a key wins.\<close>

definition doc_get :: "(string \<times> json) list \<Rightarrow> string \<Rightarrow> json option" where
  "doc_get fs k = map_of (rev fs) k"

section \<open>Concrete services for the witnesses\<close>

definition wapi :: oauth2_api where
  "wapi = \<lparr>TokenValid = (\<lambda>now t. AccessToken t \<noteq> '''' \<and> (Expiry t = zero_time \<or> now \<le> Expiry t)),
           oauth2_Exchange = (\<lambda>n c code. if code = ''good'' then Inr (empty_Token\<lparr>AccessToken := ''tok''\<rparr>) else Inl (ENew ''oauth2: cannot fetch token'')),
           AuthCodeURL = (\<lambda>c state ps. ''https://idp/?state='' @ state),
           github_Endpoint = \<lparr>AuthURL = ''a'', TokenURL = ''t''\<rparr>, google_Endpoint = \<lparr>AuthURL = ''a'', TokenURL = ''t''\<rparr>,
           AzureADEndpoint = (\<lambda>tenant. \<lparr>AuthURL = tenant, TokenURL = tenant\<rparr>),
           http_NewRequest = (\<lambda>_. None), http_Do = (\<lambda>n c t url. Inr (200, ''{}'')), json_parse = (\<lambda>s. Inr (JObject []))\<rparr>"

definition wtoken :: Token where
  "wtoken = \<lparr>AccessToken = ''tok'', TokenType = '''', RefreshToken = '''', Expiry = 100\<rparr>"

lemma wapi_token_valid_ok [simp]: "token_valid_ok wapi"
  by (simp add: token_valid_ok_def wapi_def)

end
