(* ===== verification/Auth_Test.thy ===== *)
theory Auth_Test
  imports Auth_Types
begin

text \<open>
  \<^verbatim>\<open>server/auth/testprovider/testprovider.go\<close>: the provider of the server's own tests, which lets every token in. It keeps
  the contract \<open>provider\<close> and not \<open>token_provider\<close>.
\<close>

definition testprovider_Name :: string where
  "testprovider_Name = ''testprovider''"

definition testprovider_Valid :: "Token \<Rightarrow> bool io" where
  "testprovider_Valid t = ret True"

definition testprovider_Revoke :: "Token \<Rightarrow> error option io" where
  "testprovider_Revoke t = ret None"

definition testprovider_StartSession :: "string \<Rightarrow> string" where
  "testprovider_StartSession state = ''https://www.example.com/auth''"

definition testprovider_Exchange :: "(nat \<Rightarrow> time) \<Rightarrow> string \<Rightarrow> (error + Token) io" where
  "testprovider_Exchange clk code =
     bind_io (Now clk) (\<lambda>now. ret (Inr (empty_Token\<lparr>AccessToken := ''token'', Expiry := Add now Hour\<rparr>)))"

definition testprovider_Username :: "Token \<Rightarrow> string io" where
  "testprovider_Username t = ret ''test''"

definition testprovider_New :: "(nat \<Rightarrow> time) \<Rightarrow> Provider" where
  "testprovider_New clk =
     \<lparr>prov_Name = testprovider_Name, prov_StartSession = testprovider_StartSession,
      prov_Exchange = testprovider_Exchange clk, prov_Username = testprovider_Username,
      prov_Valid = testprovider_Valid, prov_Revoke = testprovider_Revoke\<rparr>"

interpretation test: provider "testprovider_New clk"
  for clk
  by unfold_locales
    (auto simp: testprovider_New_def testprovider_Username_def testprovider_Revoke_def testprovider_Valid_def
      testprovider_Exchange_def)

end
