(* ===== verification/Client_Cache.thy ===== *)
theory Client_Cache
  imports Auth_Types
begin

text \<open>
  \<^verbatim>\<open>server/auth/httpclient/client.go\<close>: a cache of HTTP clients by the address of their token. Tokens and clients are
  compared by address, so both are numbers here: \<open>heap\<close> gives the token at an address and every client
  that is made gets the next free address. The mutex makes each operation atomic.
\<close>

section \<open>The cache\<close>

record ClientCache =
  cc_clients :: "(nat \<times> nat) list"
  cc_next :: nat

definition cache_New :: ClientCache where
  "cache_New = \<lparr>cc_clients = [], cc_next = 0\<rparr>"

text \<open>The loop of \<^verbatim>\<open>cleanup\<close> reads the clock once for every token it visits; deleting inside the loop is safe in Go.\<close>

fun cleanup_loop :: "(nat \<Rightarrow> time) \<Rightarrow> (nat \<Rightarrow> Token) \<Rightarrow> (nat \<times> nat) list \<Rightarrow> (nat \<times> nat) list \<Rightarrow> (nat \<times> nat) list io" where
  "cleanup_loop clk heap [] m = ret m"
| "cleanup_loop clk heap ((token, client) # todo) m =
     bind_io (Now clk) (\<lambda>now.
       cleanup_loop clk heap todo
         (if Before (Expiry (heap token)) now then AList.delete token m else m))"

definition cache_cleanup :: "(nat \<Rightarrow> time) \<Rightarrow> (nat \<Rightarrow> Token) \<Rightarrow> ClientCache \<Rightarrow> ClientCache io" where
  "cache_cleanup clk heap cc =
     bind_io (cleanup_loop clk heap (cc_clients cc) (cc_clients cc)) (\<lambda>m. ret (cc\<lparr>cc_clients := m\<rparr>))"

text \<open>
  \<^verbatim>\<open>janitor\<close> waits for a stop or a tick. The list is what it receives: when it is used up the goroutine waits on.
\<close>

datatype janitor_event = StopJanitor | Tick

fun janitor_loop :: "(nat \<Rightarrow> time) \<Rightarrow> (nat \<Rightarrow> Token) \<Rightarrow> janitor_event list \<Rightarrow> ClientCache \<Rightarrow> ClientCache io" where
  "janitor_loop clk heap [] cc = ret cc"
| "janitor_loop clk heap (StopJanitor # es) cc = ret cc"
| "janitor_loop clk heap (Tick # es) cc = bind_io (cache_cleanup clk heap cc) (janitor_loop clk heap es)"

definition janitor :: "(nat \<Rightarrow> time) \<Rightarrow> (nat \<Rightarrow> Token) \<Rightarrow> duration \<Rightarrow> janitor_event list \<Rightarrow> ClientCache \<Rightarrow> ClientCache io" where
  "janitor clk heap cleanupDuration es cc =
     (if cleanupDuration \<le> 0 then ret cc else janitor_loop clk heap es cc)"

definition cache_Get :: "nat \<Rightarrow> ClientCache \<Rightarrow> nat \<times> ClientCache" where
  "cache_Get token cc =
     (case map_of (cc_clients cc) token of
        Some client \<Rightarrow> (client, cc)
      | None \<Rightarrow> (cc_next cc, cc\<lparr>cc_clients := AList.update token (cc_next cc) (cc_clients cc), cc_next := Suc (cc_next cc)\<rparr>))"

definition cache_Destroy :: "nat \<Rightarrow> ClientCache \<Rightarrow> ClientCache" where
  "cache_Destroy token cc = cc\<lparr>cc_clients := AList.delete token (cc_clients cc)\<rparr>"

section \<open>The invariant\<close>

text \<open>One entry for each token, one token for each client, and no client address is used that was not given out.\<close>

definition cache_inv :: "ClientCache \<Rightarrow> bool" where
  "cache_inv cc \<longleftrightarrow> wf_map (cc_clients cc) \<and> distinct (map snd (cc_clients cc)) \<and>
     (\<forall>(token, client) \<in> set (cc_clients cc). client < cc_next cc)"

lemma update_new: "map_of m k = None \<Longrightarrow> AList.update k v m = m @ [(k, v)]"
  by (induction m) (auto split: if_splits)

lemma delete_filter: "AList.delete k m = filter (\<lambda>(k', _). k \<noteq> k') m"
  by (simp add: AList.delete_eq)

lemma cache_inv_filter:
  assumes "cache_inv cc"
  shows "cache_inv (cc\<lparr>cc_clients := filter P (cc_clients cc)\<rparr>)"
  using assms by (auto simp: cache_inv_def wf_map_def distinct_map_filter)

lemma cleanup_loop_filter:
  "\<exists>P w'. cleanup_loop clk heap todo m w = (Return (filter P m), w') \<and>
     (\<forall>token client. (token, client) \<in> set todo \<longrightarrow> (\<forall>i. Before (Expiry (heap token)) (clk i)) \<longrightarrow> \<not> P (token, client)) \<and>
     (\<forall>token client. (\<forall>i. \<not> Before (Expiry (heap token)) (clk i)) \<longrightarrow> P (token, client))"
proof (induction todo arbitrary: m w)
  case Nil
  show ?case by (rule exI [of _ "\<lambda>_. True"]) (simp add: ret_def)
next
  case (Cons p todo)
  obtain token client where p: "p = (token, client)" by (cases p)
  let ?gone = "Before (Expiry (heap token)) (clk (ticks w))"
  let ?Q = "\<lambda>(k, v :: nat). \<not> (?gone \<and> token = k)"
  obtain P w' where P: "cleanup_loop clk heap todo (filter ?Q m) (w\<lparr>ticks := Suc (ticks w)\<rparr>) = (Return (filter P (filter ?Q m)), w')"
      "\<forall>t c. (t, c) \<in> set todo \<longrightarrow> (\<forall>i. Before (Expiry (heap t)) (clk i)) \<longrightarrow> \<not> P (t, c)"
      "\<forall>t c. (\<forall>i. \<not> Before (Expiry (heap t)) (clk i)) \<longrightarrow> P (t, c)"
    using Cons.IH [of "filter ?Q m" "w\<lparr>ticks := Suc (ticks w)\<rparr>"] by blast
  have "(if ?gone then AList.delete token m else m) = filter ?Q m"
    by (cases ?gone) (simp_all add: delete_filter case_prod_unfold)
  then have "cleanup_loop clk heap (p # todo) m w = (Return (filter (\<lambda>x. P x \<and> ?Q x) m), w')"
    using P(1) by (simp add: p bind_io_def Now_def conj_commute)
  moreover have "\<not> (P (t, c) \<and> ?Q (t, c))"
    if "(t, c) \<in> set (p # todo)" and "\<forall>i. Before (Expiry (heap t)) (clk i)" for t c
    using that P(2) by (auto simp: p)
  ultimately show ?case using P(3) by (intro exI [of _ "\<lambda>x. P x \<and> ?Q x"] exI [of _ w']) auto
qed

lemma cache_cleanup_inv:
  assumes "cache_inv cc"
  obtains cc' w' where "cache_cleanup clk heap cc w = (Return cc', w')" and "cache_inv cc'"
proof -
  obtain P w' where "cleanup_loop clk heap (cc_clients cc) (cc_clients cc) w = (Return (filter P (cc_clients cc)), w')"
    using cleanup_loop_filter by blast
  then have "cache_cleanup clk heap cc w = (Return (cc\<lparr>cc_clients := filter P (cc_clients cc)\<rparr>), w')"
    by (simp add: cache_cleanup_def bind_io_def ret_def)
  with cache_inv_filter [OF assms] that show thesis by blast
qed

lemma cache_Get_inv:
  assumes "cache_inv cc"
  shows "cache_inv (snd (cache_Get token cc))"
proof (cases "map_of (cc_clients cc) token")
  case (Some c)
  with assms show ?thesis by (simp add: cache_Get_def)
next
  case None
  then have "token \<notin> fst ` set (cc_clients cc)" by (simp add: map_of_eq_None_iff)
  with assms None show ?thesis
    by (auto simp: cache_Get_def update_new cache_inv_def wf_map_def)
qed

lemma cache_Destroy_inv: "cache_inv cc \<Longrightarrow> cache_inv (cache_Destroy token cc)"
  by (simp add: cache_Destroy_def delete_filter cache_inv_filter)

inductive cache_step :: "(nat \<Rightarrow> time) \<Rightarrow> (nat \<Rightarrow> Token) \<Rightarrow> ClientCache \<Rightarrow> ClientCache \<Rightarrow> bool"
  for clk heap where
  get_step: "cache_step clk heap cc (snd (cache_Get token cc))"
| destroy_step: "cache_step clk heap cc (cache_Destroy token cc)"
| janitor_step: "cache_cleanup clk heap cc w = (Return cc', w') \<Longrightarrow> cache_step clk heap cc cc'"

lemma cache_step_inv:
  assumes "cache_step clk heap cc cc'" and "cache_inv cc"
  shows "cache_inv cc'"
  using assms(1)
proof cases
  case (janitor_step w w')
  with cache_cleanup_inv [OF assms(2), of clk heap w] show ?thesis by auto
qed (simp_all add: assms(2) cache_Get_inv cache_Destroy_inv)

lemma cache_inv_New: "cache_inv cache_New"
  by (simp add: cache_inv_def cache_New_def)

section \<open>Properties\<close>

text \<open>
  C31: whatever sequence of lookups, deletions and janitor rounds a cache goes through, two tokens never share a client: a client that Get
  returns for a token is the client of no other token.
\<close>

theorem cache_no_sharing:
  assumes "(cache_step clk heap)\<^sup>*\<^sup>* cache_New cc" and "token \<noteq> token'"
  shows "map_of (cc_clients (snd (cache_Get token cc))) token' \<noteq> Some (fst (cache_Get token cc))"
proof -
  from assms(1) have "cache_inv cc"
    by (induction rule: rtranclp_induct)
      (auto simp: cache_inv_New intro: cache_step_inv)
  then have inv: "cache_inv (snd (cache_Get token cc))" by (rule cache_Get_inv)
  have "map_of (cc_clients (snd (cache_Get token cc))) token = Some (fst (cache_Get token cc))"
    by (simp add: cache_Get_def update_conv' split: option.split)
  moreover from inv have "inj_on snd (set (cc_clients (snd (cache_Get token cc))))"
    by (simp add: cache_inv_def distinct_map)
  ultimately show ?thesis
    using assms(2) by (force dest!: map_of_SomeD simp: inj_on_def)
qed

theorem cache_no_sharing_witness:
  "map_of (cc_clients (snd (cache_Get 2 (snd (cache_Get 1 cache_New))))) 1 \<noteq> Some (fst (cache_Get 2 (snd (cache_Get 1 cache_New))))"
  by (rule cache_no_sharing [where clk = "\<lambda>_. 0" and heap = "\<lambda>_. empty_Token"])
    (auto intro: get_step)

text \<open>
  A janitor round always ends; it drops every token that is expired at all readings of the clock and keeps the client of every token
  that is expired at none.
\<close>

theorem cache_cleanup_expired:
  shows "\<exists>cc' w'. cache_cleanup clk heap cc w = (Return cc', w') \<and>
    (\<forall>token. (\<forall>i. Before (Expiry (heap token)) (clk i)) \<longrightarrow> map_of (cc_clients cc') token = None) \<and>
    (\<forall>token. (\<forall>i. \<not> Before (Expiry (heap token)) (clk i)) \<longrightarrow> map_of (cc_clients cc') token = map_of (cc_clients cc) token)"
proof -
  obtain P w' where P: "cleanup_loop clk heap (cc_clients cc) (cc_clients cc) w = (Return (filter P (cc_clients cc)), w')"
      "\<And>t c. (t, c) \<in> set (cc_clients cc) \<Longrightarrow> \<forall>i. Before (Expiry (heap t)) (clk i) \<Longrightarrow> \<not> P (t, c)"
      "\<And>t c. \<forall>i. \<not> Before (Expiry (heap t)) (clk i) \<Longrightarrow> P (t, c)"
    using cleanup_loop_filter [of clk heap "cc_clients cc" "cc_clients cc" w] by blast
  have keep: "map_of (filter P m) t = map_of m t" if "\<And>c. P (t, c)" for t m
    using that by (induction m) auto
  have drop: "map_of (filter P m) t = None" if "\<And>c. (t, c) \<in> set m \<Longrightarrow> \<not> P (t, c)" for t m
    using that by (induction m) auto
  have "cache_cleanup clk heap cc w = (Return (cc\<lparr>cc_clients := filter P (cc_clients cc)\<rparr>), w')"
    using P(1) by (simp add: cache_cleanup_def bind_io_def ret_def)
  then show ?thesis using keep drop P(2,3) by (intro exI conjI) auto
qed

theorem cache_cleanup_expired_witness:
  "\<exists>cc' w'. cache_cleanup (\<lambda>_. 50) (\<lambda>_. empty_Token) (snd (cache_Get 1 cache_New)) world0 = (Return cc', w') \<and>
     map_of (cc_clients cc') 1 = None"
proof -
  have "\<forall>i :: nat. Before (Expiry empty_Token) 50"
    by (simp add: Before_def empty_Token_def zero_time_def nano_def unixToInternal_def)
  then show ?thesis
    using cache_cleanup_expired [of "\<lambda>_. 50" "\<lambda>_. empty_Token" "snd (cache_Get 1 cache_New)" world0] by blast
qed

end
