(* ===== verification/Ssh_Types.thy ===== *)
theory Ssh_Types
  imports Go_Strings
begin

text \<open>
  The wire types of \<^verbatim>\<open>lib/proto.go\<close>, \<^verbatim>\<open>lib/util.go\<close>, and the part of
  \<^verbatim>\<open>golang.org/x/crypto/ssh\<close> and \<^verbatim>\<open>github.com/stripe/krl\<close> the program calls. Those two
  packages are not part of the repository: their types of keys (\<open>'k\<close>) and of CA signers
  (\<open>'ca\<close>) are type variables and their functions the fields of a record that is an argument of
  every definition that uses them.
\<close>

section \<open>Wire types\<close>

record SignRequest =
  req_Key :: string
  req_ValidUntil :: time
  req_Message :: string
  req_Version :: string

record SignResponse =
  resp_Status :: string
  resp_Response :: string
  resp_Version :: string

section \<open>SSH certificates\<close>

record 'k Certificate =
  cert_Nonce :: string
  cert_Key :: 'k
  cert_Serial :: u64
  cert_CertType :: "32 word"
  cert_KeyId :: string
  cert_ValidPrincipals :: "string list"
  cert_ValidAfter :: u64
  cert_ValidBefore :: u64
  cert_CriticalOptions :: "string gomap"
  cert_Extensions :: "string gomap"
  cert_SignatureKey :: "'k option"
  cert_Signature :: "string option"

definition UserCert :: "32 word" where
  "UserCert = 1"

text \<open>A KRL with one certificate section, which names the CA and lists key ids.\<close>

record 'k KRL =
  krl_CA :: 'k
  krl_KeyIDs :: "string list"

record ('k, 'ca) ssh_api =
  ParseAuthorizedKey :: "string \<Rightarrow> error + 'k"
  MarshalAuthorizedKey :: "'k \<Rightarrow> string"
  SignCert :: "nat \<Rightarrow> 'ca \<Rightarrow> 'k Certificate \<Rightarrow> error + 'k Certificate"
  CertAsKey :: "'k Certificate \<Rightarrow> 'k"
  AsCertificate :: "'k \<Rightarrow> 'k Certificate option"
  CAPublicKey :: "'ca \<Rightarrow> 'k"
  ParsePrivateKey :: "string \<Rightarrow> error + 'ca"
  MarshalKRL :: "nat \<Rightarrow> 'k KRL \<Rightarrow> error + string"

section \<open>lib.GetPublicKey\<close>

text \<open>
  \<^verbatim>\<open>marshaled[:len(marshaled)-1]\<close>: the slice panics on an empty marshalled key.
\<close>

definition GetPublicKey :: "('k, 'ca) ssh_api \<Rightarrow> 'k \<Rightarrow> string outcome" where
  "GetPublicKey ssh pub =
     (let marshaled = MarshalAuthorizedKey ssh pub
      in if marshaled = [] then Panic else Return (take (length marshaled - 1) marshaled))"

text \<open>
  What the package documents of \<^verbatim>\<open>MarshalAuthorizedKey\<close> (one line that ends with a newline), of
  \<^verbatim>\<open>ParseAuthorizedKey\<close> (it reads such a line back, with or without the newline) and of
  \<^verbatim>\<open>SignCert\<close> (it sets the nonce, the signature key and the signature).
\<close>

definition newline :: char where
  "newline = CHR 0x0A"

definition marshal_ok :: "('k, 'ca) ssh_api \<Rightarrow> 'k \<Rightarrow> bool" where
  "marshal_ok ssh k \<longleftrightarrow>
     (\<exists>line. MarshalAuthorizedKey ssh k = line @ [newline] \<and> ParseAuthorizedKey ssh line = Inr k)"

text \<open>The type assertion \<^verbatim>\<open>k.(*ssh.Certificate)\<close> gives back a certificate seen as a key.\<close>

definition as_cert_ok :: "('k, 'ca) ssh_api \<Rightarrow> 'k Certificate \<Rightarrow> bool" where
  "as_cert_ok ssh c \<longleftrightarrow> AsCertificate ssh (CertAsKey ssh c) = Some c"

definition tbs :: "'k Certificate \<Rightarrow> 'k Certificate" where
  "tbs c = c\<lparr>cert_Nonce := '''', cert_SignatureKey := None, cert_Signature := None\<rparr>"

definition sign_cert_ok :: "('k, 'ca) ssh_api \<Rightarrow> bool" where
  "sign_cert_ok ssh \<longleftrightarrow>
     (\<forall>n ca c c'. SignCert ssh n ca c = Inr c' \<longrightarrow>
        tbs c' = tbs c \<and> cert_SignatureKey c' = Some (CAPublicKey ssh ca))"

lemma GetPublicKey_marshal:
  assumes "marshal_ok ssh k"
  obtains line where "MarshalAuthorizedKey ssh k = line @ [newline]"
    and "GetPublicKey ssh k = Return line" and "ParseAuthorizedKey ssh line = Inr k"
  using assms by (auto simp: marshal_ok_def GetPublicKey_def Let_def)

lemma tbs_fields:
  assumes "tbs c' = tbs c"
  shows "cert_Key c' = cert_Key c" and "cert_CertType c' = cert_CertType c"
    and "cert_KeyId c' = cert_KeyId c" and "cert_ValidPrincipals c' = cert_ValidPrincipals c"
    and "cert_ValidAfter c' = cert_ValidAfter c" and "cert_ValidBefore c' = cert_ValidBefore c"
    and "cert_CriticalOptions c' = cert_CriticalOptions c"
    and "cert_Extensions c' = cert_Extensions c" and "cert_Serial c' = cert_Serial c"
  using assms by (cases c; cases c'; simp add: tbs_def)+

section \<open>A concrete package for the witnesses\<close>

text \<open>
  A small instance of the parameters, in which the documented properties hold: a key is its
  authorized-keys line.
\<close>

definition wssh :: "(string, unit) ssh_api" where
  "wssh = \<lparr>ParseAuthorizedKey = (\<lambda>s. if s = ''bad'' then Inl (ENew ''ssh: no key found'') else Inr s),
           MarshalAuthorizedKey = (\<lambda>k. k @ [newline]),
           SignCert = (\<lambda>n ca c. Inr (c\<lparr>cert_Nonce := show_nat n, cert_SignatureKey := Some ''ca'',
                                            cert_Signature := Some ''sig''\<rparr>)),
           CertAsKey = (\<lambda>c. ''ssh-cert '' @ cert_KeyId c),
           AsCertificate = (\<lambda>k. None),
           CAPublicKey = (\<lambda>_. ''ca''),
           ParsePrivateKey = (\<lambda>s. if s = ''bad'' then Inl (ENew ''ssh: no key found'') else Inr ()),
           MarshalKRL = (\<lambda>n k. Inr (concat (krl_KeyIDs k)))\<rparr>"

lemma wssh_marshal_ok [simp]: "k \<noteq> ''bad'' \<Longrightarrow> marshal_ok wssh k"
  by (simp add: marshal_ok_def wssh_def)

lemma wssh_sign_cert_ok [simp]: "sign_cert_ok wssh"
  by (auto simp: sign_cert_ok_def wssh_def tbs_def)

lemma wssh_krl: "\<exists>rl. MarshalKRL wssh n krl = Inr rl"
  by (simp add: wssh_def)

end
