(* ===== verification/Store_Record.thy ===== *)
theory Store_Record
  imports Ssh_Types
begin

text \<open>
  \<^verbatim>\<open>server/store/store.go\<close>: the record kept of an issued certificate, how it is made from the
  certificate, the \<^verbatim>\<open>CertStorer\<close> interface as a record of operations, and the contract the two
  stores share as the locale \<open>cert_storer\<close>.
\<close>

section \<open>CertRecord\<close>

record CertRecord =
  rec_ID :: int
  rec_KeyID :: string
  rec_Principals :: "string list"
  rec_CreatedAt :: time
  rec_Expires :: time
  rec_Revoked :: bool
  rec_Raw :: string
  rec_Message :: string

definition parseTime :: "u64 \<Rightarrow> time" where
  "parseTime t = time_Unix (int64 t)"

text \<open>\<^verbatim>\<open>MakeRecord\<close>; it panics where \<^verbatim>\<open>lib.GetPublicKey\<close> does.\<close>

definition MakeRecord :: "('k, 'ca) ssh_api \<Rightarrow> 'k Certificate \<Rightarrow> CertRecord outcome" where
  "MakeRecord ssh cert =
     (case GetPublicKey ssh (CertAsKey ssh cert) of
        Panic \<Rightarrow> Panic
      | Return raw \<Rightarrow> Return
          \<lparr>rec_ID = 0,
           rec_KeyID = cert_KeyId cert,
           rec_Principals = cert_ValidPrincipals cert,
           rec_CreatedAt = parseTime (cert_ValidAfter cert),
           rec_Expires = parseTime (cert_ValidBefore cert),
           rec_Revoked = False,
           rec_Raw = raw,
           rec_Message = ''''\<rparr>)"

lemma Unix_parseTime [simp]: "uint64 (Unix (parseTime t)) = t"
proof -
  have "- (2 ^ 63) \<le> sint t" and "sint t < 2 ^ 63"
    using sint_greater_eq [of t] sint_less [of t] by simp_all
  then have "fits64 (int64 t)" by (simp add: fits64_def int64_def)
  then show ?thesis by (simp add: parseTime_def uint64_def int64_def)
qed

lemma MakeRecord_fields:
  assumes "MakeRecord ssh cert = Return r"
  shows "rec_KeyID r = cert_KeyId cert" and "rec_Principals r = cert_ValidPrincipals cert"
    and "rec_CreatedAt r = parseTime (cert_ValidAfter cert)"
    and "rec_Expires r = parseTime (cert_ValidBefore cert)"
    and "\<not> rec_Revoked r" and "rec_ID r = 0" and "rec_Message r = ''''"
    and "GetPublicKey ssh (CertAsKey ssh cert) = Return (rec_Raw r)"
  using assms by (auto simp: MakeRecord_def split: outcome.splits)

section \<open>The CertStorer interface\<close>

text \<open>
  An operation of a store takes the store and the world and gives a result (or a panic), the
  store afterwards, also after a panic, and the world.
\<close>

type_synonym ('s, 'a) store_op = "'s \<Rightarrow> world \<Rightarrow> 'a outcome \<times> 's \<times> world"

record 's CertStorer =
  store_Get :: "string \<Rightarrow> ('s, error + CertRecord) store_op"
  store_SetRecord :: "CertRecord \<Rightarrow> ('s, error option) store_op"
  store_List :: "bool \<Rightarrow> ('s, error + CertRecord list) store_op"
  store_Revoke :: "string list \<Rightarrow> ('s, error option) store_op"
  store_GetRevoked :: "('s, error + CertRecord list) store_op"
  store_Close :: "('s, error option) store_op"

text \<open>A record without the row number a database gives it.\<close>

definition norm_rec :: "CertRecord \<Rightarrow> CertRecord" where
  "norm_rec r = r\<lparr>rec_ID := 0\<rparr>"

lemma norm_rec_fields [simp]:
  "rec_KeyID (norm_rec r) = rec_KeyID r" "rec_Expires (norm_rec r) = rec_Expires r"
  "rec_Revoked (norm_rec r) = rec_Revoked r" "rec_Principals (norm_rec r) = rec_Principals r"
  "norm_rec (r\<lparr>rec_Revoked := b\<rparr>) = (norm_rec r)\<lparr>rec_Revoked := b\<rparr>"
  "rec_ID r = 0 \<Longrightarrow> norm_rec r = r" "norm_rec (norm_rec r) = norm_rec r"
  by (simp_all add: norm_rec_def)

section \<open>The abstract ledger\<close>

text \<open>
  What a store promises: a finite map from key ids to records. \<open>led_revoke\<close> marks records,
  \<open>led_add\<close> adds one.
\<close>

type_synonym ledger = "string \<rightharpoonup> CertRecord"

definition led_add :: "ledger \<Rightarrow> CertRecord \<Rightarrow> ledger" where
  "led_add L r = L(rec_KeyID r \<mapsto> norm_rec r)"

definition led_revoke :: "ledger \<Rightarrow> string list \<Rightarrow> ledger" where
  "led_revoke L ids =
     (\<lambda>k. if k \<in> set ids then map_option (\<lambda>r. r\<lparr>rec_Revoked := True\<rparr>) (L k) else L k)"

lemma led_revoke_Nil [simp]: "led_revoke L [] = L"
  by (simp add: led_revoke_def)

lemma led_revoke_Cons: "led_revoke (led_revoke L [i]) ids = led_revoke L (i # ids)"
  by (rule ext) (auto simp: led_revoke_def option.map_comp comp_def)

lemma dom_led_revoke [simp]: "dom (led_revoke L ids) = dom L"
  by (auto simp: led_revoke_def dom_def split: if_splits)

lemma led_revoke_eq_Some:
  "led_revoke L ids k = Some r \<longleftrightarrow>
     (if k \<in> set ids then \<exists>r'. L k = Some r' \<and> r = r'\<lparr>rec_Revoked := True\<rparr> else L k = Some r)"
  by (auto simp: led_revoke_def)

section \<open>The contract of a store\<close>

text \<open>
  \<open>ledger_of\<close> reads a store as a ledger, \<open>usable\<close> is the store's own invariant and \<open>up\<close> says
  that what is outside the program (a database server) keeps answering from this world on.
  The clock is \<open>clk\<close>: \<open>listed_at\<close> says which records a listing holds, where each record was
  compared with some clock reading taken between the two worlds; \<open>all_readings\<close> speaks of all of those readings.
\<close>

definition all_readings :: "(nat \<Rightarrow> time) \<Rightarrow> world \<Rightarrow> world \<Rightarrow> (time \<Rightarrow> bool) \<Rightarrow> bool" where
  "all_readings clk w w' Q \<longleftrightarrow> (\<forall>i. ticks w \<le> i \<and> i < ticks w' \<longrightarrow> Q (clk i))"

definition listed_at ::
  "(nat \<Rightarrow> time) \<Rightarrow> world \<Rightarrow> world \<Rightarrow> ledger \<Rightarrow> (CertRecord \<Rightarrow> bool) \<Rightarrow> CertRecord list \<Rightarrow> bool" where
  "listed_at clk w w' L P rs \<longleftrightarrow>
     norm_rec ` set rs \<subseteq> ran L \<and>
     (\<forall>r \<in> ran L. \<exists>i. ticks w \<le> i \<and> i < ticks w' \<and>
        (r \<in> norm_rec ` set rs \<longleftrightarrow> P r \<and> \<not> Before (rec_Expires r) (clk i)))"

locale cert_storer =
  fixes st :: "'s CertStorer"
    and clk :: "nat \<Rightarrow> time"
    and ledger_of :: "'s \<Rightarrow> ledger"
    and usable :: "'s \<Rightarrow> bool"
    and up :: "world \<Rightarrow> bool"
  assumes get_law: "usable s \<Longrightarrow> up w \<Longrightarrow>
      \<exists>w' res. store_Get st k s w = (Return res, s, w') \<and> up w' \<and>
        (case ledger_of s k of Some r \<Rightarrow> \<exists>r'. res = Inr r' \<and> norm_rec r' = r
                             | None \<Rightarrow> \<exists>e. res = Inl e)"
    and set_law: "usable s \<Longrightarrow> up w \<Longrightarrow> rec_KeyID r \<notin> dom (ledger_of s) \<Longrightarrow> \<not> rec_Revoked r \<Longrightarrow>
      \<exists>s' w'. store_SetRecord st r s w = (Return None, s', w') \<and> up w' \<and> usable s' \<and>
        ledger_of s' = led_add (ledger_of s) r"
    and revoke_law: "usable s \<Longrightarrow> up w \<Longrightarrow> ids \<noteq> [] \<Longrightarrow> set ids \<subseteq> dom (ledger_of s) \<Longrightarrow>
      \<exists>s' w'. store_Revoke st ids s w = (Return None, s', w') \<and> up w' \<and> usable s' \<and>
        ledger_of s' = led_revoke (ledger_of s) ids"
    and list_all_law: "usable s \<Longrightarrow> up w \<Longrightarrow>
      \<exists>w' rs. store_List st True s w = (Return (Inr rs), s, w') \<and> up w' \<and>
        norm_rec ` set rs = ran (ledger_of s) \<and> distinct (map rec_KeyID rs)"
    and list_law: "usable s \<Longrightarrow> up w \<Longrightarrow>
      \<exists>w' rs. store_List st False s w = (Return (Inr rs), s, w') \<and> up w' \<and>
        listed_at clk w w' (ledger_of s) (\<lambda>_. True) rs \<and> distinct (map rec_KeyID rs)"
    and revoked_law: "usable s \<Longrightarrow> up w \<Longrightarrow>
      \<exists>w' rs. store_GetRevoked st s w = (Return (Inr rs), s, w') \<and> up w' \<and>
        listed_at clk w w' (ledger_of s) rec_Revoked rs \<and> distinct (map rec_KeyID rs)"
    and keys_law: "usable s \<Longrightarrow> ledger_of s k = Some r \<Longrightarrow> rec_KeyID r = k"
begin

lemma listed_keys:
  assumes "usable s" and "listed_at clk w w' (ledger_of s) P rs"
    and "ledger_of s k = Some r" and "P r" and "all_readings clk w w' (\<lambda>t. \<not> Before (rec_Expires r) t)"
  shows "k \<in> rec_KeyID ` set rs"
proof -
  from assms(3) have "r \<in> ran (ledger_of s)" by (auto simp: ran_def)
  with assms(2,4,5) have "r \<in> norm_rec ` set rs" unfolding listed_at_def all_readings_def by blast
  then obtain r' where "r' \<in> set rs" and "r = norm_rec r'" by auto
  moreover have "rec_KeyID r = k" using assms(1,3) by (rule keys_law)
  ultimately show ?thesis by auto
qed

lemma listed_keysD:
  assumes "usable s" and "listed_at clk w w' (ledger_of s) P rs" and "k \<in> rec_KeyID ` set rs"
  obtains r where "ledger_of s k = Some r" and "P r"
    and "\<not> all_readings clk w w' (Before (rec_Expires r))"
proof -
  from assms(3) obtain r' where r': "r' \<in> set rs" and k: "rec_KeyID r' = k" by auto
  with assms(2) have n: "norm_rec r' \<in> ran (ledger_of s)" by (auto simp: listed_at_def)
  then obtain k' where k': "ledger_of s k' = Some (norm_rec r')" by (auto simp: ran_def)
  with assms(1) have "k' = k" using keys_law [of s k' "norm_rec r'"] k by simp
  moreover from assms(2) n r' obtain i where "P (norm_rec r')" and "ticks w \<le> i" and "i < ticks w'"
    and "\<not> Before (rec_Expires (norm_rec r')) (clk i)"
    unfolding listed_at_def by (metis imageI)
  ultimately show thesis using k' that unfolding all_readings_def by blast
qed

text \<open>
  Adding a record for a fresh key, revoking it and asking for the revoked records gives a
  listing that holds the key as long as the record has not expired at any reading that is taken for the listing.
\<close>

lemma add_revoke_listed:
  assumes "usable s" and "up w" and "rec_KeyID r \<notin> dom (ledger_of s)" and "\<not> rec_Revoked r"
  shows "\<exists>s1 w1 s2 w2 w3 rs.
      store_SetRecord st r s w = (Return None, s1, w1) \<and>
      store_Revoke st [rec_KeyID r] s1 w1 = (Return None, s2, w2) \<and>
      store_GetRevoked st s2 w2 = (Return (Inr rs), s2, w3) \<and>
      (all_readings clk w2 w3 (\<lambda>t. \<not> Before (rec_Expires r) t) \<longrightarrow> rec_KeyID r \<in> rec_KeyID ` set rs)"
proof -
  obtain s1 w1 where 1: "store_SetRecord st r s w = (Return None, s1, w1)" "up w1" "usable s1"
      "ledger_of s1 = led_add (ledger_of s) r"
    using set_law [OF assms(1-4)] by blast
  then have "set [rec_KeyID r] \<subseteq> dom (ledger_of s1)" by (simp add: led_add_def)
  then obtain s2 w2 where 2: "store_Revoke st [rec_KeyID r] s1 w1 = (Return None, s2, w2)" "up w2"
      "usable s2" "ledger_of s2 = led_revoke (ledger_of s1) [rec_KeyID r]"
    using revoke_law [OF 1(3,2)] by blast
  obtain w3 rs where 3: "store_GetRevoked st s2 w2 = (Return (Inr rs), s2, w3)"
      "listed_at clk w2 w3 (ledger_of s2) rec_Revoked rs"
    using revoked_law [OF 2(3,2)] by blast
  let ?r = "(norm_rec r)\<lparr>rec_Revoked := True\<rparr>"
  have "ledger_of s2 (rec_KeyID r) = Some ?r"
    by (simp add: 1(4) 2(4) led_add_def led_revoke_def)
  from listed_keys [OF 2(3) 3(2) this]
  have "all_readings clk w2 w3 (\<lambda>t. \<not> Before (rec_Expires r) t) \<longrightarrow> rec_KeyID r \<in> rec_KeyID ` set rs" by simp
  with 1(1) 2(1) 3(1) show ?thesis by blast
qed

end

end
