(* ===== verification/Http.thy ===== *)
theory Http
  imports Store_Record Auth_Types
begin

text \<open>
  The part of \<^verbatim>\<open>net/http\<close> the handlers use: requests, and a response writer whose first status code is the one
  that is sent and whose headers are fixed from then on. A handler acts on the store, on the session of the
  request and on the response; it is a function of the same shape as the operations of a store.
\<close>

section \<open>Requests and responses\<close>

text \<open>
  \<open>r_Session\<close> is what the session cookie decodes to, empty if there is none or it is not genuine. \<open>r_Form\<close> holds the
  parsed form and \<open>r_Query\<close> the parsed query. \<open>r_Path\<close> is the escaped path and \<open>r_URI\<close> the path with its query.
\<close>

record request =
  r_Method :: string
  r_Path :: string
  r_URI :: string
  r_Authorization :: string
  r_Form :: "(string \<times> string list) list"
  r_Query :: "(string \<times> string list) list"
  r_Body :: string
  r_Session :: "string gomap"

definition values_Get :: "(string \<times> string list) list \<Rightarrow> string \<Rightarrow> string" where
  "values_Get vs k = (case map_of vs k of Some (v # _) \<Rightarrow> v | _ \<Rightarrow> '''')"

definition FormValue :: "request \<Rightarrow> string \<Rightarrow> string" where
  "FormValue r k = values_Get (r_Form r) k"

definition form_all :: "request \<Rightarrow> string \<Rightarrow> string list" where
  "form_all r k = (case map_of (r_Form r) k of Some vs \<Rightarrow> vs | None \<Rightarrow> [])"

text \<open>The pieces a handler writes: texts, JSON documents, pages (by the data given to the template), bytes.\<close>

datatype body =
    BText string
  | BSignResponse SignResponse
  | BTokenPage string string
  | BCertsPage
  | BCertsJSON "CertRecord list"
  | BBytes string
  | BRedirect string
  | BOther string

record response =
  w_status :: "int option"
  w_header :: "string gomap"
  w_body :: "body list"
  w_cookie :: "string gomap option"

definition new_response :: response where
  "new_response = \<lparr>w_status = None, w_header = [], w_body = [], w_cookie = None\<rparr>"

record 's hstate =
  hs_store :: 's
  hs_session :: "string gomap"
  hs_resp :: response

type_synonym ('s, 'a) act = "('s hstate, 'a) store_op"

section \<open>Actions\<close>

text \<open>The first four are of use for any kind of state.\<close>

definition act_ret :: "'a \<Rightarrow> ('h, 'a) store_op" where
  "act_ret x h w = (Return x, h, w)"

definition act_bind :: "('h, 'a) store_op \<Rightarrow> ('a \<Rightarrow> ('h, 'b) store_op) \<Rightarrow> ('h, 'b) store_op" where
  "act_bind m f h w =
     (case m h w of (Return x, h', w') \<Rightarrow> f x h' w' | (Panic, h', w') \<Rightarrow> (Panic, h', w'))"

definition lift_io :: "'a io \<Rightarrow> ('h, 'a) store_op" where
  "lift_io m h w = (case m w of (r, w') \<Rightarrow> (r, h, w'))"

definition lift_outcome :: "'a outcome \<Rightarrow> ('h, 'a) store_op" where
  "lift_outcome r h w = (r, h, w)"

definition on_store :: "('s, 'a) store_op \<Rightarrow> ('s, 'a) act" where
  "on_store op h w = (case op (hs_store h) w of (r, s', w') \<Rightarrow> (r, h\<lparr>hs_store := s'\<rparr>, w'))"

definition on_resp :: "(response \<Rightarrow> response) \<Rightarrow> ('s, unit) act" where
  "on_resp f h w = (Return (), h\<lparr>hs_resp := f (hs_resp h)\<rparr>, w)"

definition write_header :: "int \<Rightarrow> response \<Rightarrow> response" where
  "write_header code rw = (if w_status rw = None then rw\<lparr>w_status := Some code\<rparr> else rw)"

definition WriteHeader :: "int \<Rightarrow> ('s, unit) act" where
  "WriteHeader code = on_resp (write_header code)"

definition Write :: "body \<Rightarrow> ('s, unit) act" where
  "Write b = on_resp (\<lambda>rw. (write_header 200 rw)\<lparr>w_body := w_body rw @ [b]\<rparr>)"

definition Header_Set :: "string \<Rightarrow> string \<Rightarrow> ('s, unit) act" where
  "Header_Set k v = on_resp (\<lambda>rw. if w_status rw = None then rw\<lparr>w_header := AList.update k v (w_header rw)\<rparr> else rw)"

definition Header_Add :: "string \<Rightarrow> string \<Rightarrow> ('s, unit) act" where
  "Header_Add k v = on_resp (\<lambda>rw. if w_status rw = None then rw\<lparr>w_header := w_header rw @ [(k, v)]\<rparr> else rw)"

text \<open>
  \<^verbatim>\<open>json.NewEncoder(w).Encode(v)\<close>: \<open>net_Write\<close> answers whether the connection takes the text. The status is fixed
  either way.
\<close>

definition Encode :: "(nat \<Rightarrow> error option) \<Rightarrow> body \<Rightarrow> ('s, error option) act" where
  "Encode net_Write b =
     act_bind (lift_io (remote net_Write)) (\<lambda>err.
       case err of
         Some e \<Rightarrow> act_bind (WriteHeader 200) (\<lambda>_. act_ret (Some e))
       | None \<Rightarrow> act_bind (Write b) (\<lambda>_. act_ret None))"

text \<open>
  \<^verbatim>\<open>http.Redirect\<close>. The addresses given to it here are absolute or clean paths, which it puts into the header as they
  are; a GET request also gets a short page with a link.
\<close>

definition http_Redirect :: "request \<Rightarrow> string \<Rightarrow> int \<Rightarrow> ('s, unit) act" where
  "http_Redirect r url code =
     act_bind (Header_Set ''Location'' url) (\<lambda>_.
     act_bind (WriteHeader code) (\<lambda>_.
       if r_Method r = ''GET'' then Write (BRedirect url) else act_ret ()))"

definition StatusText :: "int \<Rightarrow> string" where
  "StatusText code =
     (if code = 200 then ''OK'' else if code = 302 then ''Found'' else if code = 303 then ''See Other''
      else if code = 400 then ''Bad Request'' else if code = 401 then ''Unauthorized''
      else if code = 403 then ''Forbidden'' else if code = 500 then ''Internal Server Error'' else '''')"

section \<open>Error texts\<close>

fun error_text :: "error \<Rightarrow> string" where
  "error_text (ENew s) = s"
| "error_text (EWrap p e) = p @ error_text e"
| "error_text (EText p e) = p @ error_text e"
| "error_text (EWrap2 a b) = error_text a @ '': '' @ error_text b"
| "error_text ErrNeedsReason = ''reason required''"
| "error_text (EMulti es) =
     (if length es = 1 then ''1 error occurred:'' else show_nat (length es) @ '' errors occurred:'') @
     [CHR 0x0A] @ concat (map (\<lambda>e. [CHR 0x09] @ ''* '' @ error_text e @ [CHR 0x0A]) es) @ [CHR 0x0A]"

section \<open>Reasoning about actions\<close>

lemmas act_defs = act_ret_def act_bind_def lift_io_def lift_outcome_def on_store_def on_resp_def
  WriteHeader_def Write_def Header_Set_def Header_Add_def Encode_def http_Redirect_def write_header_def

declare act_defs [handler_simps]

text \<open>
  A relation that holds between the state in front of and behind an action, whether it returns or panics: the
  steps that never touch the store keep \<open>store_kept\<close>.
\<close>

definition store_kept :: "('s, 'a) act \<Rightarrow> bool" where
  "store_kept m \<longleftrightarrow> (\<forall>h w. hs_store (fst (snd (m h w))) = hs_store h)"

lemma store_kept_bind [intro!]:
  assumes "store_kept m" and "\<And>x. store_kept (f x)"
  shows "store_kept (act_bind m f)"
  unfolding store_kept_def
proof (intro allI)
  fix h w
  obtain r h1 w1 where m: "m h w = (r, h1, w1)" by (cases "m h w")
  with assms(1) have k: "hs_store h1 = hs_store h" unfolding store_kept_def by (metis fst_conv snd_conv)
  show "hs_store (fst (snd (act_bind m f h w))) = hs_store h"
    using assms(2) m k by (cases r) (simp_all add: act_bind_def store_kept_def)
qed

lemma store_kept_prims [simp]:
  "store_kept (act_ret x)" "store_kept (lift_io m)" "store_kept (lift_outcome r)" "store_kept (on_resp f)"
  by (simp_all add: store_kept_def act_ret_def lift_io_def lift_outcome_def on_resp_def split: prod.split)

lemma store_kept_writes [simp]:
  "store_kept (WriteHeader c)" "store_kept (Write b)" "store_kept (Header_Set k v)" "store_kept (Header_Add k v)"
  by (simp_all add: WriteHeader_def Write_def Header_Set_def Header_Add_def)

lemma store_kept_Encode [simp]: "store_kept (Encode nw b)"
  by (auto simp: Encode_def split: option.split)

lemma store_kept_Redirect [simp]: "store_kept (http_Redirect r url code)"
  by (auto simp: http_Redirect_def)

lemma store_keptD: "store_kept m \<Longrightarrow> m h w = (r, h', w') \<Longrightarrow> hs_store h' = hs_store h"
  unfolding store_kept_def by (metis fst_conv snd_conv)

text \<open>Any property of the state that an action keeps, whether it returns or panics.\<close>

definition keeps :: "('s hstate \<Rightarrow> bool) \<Rightarrow> ('s, 'a) act \<Rightarrow> bool" where
  "keeps I m \<longleftrightarrow> (\<forall>h w. I h \<longrightarrow> I (fst (snd (m h w))))"

lemma keeps_bind [intro!]:
  assumes "keeps I m" and "\<And>x. keeps I (f x)"
  shows "keeps I (act_bind m f)"
  unfolding keeps_def
proof (intro allI impI)
  fix h w assume h: "I h"
  obtain r h1 w1 where m: "m h w = (r, h1, w1)" by (cases "m h w")
  with assms(1) h have "I h1" unfolding keeps_def by (metis fst_conv snd_conv)
  with assms(2) m show "I (fst (snd (act_bind m f h w)))" by (cases r) (simp_all add: act_bind_def keeps_def)
qed

lemma keeps_prims [simp]: "keeps I (act_ret x)" "keeps I (lift_io m)" "keeps I (lift_outcome r)"
  by (simp_all add: keeps_def act_ret_def lift_io_def lift_outcome_def split: prod.split)

lemma keeps_io:
  assumes "\<And>x w w'. m w = (Return x, w') \<Longrightarrow> keeps I (f x)"
  shows "keeps I (act_bind (lift_io m) f)"
  unfolding keeps_def
proof (intro allI impI)
  fix h w assume "I h"
  with assms [of w] show "I (fst (snd (act_bind (lift_io m) f h w)))"
    by (cases "m w"; cases "fst (m w)") (auto simp: act_bind_def lift_io_def keeps_def)
qed

lemma act_bind_ret [simp]: "act_bind (act_ret x) f = f x"
  by (intro ext) (simp add: act_bind_def act_ret_def)

lemma act_bind_eq:
  assumes "m h w = (Return x, h', w')"
  shows "act_bind m f h w = f x h' w'"
  using assms by (simp add: act_bind_def)

lemma act_bind_Panic:
  assumes "m h w = (Panic, h', w')"
  shows "act_bind m f h w = (Panic, h', w')"
  using assms by (simp add: act_bind_def)

lemma act_bind_ReturnE:
  assumes "act_bind m f h w = (Return y, h'', w'')"
  obtains x h' w' where "m h w = (Return x, h', w')" and "f x h' w' = (Return y, h'', w'')"
  using assms by (auto simp: act_bind_def split: prod.splits outcome.splits)

lemma lift_io_Return [simp]:
  "lift_io m h w = (Return x, h', w') \<longleftrightarrow> h' = h \<and> m w = (Return x, w')"
  by (auto simp: lift_io_def split: prod.splits)

lemma write_header_frame [simp]:
  "w_body (write_header c rw) = w_body rw" "w_header (write_header c rw) = w_header rw"
  "w_cookie (write_header c rw) = w_cookie rw"
  by (simp_all add: write_header_def)

lemma write_header_first [simp]: "w_status rw = None \<Longrightarrow> w_status (write_header c rw) = Some c"
  by (simp add: write_header_def)

end
