(* ===== verification/Signer.thy ===== *)
theory Signer
  imports Store_Record Config
begin

text \<open>
  \<^verbatim>\<open>server/signer/signer.go\<close>: the signer that turns a user's public key into a certificate and a list
  of records into a key revocation list.
\<close>

section \<open>KeySigner\<close>

definition defaultPermissions :: "string gomap" where
  "defaultPermissions =
     [(''permit-X11-forwarding'', ''''),
      (''permit-agent-forwarding'', ''''),
      (''permit-port-forwarding'', ''''),
      (''permit-pty'', ''''),
      (''permit-user-rc'', '''')]"

record 'ca KeySigner =
  ks_ca :: 'ca
  ks_validity :: duration
  ks_principals :: "string list"
  ks_permissions :: "string list"

text \<open>
  One turn of the loop of \<^verbatim>\<open>setPermissions\<close> on the two maps. \<^verbatim>\<open>strings.Split\<close> of a text that holds the
  separator has at least two parts, so reading parts 0 and 1 does not panic.
\<close>

definition set_permission :: "string \<Rightarrow> string gomap \<times> string gomap \<Rightarrow> string gomap \<times> string gomap" where
  "set_permission perm = (\<lambda>(critical, extensions).
     if Contains perm ''='' then
       (let opt = Split perm (CHR ''='')
        in (AList.update (TrimSpace (opt ! 0)) (TrimSpace (opt ! 1)) critical, extensions))
     else (critical, AList.update perm '''' extensions))"

definition setPermissions :: "'ca KeySigner \<Rightarrow> 'k Certificate \<Rightarrow> 'k Certificate" where
  "setPermissions s cert =
     (let (critical, extensions) = fold set_permission (ks_permissions s) ([], []);
          extensions = (if extensions = [] then defaultPermissions else extensions)
      in cert\<lparr>cert_CriticalOptions := critical, cert_Extensions := extensions\<rparr>)"

text \<open>The certificate before its permissions are set and it is signed.\<close>

definition keyId :: "string \<Rightarrow> time \<Rightarrow> string" where
  "keyId username now = username @ ''_'' @ show_int (Unix now)"

definition base_cert :: "'ca KeySigner \<Rightarrow> 'k \<Rightarrow> string \<Rightarrow> time \<Rightarrow> time \<Rightarrow> time \<Rightarrow> 'k Certificate" where
  "base_cert s pubkey username now1 now2 validUntil =
     \<lparr>cert_Nonce = '''', cert_Key = pubkey, cert_Serial = 0, cert_CertType = UserCert,
      cert_KeyId = keyId username now1,
      cert_ValidPrincipals = [username] @ ks_principals s,
      cert_ValidAfter = uint64 (Unix (Add now2 (- 5 * Minute))),
      cert_ValidBefore = uint64 (Unix validUntil),
      cert_CriticalOptions = [], cert_Extensions = [],
      cert_SignatureKey = None, cert_Signature = None\<rparr>"

text \<open>
  \<^verbatim>\<open>SignUserKey\<close> reads the clock three times: for the expiry, for the key id and for the start of the
  validity. It writes the expiry it chose back into the request, which is therefore part of the
  result.
\<close>

definition SignUserKey ::
  "('k, 'ca) ssh_api \<Rightarrow> (nat \<Rightarrow> time) \<Rightarrow> 'ca KeySigner \<Rightarrow> SignRequest \<Rightarrow> string
     \<Rightarrow> ((error + 'k Certificate) \<times> SignRequest) io" where
  "SignUserKey ssh clk s req username =
     (case ParseAuthorizedKey ssh (req_Key req) of
        Inl err \<Rightarrow> ret (Inl err, req)
      | Inr pubkey \<Rightarrow>
          bind_io (Now clk) (\<lambda>now0.
          let expires = Add now0 (ks_validity s);
              req = (if After (req_ValidUntil req) expires then req\<lparr>req_ValidUntil := expires\<rparr> else req)
          in bind_io (Now clk) (\<lambda>now1.
             bind_io (Now clk) (\<lambda>now2.
             let cert = setPermissions s (base_cert s pubkey username now1 now2 (req_ValidUntil req))
             in bind_io (draw (\<lambda>n. SignCert ssh n (ks_ca s) cert)) (\<lambda>signed.
                ret (signed, req))))))"

section \<open>Revocation lists\<close>

text \<open>The loop that appends the key ids in order.\<close>

fun krl_ids :: "string list \<Rightarrow> CertRecord list \<Rightarrow> string list" where
  "krl_ids ids [] = ids"
| "krl_ids ids (c # cs) = krl_ids (ids @ [rec_KeyID c]) cs"

definition GenerateRevocationList ::
  "('k, 'ca) ssh_api \<Rightarrow> 'ca KeySigner \<Rightarrow> CertRecord list \<Rightarrow> (error + string) io" where
  "GenerateRevocationList ssh s certs =
     (let k = \<lparr>krl_CA = CAPublicKey ssh (ks_ca s), krl_KeyIDs = krl_ids [] certs\<rparr>
      in draw (\<lambda>n. MarshalKRL ssh n k))"

section \<open>signer.New\<close>

text \<open>
  \<^verbatim>\<open>wkfs.ReadFile\<close> is a request to a file system; \<^verbatim>\<open>time.ParseDuration\<close> is a parameter here, as the
  checks of \<^verbatim>\<open>New\<close> do not depend on what it accepts.
\<close>

definition signer_New ::
  "('k, 'ca) ssh_api \<Rightarrow> (nat \<Rightarrow> string \<Rightarrow> error + string) \<Rightarrow> (string \<Rightarrow> error + duration) \<Rightarrow> SSH
     \<Rightarrow> (error + 'ca KeySigner) io" where
  "signer_New ssh readFile parseDuration conf =
     bind_io (remote (\<lambda>n. readFile n (SigningKey conf))) (\<lambda>r.
       case r of
         Inl e \<Rightarrow> ret (Inl (EWrap (''unable to read CA key '' @ SigningKey conf @ '': '') e))
       | Inr data \<Rightarrow>
           (case ParsePrivateKey ssh data of
              Inl e \<Rightarrow> ret (Inl (EWrap ''unable to parse CA key: '' e))
            | Inr key \<Rightarrow>
                (case parseDuration (MaxAge conf) of
                   Inl e \<Rightarrow> ret (Inl (EWrap (''error parsing duration '' @ MaxAge conf @ '': '') e))
                 | Inr validity \<Rightarrow> ret (Inr
                     \<lparr>ks_ca = key, ks_validity = validity,
                      ks_principals = AdditionalPrincipals conf,
                      ks_permissions = Permissions conf\<rparr>))))"

section \<open>Permissions\<close>

text \<open>
  The reference reading of the permission list: every entry with an equals sign is an option, its
  name the text before the first sign and its value the text up to the second; every other entry
  is an extension.
\<close>

definition option_of :: "string \<Rightarrow> string \<times> string" where
  "option_of perm = (TrimSpace (Split perm (CHR ''='') ! 0), TrimSpace (Split perm (CHR ''='') ! 1))"

definition is_option :: "string \<Rightarrow> bool" where
  "is_option perm \<longleftrightarrow> CHR ''='' \<in> set perm"

lemma set_permission_eq:
  "set_permission p (m, e) =
     (if is_option p then (AList.update (fst (option_of p)) (snd (option_of p)) m, e)
      else (m, AList.update p '''' e))"
  by (simp add: set_permission_def option_of_def is_option_def Let_def)

lemma fold_set_permission:
  "map_of (fst (fold set_permission ps (m, e))) k
     = (case map_of (rev (map option_of (filter is_option ps))) k of Some v \<Rightarrow> Some v | None \<Rightarrow> map_of m k)"
  "map_of (snd (fold set_permission ps (m, e))) x
     = (if x \<in> set (filter (Not \<circ> is_option) ps) then Some '''' else map_of e x)"
proof (induction ps arbitrary: m e)
  case Nil
  { case 1 show ?case by simp }
  { case 2 show ?case by simp }
next
  case (Cons p ps)
  { case 1
    show ?case using Cons.IH(1)
      by (simp add: set_permission_eq update_conv' map_of_append map_add_def split: option.split) }
  { case 2
    show ?case using Cons.IH(2)
      by (auto simp: set_permission_eq update_conv') }
qed

lemma setPermissions_unfold:
  "cert_CriticalOptions (setPermissions s c) = fst (fold set_permission (ks_permissions s) ([], []))"
  "cert_Extensions (setPermissions s c) =
     (if snd (fold set_permission (ks_permissions s) ([], [])) = [] then defaultPermissions
      else snd (fold set_permission (ks_permissions s) ([], [])))"
  by (simp_all add: setPermissions_def Let_def split: prod.split)

lemma setPermissions_frame [simp]:
  "cert_Key (setPermissions s c) = cert_Key c"
  "cert_KeyId (setPermissions s c) = cert_KeyId c"
  "cert_CertType (setPermissions s c) = cert_CertType c"
  "cert_ValidPrincipals (setPermissions s c) = cert_ValidPrincipals c"
  "cert_ValidAfter (setPermissions s c) = cert_ValidAfter c"
  "cert_ValidBefore (setPermissions s c) = cert_ValidBefore c"
  by (simp_all add: setPermissions_def Let_def split: prod.split)

lemma extensions_empty_iff:
  "snd (fold set_permission ps ([], [])) = [] \<longleftrightarrow> (\<forall>p \<in> set ps. is_option p)"
proof -
  let ?e = "snd (fold set_permission ps ([], []))"
  have "?e = [] \<longleftrightarrow> (\<forall>x. map_of ?e x = None)"
    by (rule map_of_all_None [symmetric])
  also have "\<dots> \<longleftrightarrow> (\<forall>p \<in> set ps. is_option p)"
    using fold_set_permission(2) [of ps "[]" "[]"] by (auto split: if_splits)
  finally show ?thesis .
qed

section \<open>The signed certificate\<close>

lemma SignUserKey_eq:
  "SignUserKey ssh clk s req username w =
     (case ParseAuthorizedKey ssh (req_Key req) of
        Inl e \<Rightarrow> (Return (Inl e, req), w)
      | Inr pubkey \<Rightarrow>
          (let t = ticks w; expires = clk t + ks_validity s;
               req' = (if expires < req_ValidUntil req then req\<lparr>req_ValidUntil := expires\<rparr> else req);
               cert = setPermissions s (base_cert s pubkey username (clk (t + 1)) (clk (t + 2)) (req_ValidUntil req'))
           in (Return (SignCert ssh (rands w) (ks_ca s) cert, req'),
               w\<lparr>ticks := t + 3, rands := Suc (rands w)\<rparr>)))"
  by (simp add: SignUserKey_def io_defs Let_def time_defs numeral_3_eq_3 split: sum.split)

text \<open>What a successful call says about the certificate.\<close>

lemma SignUserKey_cert:
  assumes "SignUserKey ssh clk s req username w = (Return (Inr cert, req'), w')" and "sign_cert_ok ssh"
  obtains pubkey where "ParseAuthorizedKey ssh (req_Key req) = Inr pubkey"
    and "tbs cert = tbs (setPermissions s (base_cert s pubkey username (clk (ticks w + 1)) (clk (ticks w + 2))
           (min (req_ValidUntil req) (clk (ticks w) + ks_validity s))))"
    and "cert_SignatureKey cert = Some (CAPublicKey ssh (ks_ca s))"
    and "req_ValidUntil req' = min (req_ValidUntil req) (clk (ticks w) + ks_validity s)"
proof -
  from assms(1) obtain pubkey where p: "ParseAuthorizedKey ssh (req_Key req) = Inr pubkey"
    by (cases "ParseAuthorizedKey ssh (req_Key req)") (auto simp: SignUserKey_eq)
  let ?v = "min (req_ValidUntil req) (clk (ticks w) + ks_validity s)"
  have v: "req_ValidUntil (if clk (ticks w) + ks_validity s < req_ValidUntil req
      then req\<lparr>req_ValidUntil := clk (ticks w) + ks_validity s\<rparr> else req) = ?v"
    by (simp add: min_def)
  from assms(1) p have "SignCert ssh (rands w) (ks_ca s)
      (setPermissions s (base_cert s pubkey username (clk (ticks w + 1)) (clk (ticks w + 2)) ?v)) = Inr cert"
    and r: "req' = (if clk (ticks w) + ks_validity s < req_ValidUntil req
      then req\<lparr>req_ValidUntil := clk (ticks w) + ks_validity s\<rparr> else req)"
    by (simp_all add: SignUserKey_eq Let_def v)
  then have "tbs cert = tbs (setPermissions s (base_cert s pubkey username (clk (ticks w + 1)) (clk (ticks w + 2)) ?v))
      \<and> cert_SignatureKey cert = Some (CAPublicKey ssh (ks_ca s))"
    using assms(2) unfolding sign_cert_ok_def by blast
  moreover from r v have "req_ValidUntil req' = ?v" by simp
  ultimately show thesis using p that by blast
qed

lemma krl_ids_map: "krl_ids ids cs = ids @ map rec_KeyID cs"
  by (induction cs arbitrary: ids) auto

lemma keyId_inject:
  assumes "keyId u t = keyId u' t'"
  shows "u = u' \<and> Unix t = Unix t'"
proof -
  have l: "LastIndex (keyId u t) (CHR ''_'') = Some (length u)" for u t
    using LastIndex_append [OF show_int_no_underscore] by (simp add: keyId_def)
  from l [of u t] l [of u' t'] assms have "length u = length u'" by simp
  with assms have "u = u'" and "show_int (Unix t) = show_int (Unix t')"
    by (simp_all add: keyId_def)
  then show ?thesis by (blast dest: show_int_inject)
qed

section \<open>Properties\<close>

definition wsigner :: "unit KeySigner" where
  "wsigner = \<lparr>ks_ca = (), ks_validity = 12 * Hour, ks_principals = [''ec2-user''],
              ks_permissions = [''permit-pty'', ''force-command=/bin/ls'']\<rparr>"

definition wclk :: "nat \<Rightarrow> time" where
  "wclk n = 1700000000 * nano + int n"

definition wreq :: SignRequest where
  "wreq = \<lparr>req_Key = ''ssh-rsa AAAA'', req_ValidUntil = 1700003600 * nano, req_Message = ''hello'', req_Version = ''''\<rparr>"

lemmas witness_defs = wsigner_def wclk_def wreq_def wssh_def world0_def nano_def Hour_def Minute_def

lemma SignUserKey_fields:
  assumes "SignUserKey ssh clk s req username w = (Return (Inr cert, req'), w')" and "sign_cert_ok ssh"
  shows "ParseAuthorizedKey ssh (req_Key req) = Inr (cert_Key cert)"
    and "cert_CertType cert = UserCert"
    and "cert_ValidPrincipals cert = username # ks_principals s"
    and "cert_KeyId cert = keyId username (clk (ticks w + 1))"
    and "cert_ValidAfter cert = uint64 (Unix (Add (clk (ticks w + 2)) (- 5 * Minute)))"
    and "cert_ValidBefore cert = uint64 (Unix (min (req_ValidUntil req) (clk (ticks w) + ks_validity s)))"
    and "cert_SignatureKey cert = Some (CAPublicKey ssh (ks_ca s))"
proof -
  obtain pubkey where p: "ParseAuthorizedKey ssh (req_Key req) = Inr pubkey"
    and t: "tbs cert = tbs (setPermissions s (base_cert s pubkey username (clk (ticks w + 1)) (clk (ticks w + 2))
           (min (req_ValidUntil req) (clk (ticks w) + ks_validity s))))"
    and k: "cert_SignatureKey cert = Some (CAPublicKey ssh (ks_ca s))"
    using assms by (rule SignUserKey_cert)
  from p k tbs_fields [OF t] show "ParseAuthorizedKey ssh (req_Key req) = Inr (cert_Key cert)"
    "cert_CertType cert = UserCert" "cert_ValidPrincipals cert = username # ks_principals s"
    "cert_KeyId cert = keyId username (clk (ticks w + 1))"
    "cert_ValidAfter cert = uint64 (Unix (Add (clk (ticks w + 2)) (- 5 * Minute)))"
    "cert_ValidBefore cert = uint64 (Unix (min (req_ValidUntil req) (clk (ticks w) + ks_validity s)))"
    "cert_SignatureKey cert = Some (CAPublicKey ssh (ks_ca s))"
    by (simp_all add: base_cert_def)
qed

text \<open>
  C14: a successful SignUserKey gives a user certificate for exactly the key of the request, whose
  principals are the user name followed by the configured additional principals, whose key id is the
  user name and the second of the second clock reading, whose validity starts five minutes before the
  third reading, and which is signed by the CA of the signer.
\<close>

theorem SignUserKey_contents:
  assumes "SignUserKey ssh clk s req username w = (Return (Inr cert, req'), w')" and "sign_cert_ok ssh"
  shows "ParseAuthorizedKey ssh (req_Key req) = Inr (cert_Key cert)
    \<and> cert_CertType cert = UserCert
    \<and> cert_ValidPrincipals cert = username # ks_principals s
    \<and> cert_KeyId cert = username @ ''_'' @ show_int (Unix (clk (ticks w + 1)))
    \<and> cert_ValidAfter cert = uint64 (Unix (clk (ticks w + 2) - 300 * nano))
    \<and> cert_SignatureKey cert = Some (CAPublicKey ssh (ks_ca s))"
  using SignUserKey_fields [OF assms] by (simp add: keyId_def Add_def Minute_def nano_def)

theorem SignUserKey_contents_witness:
  "sign_cert_ok wssh \<and> (\<exists>cert req' w'. SignUserKey wssh wclk wsigner wreq ''alice'' world0 = (Return (Inr cert, req'), w')
     \<and> cert_ValidPrincipals cert = [''alice'', ''ec2-user''])"
proof -
  obtain cert req' w' where c: "SignUserKey wssh wclk wsigner wreq ''alice'' world0 = (Return (Inr cert, req'), w')"
    by (simp add: SignUserKey_eq witness_defs Let_def)
  from SignUserKey_contents [OF this wssh_sign_cert_ok] show ?thesis
    using c by (simp add: wsigner_def)
qed

text \<open>
  C15: the certificate never outlives the configured maximum age: for a request whose expiry is not before
  the Unix epoch, ValidBefore (an unsigned number of seconds) is the earlier of the requested expiry
  and the time of signing plus the signer's validity.
\<close>

theorem SignUserKey_max_age:
  assumes "SignUserKey ssh clk s req username w = (Return (Inr cert, req'), w')" and "sign_cert_ok ssh"
    and "0 \<le> req_ValidUntil req" and "0 \<le> clk (ticks w) + ks_validity s"
    and "representable (req_ValidUntil req)" and "representable (clk (ticks w) + ks_validity s)"
  shows "uint (cert_ValidBefore cert) = min (Unix (req_ValidUntil req)) (Unix (clk (ticks w) + ks_validity s))
    \<and> uint (cert_ValidBefore cert) \<le> Unix (clk (ticks w) + ks_validity s)"
proof -
  let ?v = "min (req_ValidUntil req) (clk (ticks w) + ks_validity s)"
  have r: "representable ?v" and nn: "0 \<le> ?v" using assms(3-6) by (auto simp: min_def)
  from nn have "0 \<le> ?v div nano" by (simp add: nano_def pos_imp_zdiv_nonneg_iff)
  with r have "0 \<le> Unix ?v" and "Unix ?v < 2 ^ 64"
    by (auto simp: Unix_representable representable_def fits64_def)
  with SignUserKey_fields(6) [OF assms(1,2)] have "uint (cert_ValidBefore cert) = Unix ?v"
    by (simp add: uint_uint64_nonneg)
  moreover have "Unix ?v = min (Unix (req_ValidUntil req)) (Unix (clk (ticks w) + ks_validity s))"
    using Unix_mono [OF assms(5,6)] Unix_mono [OF assms(6,5)] by (auto simp: min_def)
  ultimately show ?thesis by simp
qed

theorem SignUserKey_max_age_witness:
  "\<exists>cert req' w'. SignUserKey wssh wclk wsigner (wreq\<lparr>req_ValidUntil := 1800000000 * nano\<rparr>) ''alice'' world0
       = (Return (Inr cert, req'), w') \<and> uint (cert_ValidBefore cert) = 1700043200"
proof -
  let ?req = "wreq\<lparr>req_ValidUntil := 1800000000 * nano\<rparr>"
  obtain cert req' w' where c: "SignUserKey wssh wclk wsigner ?req ''alice'' world0 = (Return (Inr cert, req'), w')"
    by (simp add: SignUserKey_eq witness_defs Let_def)
  have "uint (cert_ValidBefore cert) = min (Unix (req_ValidUntil ?req)) (Unix (wclk (ticks world0) + ks_validity wsigner))"
    using SignUserKey_max_age [OF c wssh_sign_cert_ok]
    by (simp add: witness_defs representable_def fits64_def)
  also have "\<dots> = 1700043200"
    by (simp add: witness_defs Unix_def wrap64_def)
  finally show ?thesis using c by blast
qed

text \<open>Instants from the zero time up to the epoch, as seconds and as an unsigned number of seconds.\<close>

lemma pre_epoch_seconds:
  assumes "zero_time \<le> t" and "t < 0"
  shows "Unix t = t div nano" and "- unixToInternal \<le> t div nano" and "t div nano < 0"
proof -
  have "zero_time div nano \<le> t div nano" using assms(1) by (simp add: zdiv_mono1 nano_def)
  then show lo: "- unixToInternal \<le> t div nano" by (simp add: zero_time_def nano_def unixToInternal_def)
  show hi: "t div nano < 0" using assms(2) by (simp add: nano_def div_neg_pos_less0)
  show "Unix t = t div nano" using lo hi by (simp add: Unix_def fits64_def unixToInternal_def)
qed

lemma SignUserKey_pre_epoch_field:
  assumes "SignUserKey ssh clk s req username w = (Return (Inr cert, req'), w')" and "sign_cert_ok ssh"
    and "zero_time \<le> req_ValidUntil req" and "req_ValidUntil req < 0"
    and "req_ValidUntil req \<le> clk (ticks w) + ks_validity s"
  shows "cert_ValidBefore cert = uint64 (req_ValidUntil req div nano)"
  using SignUserKey_fields(6) [OF assms(1,2)] assms(5) pre_epoch_seconds(1) [OF assms(3,4)] by (simp add: min_def)

lemma pre_epoch_wraps:
  assumes "u = uint64 (t div nano)" and "zero_time \<le> t" and "t < 0"
  shows "uint u = 2 ^ 64 + t div nano" and "2 ^ 63 < uint u"
  using pre_epoch_seconds [OF assms(2,3)] assms(1) by (simp_all add: uint_uint64_neg unixToInternal_def)

text \<open>
  The bound fails for a request whose expiry lies before the Unix epoch, such as a request that
  names no expiry at all (the zero time): the conversion to an unsigned number wraps around and
  the certificate stays valid for more than 2^63 seconds, whatever maximum age is configured.
\<close>

theorem SignUserKey_pre_epoch:
  assumes "SignUserKey ssh clk s req username w = (Return (Inr cert, req'), w')" and "sign_cert_ok ssh"
    and "zero_time \<le> req_ValidUntil req" and "req_ValidUntil req < 0"
    and "req_ValidUntil req \<le> clk (ticks w) + ks_validity s"
  shows "uint (cert_ValidBefore cert) = 2 ^ 64 + req_ValidUntil req div nano
    \<and> 2 ^ 63 < uint (cert_ValidBefore cert)"
  using pre_epoch_wraps [OF SignUserKey_pre_epoch_field [OF assms] assms(3,4)] by simp

theorem SignUserKey_pre_epoch_witness:
  "\<exists>cert req' w'. SignUserKey wssh wclk wsigner (wreq\<lparr>req_ValidUntil := zero_time\<rparr>) ''alice'' world0
       = (Return (Inr cert, req'), w') \<and> uint (cert_ValidBefore cert) = 18446744011573954816"
proof -
  let ?req = "wreq\<lparr>req_ValidUntil := zero_time\<rparr>"
  obtain cert req' w' where c: "SignUserKey wssh wclk wsigner ?req ''alice'' world0 = (Return (Inr cert, req'), w')"
    by (simp add: SignUserKey_eq witness_defs Let_def)
  have "uint (cert_ValidBefore cert) = 2 ^ 64 + req_ValidUntil ?req div nano"
    using SignUserKey_pre_epoch [OF c wssh_sign_cert_ok]
    by (simp add: witness_defs zero_time_def unixToInternal_def)
  then show ?thesis using c by (auto simp: zero_time_def unixToInternal_def nano_def)
qed

text \<open>
  C30: the permissions of the certificate are those of the reference reading of the configured list: the
  last option of a name wins, every entry without an equals sign is an extension with an empty
  value, and the five default extensions are used exactly when the list names no extension.
\<close>

theorem setPermissions_reference:
  "map_of (cert_CriticalOptions (setPermissions s c)) k
      = map_of (rev (map option_of (filter is_option (ks_permissions s)))) k
   \<and> (if \<forall>p \<in> set (ks_permissions s). is_option p then cert_Extensions (setPermissions s c) = defaultPermissions
      else map_of (cert_Extensions (setPermissions s c)) x
        = (if x \<in> set (ks_permissions s) \<and> \<not> is_option x then Some '''' else None))"
  using fold_set_permission [of "ks_permissions s" "[]" "[]"]
  by (auto simp: setPermissions_unfold extensions_empty_iff split: option.split)

theorem setPermissions_reference_witness:
  "map_of (cert_CriticalOptions (setPermissions wsigner (base_cert wsigner () ''u'' 0 0 0))) ''force-command'' = Some ''/bin/ls''"
proof -
  have "map_of (rev (map option_of (filter is_option (ks_permissions wsigner)))) ''force-command'' = Some ''/bin/ls''"
    by (simp add: wsigner_def is_option_def option_of_def TrimSpace_def trim_by_def is_space_def)
  then show ?thesis
    using setPermissions_reference [of wsigner "base_cert wsigner () ''u'' 0 0 0" "''force-command''" "''''"] by simp
qed

text \<open>
  The value of an option is cut at its second equals sign: of an entry name=value=rest only value is
  put into the certificate, so a forced command that assigns a variable is truncated.
\<close>

theorem option_value_cut:
  assumes "CHR ''='' \<notin> set name" and "CHR ''='' \<notin> set val"
    and "ks_permissions s = [name @ ''='' @ val @ ''='' @ rest]"
  shows "cert_CriticalOptions (setPermissions s c) = [(TrimSpace name, TrimSpace val)]"
proof -
  have "Split (name @ CHR ''='' # val @ CHR ''='' # rest) (CHR ''='') = name # val # Split rest (CHR ''='')"
    using assms(1,2) by (simp add: Split_append_sep)
  then show ?thesis
    using assms(3) by (simp add: setPermissions_unfold set_permission_def)
qed

theorem option_value_cut_witness:
  "cert_CriticalOptions (setPermissions (wsigner\<lparr>ks_permissions := [''force-command=env A=b run'']\<rparr>) (base_cert wsigner () ''u'' 0 0 0))
     = [(''force-command'', ''env A'')]"
  using option_value_cut [of "''force-command''" "''env A''" "wsigner\<lparr>ks_permissions := [''force-command=env A=b run'']\<rparr>" "''b run''"]
  by (simp add: TrimSpace_def trim_by_def is_space_def)

text \<open>
  Two certificates that SignUserKey issues have the same key id only if they are for the same user name
  and their key ids were taken in the same second.
\<close>

theorem SignUserKey_key_ids:
  assumes "SignUserKey ssh clk s req u w = (Return (Inr c, req1), w1)"
    and "SignUserKey ssh clk s' req' u' v = (Return (Inr c', req2), w2)"
    and "sign_cert_ok ssh" and "cert_KeyId c = cert_KeyId c'"
  shows "u = u' \<and> Unix (clk (ticks w + 1)) = Unix (clk (ticks v + 1))"
proof -
  have "cert_KeyId c = keyId u (clk (ticks w + 1))"
    using assms(1,3) by (rule SignUserKey_fields)
  moreover have "cert_KeyId c' = keyId u' (clk (ticks v + 1))"
    using assms(2,3) by (rule SignUserKey_fields)
  ultimately show ?thesis using assms(4) keyId_inject by metis
qed

theorem SignUserKey_key_ids_witness:
  "\<exists>c r1 w1 c' r2 w2.
     SignUserKey wssh wclk wsigner wreq ''alice'' world0 = (Return (Inr c, r1), w1) \<and>
     SignUserKey wssh wclk wsigner wreq ''alice'' w1 = (Return (Inr c', r2), w2) \<and>
     cert_KeyId c = cert_KeyId c' \<and> Unix (wclk 1) = Unix (wclk 4)"
proof -
  obtain c r1 w1 where 1: "SignUserKey wssh wclk wsigner wreq ''alice'' world0 = (Return (Inr c, r1), w1)"
      "ticks w1 = 3" "cert_KeyId c = ''alice_'' @ show_int 1700000000"
    by (simp add: SignUserKey_eq witness_defs Let_def base_cert_def keyId_def Unix_def wrap64_def)
  obtain c' r2 w2 where 2: "SignUserKey wssh wclk wsigner wreq ''alice'' w1 = (Return (Inr c', r2), w2)"
      "cert_KeyId c' = ''alice_'' @ show_int 1700000000"
    using 1(2) by (simp add: SignUserKey_eq witness_defs Let_def base_cert_def keyId_def Unix_def wrap64_def)
  from SignUserKey_key_ids [OF 1(1) 2(1) wssh_sign_cert_ok] 1 2 show ?thesis
    by (simp add: world0_def)
qed

text \<open>
  A request whose key does not parse is refused with the parser's error; the request is left as it was, the
  clock is not read and nothing is signed.
\<close>

theorem SignUserKey_bad_key:
  assumes "ParseAuthorizedKey ssh (req_Key req) = Inl err"
  shows "SignUserKey ssh clk s req username w = (Return (Inl err, req), w)"
  using assms by (simp add: SignUserKey_eq)

theorem SignUserKey_bad_key_witness:
  "SignUserKey wssh wclk wsigner (wreq\<lparr>req_Key := ''bad''\<rparr>) ''alice'' world0
     = (Return (Inl (ENew ''ssh: no key found''), wreq\<lparr>req_Key := ''bad''\<rparr>), world0)"
  by (rule SignUserKey_bad_key) (simp add: wssh_def)

text \<open>
  The revocation list marshals one section, for the signer's own CA key, that holds the key ids of
  the given records in their order.
\<close>

theorem GenerateRevocationList_ids:
  "GenerateRevocationList ssh s certs w =
     (Return (MarshalKRL ssh (rands w) \<lparr>krl_CA = CAPublicKey ssh (ks_ca s), krl_KeyIDs = map rec_KeyID certs\<rparr>),
      w\<lparr>rands := Suc (rands w)\<rparr>)"
  by (simp add: GenerateRevocationList_def krl_ids_map draw_def)

end
