(* ===== verification/Token_Text.thy ===== *)
theory Token_Text
  imports Ssh_Types
begin

text \<open>
  How an access token travels from the server's page to the client: \<^verbatim>\<open>encodeToken\<close> of \<^verbatim>\<open>server/server.go\<close> prints it as
  lines of base64, the page adds a line with a dot, and the loop of \<^verbatim>\<open>cmd/cashier/main.go\<close> reads the lines
  back. \<^verbatim>\<open>encoding/base64\<close> and \<^verbatim>\<open>bufio.Scanner\<close> are modelled on byte strings.
\<close>

section \<open>Base64\<close>

definition b64_alphabet :: string where
  "b64_alphabet = ''ABCDEFGHIJKLMNOPQRSTUVWXYZabcdefghijklmnopqrstuvwxyz0123456789+/''"

definition b64_char :: "nat \<Rightarrow> char" where
  "b64_char n = b64_alphabet ! n"

definition b64_val :: "char \<Rightarrow> nat option" where
  "b64_val c = map_of (zip b64_alphabet [0..<64]) c"

fun b64_encode :: "nat list \<Rightarrow> string" where
  "b64_encode [] = []"
| "b64_encode [a] = [b64_char (a div 4), b64_char (a mod 4 * 16), CHR ''='', CHR ''='']"
| "b64_encode [a, b] =
     [b64_char (a div 4), b64_char (a mod 4 * 16 + b div 16), b64_char (b mod 16 * 4), CHR ''='']"
| "b64_encode (a # b # c # r) =
     b64_char (a div 4) # b64_char (a mod 4 * 16 + b div 16) # b64_char (b mod 16 * 4 + c div 64)
       # b64_char (c mod 64) # b64_encode r"

text \<open>
  The decoder reads groups of four; padding is allowed in the last group only. Newlines are dropped wherever they
  are, and the bits below the last whole byte are not looked at.
\<close>

fun b64_decode :: "string \<Rightarrow> nat list option" where
  "b64_decode [] = Some []"
| "b64_decode [a, b, c, d] =
     (case (b64_val a, b64_val b) of
        (Some x, Some y) \<Rightarrow>
          (if c = CHR ''='' \<and> d = CHR ''='' then Some [x * 4 + y div 16]
           else case b64_val c of
             None \<Rightarrow> None
           | Some z \<Rightarrow>
               if d = CHR ''='' then Some [x * 4 + y div 16, y mod 16 * 16 + z div 4]
               else (case b64_val d of
                       None \<Rightarrow> None
                     | Some u \<Rightarrow> Some [x * 4 + y div 16, y mod 16 * 16 + z div 4, z mod 4 * 64 + u]))
      | _ \<Rightarrow> None)"
| "b64_decode (a # b # c # d # r) =
     (case (b64_val a, b64_val b, b64_val c, b64_val d, b64_decode r) of
        (Some x, Some y, Some z, Some u, Some bs) \<Rightarrow>
          Some ((x * 4 + y div 16) # (y mod 16 * 16 + z div 4) # (z mod 4 * 64 + u) # bs)
      | _ \<Rightarrow> None)"
| "b64_decode _ = None"

definition base64_EncodeToString :: "string \<Rightarrow> string" where
  "base64_EncodeToString s = b64_encode (map of_char s)"

definition base64_DecodeString :: "string \<Rightarrow> string option" where
  "base64_DecodeString s =
     map_option (map char_of) (b64_decode (filter (\<lambda>c. c \<noteq> CHR 0x0A \<and> c \<noteq> CHR 0x0D) s))"

lemma b64_val_char [simp]: "n < 64 \<Longrightarrow> b64_val (b64_char n) = Some n"
proof -
  have "\<forall>n \<in> set [0..<64]. b64_val (b64_char n) = Some n" by code_simp
  then show "n < 64 \<Longrightarrow> b64_val (b64_char n) = Some n" by simp
qed

definition b64_text :: "char \<Rightarrow> bool" where
  "b64_text c \<longleftrightarrow> c \<in> set b64_alphabet \<or> c = CHR ''=''"

lemma length_b64_alphabet: "length b64_alphabet = 64"
  by (simp add: b64_alphabet_def)

lemma b64_text_char [simp]: "n < 64 \<Longrightarrow> b64_text (b64_char n)"
  unfolding b64_text_def b64_char_def using nth_mem [of n b64_alphabet] length_b64_alphabet by simp

lemma b64_char_no_pad [simp]: "n < 64 \<Longrightarrow> b64_char n \<noteq> CHR ''=''"
proof -
  have "\<forall>n \<in> set [0..<64]. b64_char n \<noteq> CHR ''=''" by code_simp
  then show "n < 64 \<Longrightarrow> b64_char n \<noteq> CHR ''=''" by simp
qed

lemma b64_encode_text:
  "\<forall>b \<in> set bs. b < 256 \<Longrightarrow> \<forall>c \<in> set (b64_encode bs). b64_text c"
  by (induction bs rule: b64_encode.induct) (auto simp: b64_text_def [of "CHR ''=''"])

lemma b64_decode_step:
  assumes "b64_decode r = Some bs" and "x < 64" and "y < 64" and "z < 64" and "u < 64"
  shows "b64_decode (b64_char x # b64_char y # b64_char z # b64_char u # r) =
    Some ((x * 4 + y div 16) # (y mod 16 * 16 + z div 4) # (z mod 4 * 64 + u) # bs)"
  using assms by (cases r) auto

lemma b64_roundtrip:
  "\<forall>b \<in> set bs. b < 256 \<Longrightarrow> b64_decode (b64_encode bs) = Some bs"
proof (induction bs rule: b64_encode.induct)
  case (4 a b c r)
  then have "a < 256" "b < 256" "c < 256" and IH: "b64_decode (b64_encode r) = Some r" by simp_all
  then have "a div 4 < 64" "a mod 4 * 16 + b div 16 < 64" "b mod 16 * 4 + c div 64 < 64" "c mod 64 < 64"
    by linarith+
  moreover have "b div 16 < 16" "c div 64 < 4" using \<open>b < 256\<close> \<open>c < 256\<close> by simp_all
  moreover have "b div 16 * 16 + b mod 16 = b" "c div 64 * 64 + c mod 64 = c" by simp_all
  ultimately show ?case using b64_decode_step [OF IH] by simp
qed auto

lemma b64_text_no_newline:
  "b64_text c \<Longrightarrow> c \<noteq> CHR 0x0A \<and> c \<noteq> CHR 0x0D \<and> c \<noteq> CHR ''.''"
  by (auto simp: b64_text_def b64_alphabet_def)

lemma map_char_of_of_char: "map char_of (map (of_char :: char \<Rightarrow> nat) s) = s"
  by (induction s) auto

lemma of_char_less: "\<forall>b \<in> set (map (of_char :: char \<Rightarrow> nat) s). b < 256"
  by (auto simp: of_char_def)

lemma base64_text: "\<forall>c \<in> set (base64_EncodeToString s). b64_text c"
  unfolding base64_EncodeToString_def by (rule b64_encode_text [OF of_char_less])

lemma base64_roundtrip:
  assumes "filter (\<lambda>c. c \<noteq> CHR 0x0A \<and> c \<noteq> CHR 0x0D) text = base64_EncodeToString s"
  shows "base64_DecodeString text = Some s"
  using assms b64_roundtrip [OF of_char_less, of s]
  by (simp add: base64_DecodeString_def base64_EncodeToString_def map_char_of_of_char)

lemma base64_decode_encode: "base64_DecodeString (base64_EncodeToString s) = Some s"
  by (rule base64_roundtrip) (use base64_text [of s] b64_text_no_newline in \<open>simp add: filter_id_conv\<close>)

section \<open>encodeToken\<close>

text \<open>The loop over the encoded text in steps of 70 characters; \<open>buffer\<close> is what was written.\<close>

definition chunkSize :: nat where
  "chunkSize = 70"

function encode_loop :: "string \<Rightarrow> nat \<Rightarrow> string \<Rightarrow> string" where
  "encode_loop runes i buffer =
     (if i < length runes
      then encode_loop runes (i + chunkSize)
             (buffer @ take (min (i + chunkSize) (length runes) - i) (drop i runes) @ [newline])
      else buffer)"
  by pat_completeness auto
termination by (relation "measure (\<lambda>(runes, i, _). length runes - i)") (auto simp: chunkSize_def)

declare encode_loop.simps [simp del]

definition encodeToken :: "string \<Rightarrow> string" where
  "encodeToken s = encode_loop (base64_EncodeToString s) 0 ''''"

section \<open>Reading it back\<close>

text \<open>
  \<^verbatim>\<open>bufio.ScanLines\<close>: the lines of a text without their ends (a newline, or a carriage return and a newline); a last
  line without an end counts if it is not empty.
\<close>

definition strip_cr :: "string \<Rightarrow> string" where
  "strip_cr l = (if l \<noteq> [] \<and> last l = CHR 0x0D then butlast l else l)"

fun scan_lines :: "string \<Rightarrow> string \<Rightarrow> string list" where
  "scan_lines line [] = (if line = [] then [] else [strip_cr line])"
| "scan_lines line (c # s) = (if c = newline then strip_cr line # scan_lines [] s else scan_lines (line @ [c]) s)"

text \<open>
  The loop that collects lines until one is a dot. When the input has ended \<^verbatim>\<open>Scan\<close> does nothing and \<^verbatim>\<open>Text\<close> stays empty,
  which is not a dot, so the loop goes on for ever.
\<close>

partial_function (option) paste_loop :: "string list \<Rightarrow> string \<Rightarrow> string option" where
  "paste_loop ls buffer =
     (case ls of
        [] \<Rightarrow> paste_loop [] (buffer @ '''')
      | l # rest \<Rightarrow> if l = ''.'' then Some buffer else paste_loop rest (buffer @ l))"

lemma paste_loop_stops:
  "''.'' \<in> set ls \<Longrightarrow> paste_loop ls buffer = Some (buffer @ concat (takeWhile (\<lambda>l. l \<noteq> ''.'') ls))"
proof (induction ls arbitrary: buffer)
  case (Cons l ls)
  then show ?case by (subst paste_loop.simps) auto
qed simp

lemma paste_loop_only:
  assumes "paste_loop ls buffer = Some out"
  shows "''.'' \<in> set ls"
proof (rule paste_loop.raw_induct [where P = "\<lambda>ls b out. ''.'' \<in> set ls", OF _ assms])
  fix f ls b out
  assume IH: "\<And>ls b out. f ls b = Some out \<Longrightarrow> ''.'' \<in> set ls"
    and step: "(case ls of [] \<Rightarrow> f [] (b @ []) | l # rest \<Rightarrow> if l = ''.'' then Some b else f rest (b @ l)) = Some out"
  show "''.'' \<in> set ls"
  proof (cases ls)
    case Nil
    with step IH [of "[]"] show ?thesis by simp
  next
    case (Cons l rest)
    with step IH [of rest] show ?thesis by (auto split: if_splits)
  qed
qed

text \<open>The encoded text cut into lines.\<close>

function chunks :: "string \<Rightarrow> string list" where
  "chunks s = (if s = [] then [] else take chunkSize s # chunks (drop chunkSize s))"
  by pat_completeness auto
termination by (relation "measure length") (auto simp: chunkSize_def)

declare chunks.simps [simp del]

lemma encode_loop_chunks:
  "encode_loop runes i buffer = buffer @ concat (map (\<lambda>l. l @ [newline]) (chunks (drop i runes)))"
proof (induction runes i buffer rule: encode_loop.induct)
  case (1 runes i buffer)
  show ?case
  proof (cases "i < length runes")
    case True
    then have "take (min (i + chunkSize) (length runes) - i) (drop i runes) = take chunkSize (drop i runes)"
      by (simp add: min_def)
    with True 1 show ?thesis
      by (subst encode_loop.simps) (simp add: chunks.simps [of "drop i runes"] add.commute)
  next
    case False
    then show ?thesis by (simp add: encode_loop.simps chunks.simps)
  qed
qed

lemma concat_chunks: "concat (chunks s) = s"
proof (induction s rule: chunks.induct)
  case (1 s)
  then show ?case by (subst chunks.simps) simp
qed

lemma chunks_bounds: "l \<in> set (chunks s) \<Longrightarrow> 0 < length l \<and> length l \<le> 70"
proof (induction s rule: chunks.induct)
  case (1 s)
  then show ?case
    by (subst (asm) (2) chunks.simps) (auto simp: chunkSize_def split: if_splits)
qed

lemma chunks_chars: "l \<in> set (chunks s) \<Longrightarrow> set l \<subseteq> set s"
proof -
  have "set s = \<Union> (set ` set (chunks s))" by (metis concat_chunks set_concat)
  then show "l \<in> set (chunks s) \<Longrightarrow> set l \<subseteq> set s" by blast
qed

lemma scan_lines_line:
  assumes "newline \<notin> set l"
  shows "scan_lines line (l @ newline # s) = strip_cr (line @ l) # scan_lines [] s"
  using assms by (induction l arbitrary: line) auto

lemma scan_lines_chunks:
  assumes "\<forall>l \<in> set ls. newline \<notin> set l \<and> strip_cr l = l"
  shows "scan_lines [] (concat (map (\<lambda>l. l @ [newline]) ls) @ s) = ls @ scan_lines [] s"
  using assms by (induction ls) (auto simp: scan_lines_line)

lemma encoded_line:
  assumes "l \<in> set (chunks (base64_EncodeToString s))"
  shows "newline \<notin> set l \<and> strip_cr l = l \<and> l \<noteq> ''.''"
proof -
  have c: "b64_text c" if "c \<in> set l" for c
    using chunks_chars [OF assms] base64_text [of s] that by blast
  have "last l \<in> set l" using chunks_bounds [OF assms] by simp
  then have "last l \<noteq> CHR 0x0D" using c b64_text_no_newline by blast
  moreover have "newline \<notin> set l" using c b64_text_no_newline by (auto simp: newline_def)
  moreover have "l \<noteq> ''.''" using c b64_text_no_newline [of "CHR ''.''"] by auto
  ultimately show ?thesis by (simp add: strip_cr_def)
qed

lemma encodeToken_lines:
  "encodeToken s = concat (map (\<lambda>l. l @ [newline]) (chunks (base64_EncodeToString s)))"
  by (simp add: encodeToken_def encode_loop_chunks)

lemma paste_encoded:
  assumes "rest = [] \<or> hd rest = newline"
  shows "paste_loop (scan_lines [] (encodeToken s @ ''.'' @ rest)) '''' = Some (base64_EncodeToString s)"
proof -
  let ?ls = "chunks (base64_EncodeToString s)"
  obtain ls where d: "scan_lines [] (''.'' @ rest) = ''.'' # ls"
    using assms by (cases rest) (simp_all add: strip_cr_def newline_def)
  have "scan_lines [] (encodeToken s @ ''.'' @ rest) = ?ls @ ''.'' # ls"
    unfolding encodeToken_lines d [symmetric] by (rule scan_lines_chunks) (use encoded_line in blast)
  moreover have "takeWhile (\<lambda>l. l \<noteq> ''.'') (?ls @ ''.'' # ls) = ?ls"
    using encoded_line by (simp add: takeWhile_append2)
  ultimately show ?thesis by (simp add: paste_loop_stops concat_chunks)
qed

section \<open>Properties\<close>

text \<open>
  The token a user copies from the server's page (the printed token and a line with a dot) and pastes into the client is read back
  unchanged; no printed line is longer than 70 characters.
\<close>

theorem token_paste_roundtrip:
  "(\<exists>encoded. paste_loop (scan_lines [] (encodeToken token @ ''.'' @ [newline])) '''' = Some encoded
      \<and> base64_DecodeString encoded = Some token)
   \<and> (\<forall>line \<in> set (scan_lines [] (encodeToken token)). length line \<le> 70)"
proof -
  have "base64_DecodeString (base64_EncodeToString token) = Some token" by (rule base64_decode_encode)
  moreover have "scan_lines [] (encodeToken token) = chunks (base64_EncodeToString token)"
    using scan_lines_chunks [of "chunks (base64_EncodeToString token)" "[]"] encoded_line
    by (simp add: encodeToken_lines)
  ultimately show ?thesis using paste_encoded [of "[newline]" token] chunks_bounds by auto
qed

theorem token_paste_roundtrip_witness:
  "list_all (\<lambda>line. length line \<le> 70) (scan_lines [] (encodeToken ''secret''))"
  using token_paste_roundtrip [of "''secret''"] by (simp add: list_all_iff)

text \<open>
  The client's paste loop returns exactly when some line of the input is a dot; on an input that ends without one it never returns.
\<close>

theorem paste_loop_returns:
  "(\<exists>text. paste_loop ls buffer = Some text) \<longleftrightarrow> ''.'' \<in> set ls"
  using paste_loop_stops paste_loop_only by blast

end
