(* ===== verification/Server.thy ===== *)
theory Server
  imports Http Signer Token_Text
begin

text \<open>
  \<^verbatim>\<open>server/handlers.go\<close> and the application of \<^verbatim>\<open>server/server.go\<close>: the session, the login guard, the handlers and the
  routes. The packages around them (the session store, CSRF protection, the router, the recovery
  middleware, the templates) are fields of \<open>server_env\<close>.
\<close>

section \<open>The application\<close>

record ('k, 'ca, 's) application =
  app_provider :: Provider
  app_certstore :: "'s CertStorer"
  app_keysigner :: "'ca KeySigner"
  app_config :: Server
  app_requireReason :: bool

text \<open>
  The handlers that the routes name, with the two wrappers a route may put around one.
\<close>

datatype handler =
    HIndex | HRevoke | HAllCerts | HCertsJSON | HAuth | HRevoked | HSign | HHealthcheck | HMetrics | HStatic
  | Authed handler
  | Csrf handler

record route =
  route_method :: "string option"
  route_path :: string
  route_prefix :: bool
  route_handler :: handler

text \<open>
  \<open>session_Save\<close> answers an error for values that do not fit into a cookie; \<open>token_Marshal\<close> and
  \<open>token_Unmarshal\<close> are the JSON form of a token, with errors ignored as the code does (an empty text, an empty token).
  \<open>mux\<close> gives the handler of the route that matches, or the status code of the router's own answer.
\<close>

record ('k, 'ca, 's) server_env =
  env_ssh :: "('k, 'ca) ssh_api"
  env_oauth :: oauth2_api
  env_clk :: "nat \<Rightarrow> time"
  env_rand :: "nat \<Rightarrow> string"
  env_json :: "string \<Rightarrow> error + json"
  env_parse_time :: "string \<Rightarrow> error + time"
  token_Marshal :: "Token \<Rightarrow> string"
  token_Unmarshal :: "string \<Rightarrow> Token"
  session_Save :: "string gomap \<Rightarrow> error option"
  net_Write :: "nat \<Rightarrow> error option"
  csrf_Token :: "request \<Rightarrow> string"
  csrf_Protect :: "Server \<Rightarrow> request \<Rightarrow> ('s, unit) act \<Rightarrow> ('s, unit) act"
  recovery :: "('s, unit) act \<Rightarrow> ('s, unit) act"
  mux :: "route list \<Rightarrow> request \<Rightarrow> int + handler"
  lib_Version :: string
  metrics_page :: "request \<Rightarrow> string"
  static_page :: "request \<Rightarrow> string"

section \<open>Tokens and sessions\<close>

definition tokenFromRequest :: "request \<Rightarrow> Token" where
  "tokenFromRequest r =
     (let header = r_Authorization r
      in if HasPrefix (ToUpper header) ''BEARER ''
         then empty_Token\<lparr>AccessToken := Split header (CHR '' '') ! 1\<rparr>
         else empty_Token)"

definition getSessionVariable :: "string \<Rightarrow> ('s, string) act" where
  "getSessionVariable key h w =
     (Return (case map_of (hs_session h) key of Some v \<Rightarrow> v | None \<Rightarrow> ''''), h, w)"

text \<open>
  \<^verbatim>\<open>session.Values[key] = value; session.Save(r, w)\<close>. The values stay changed for the rest of the request; the cookie is a
  header of the response and is only set if the values could be encoded and no status was sent.
\<close>

definition setSessionVariable :: "('k, 'ca, 's) server_env \<Rightarrow> string \<Rightarrow> string \<Rightarrow> ('s, unit) act" where
  "setSessionVariable env key val h w =
     (let values = AList.update key val (hs_session h);
          rw = hs_resp h
      in (Return (),
          h\<lparr>hs_session := values,
            hs_resp := (if session_Save env values = None \<and> w_status rw = None
                        then rw\<lparr>w_cookie := Some values\<rparr> else rw)\<rparr>, w))"

definition getAuthToken :: "('k, 'ca, 's) server_env \<Rightarrow> ('s, Token) act" where
  "getAuthToken env =
     act_bind (getSessionVariable ''token'') (\<lambda>marshalled. act_ret (token_Unmarshal env marshalled))"

definition setAuthToken :: "('k, 'ca, 's) server_env \<Rightarrow> Token \<Rightarrow> ('s, unit) act" where
  "setAuthToken env token = setSessionVariable env ''token'' (token_Marshal env token)"

text \<open>\<^verbatim>\<open>authed\<close>: the wrapper around the routes that need a login.\<close>

definition authed :: "('k, 'ca, 's) server_env \<Rightarrow> ('k, 'ca, 's) application \<Rightarrow> request \<Rightarrow> ('s, unit) act \<Rightarrow> ('s, unit) act" where
  "authed env a r next =
     act_bind (getAuthToken env) (\<lambda>t.
     act_bind (lift_io (token_Valid (env_oauth env) (env_clk env) t)) (\<lambda>ok.
     act_bind (if ok then lift_io (prov_Valid (app_provider a) t) else act_ret False) (\<lambda>ok.
       if \<not> ok then
         act_bind (setSessionVariable env ''origin_url'' (r_URI r)) (\<lambda>_.
           http_Redirect r ''/auth/login'' 303)
       else next)))"

section \<open>Handlers\<close>

text \<open>The JSON form of a signing request; a time is a text in RFC 3339 format.\<close>

definition request_field ::
  "(string \<Rightarrow> error + time) \<Rightarrow> string \<times> json \<Rightarrow> SignRequest \<times> bool \<Rightarrow> SignRequest \<times> bool" where
  "request_field parse_time = (\<lambda>(k, v) (q, bad).
     if equal_fold k ''key'' then
       (case decode_string v (req_Key q) of (x, e) \<Rightarrow> (q\<lparr>req_Key := x\<rparr>, bad \<or> e))
     else if equal_fold k ''valid_until'' then
       (case v of
          JNull \<Rightarrow> (q, bad)
        | JString s \<Rightarrow> (case parse_time s of Inl _ \<Rightarrow> (q, True) | Inr t \<Rightarrow> (q\<lparr>req_ValidUntil := t\<rparr>, bad))
        | _ \<Rightarrow> (q, True))
     else if equal_fold k ''message'' then
       (case decode_string v (req_Message q) of (x, e) \<Rightarrow> (q\<lparr>req_Message := x\<rparr>, bad \<or> e))
     else if equal_fold k ''version'' then
       (case decode_string v (req_Version q) of (x, e) \<Rightarrow> (q\<lparr>req_Version := x\<rparr>, bad \<or> e))
     else (q, bad))"

definition decode_request :: "('k, 'ca, 's) server_env \<Rightarrow> string \<Rightarrow> error + SignRequest" where
  "decode_request env body =
     (case env_json env body of
        Inl e \<Rightarrow> Inl e
      | Inr j \<Rightarrow> decode_struct (request_field (env_parse_time env))
          \<lparr>req_Key = '''', req_ValidUntil = zero_time, req_Message = '''', req_Version = ''''\<rparr> j)"

text \<open>The closure \<^verbatim>\<open>fail\<close> of \<^verbatim>\<open>sign\<close>; the error of its \<^verbatim>\<open>Encode\<close> is ignored.\<close>

definition sign_fail :: "('k, 'ca, 's) server_env \<Rightarrow> int \<Rightarrow> error \<Rightarrow> ('s, unit) act" where
  "sign_fail env code err =
     act_bind (WriteHeader code) (\<lambda>_.
     act_bind (Encode (net_Write env) (BSignResponse
       \<lparr>resp_Status = ''error'', resp_Response = StatusText code @ '': '' @ error_text err, resp_Version = ''''\<rparr>)) (\<lambda>_.
     act_ret ()))"

definition errNeedsReason :: error where
  "errNeedsReason = ENew ''signing request needs a reason''"

definition errUnauthorized :: error where
  "errUnauthorized = ENew ''unauthorized''"

definition errSigningKey :: error where
  "errSigningKey = ENew ''error signing key''"

text \<open>What \<^verbatim>\<open>sign\<close> does once the request is accepted: sign, record, answer.\<close>

definition sign_issue ::
  "('k, 'ca, 's) server_env \<Rightarrow> ('k, 'ca, 's) application \<Rightarrow> SignRequest \<Rightarrow> string \<Rightarrow> ('s, unit) act" where
  "sign_issue env a req username =
     act_bind (lift_io (SignUserKey (env_ssh env) (env_clk env) (app_keysigner a) req username)) (\<lambda>(signed, req).
       case signed of
         Inl err \<Rightarrow> sign_fail env 500 (EWrap2 errSigningKey err)
       | Inr cert \<Rightarrow>
           act_bind (lift_outcome (MakeRecord (env_ssh env) cert)) (\<lambda>rec.
           act_bind (on_store (store_SetRecord (app_certstore a) (rec\<lparr>rec_Message := req_Message req\<rparr>))) (\<lambda>_.
           act_bind (lift_outcome (GetPublicKey (env_ssh env) (CertAsKey (env_ssh env) cert))) (\<lambda>txt.
           act_bind (Encode (net_Write env) (BSignResponse
             \<lparr>resp_Status = ''ok'', resp_Response = txt, resp_Version = ''''\<rparr>)) (\<lambda>err.
             case err of
               Some e \<Rightarrow> sign_fail env 500 (EWrap2 errSigningKey e)
             | None \<Rightarrow> act_ret ())))))"

definition sign :: "('k, 'ca, 's) server_env \<Rightarrow> ('k, 'ca, 's) application \<Rightarrow> request \<Rightarrow> ('s, unit) act" where
  "sign env a r =
     (let token = tokenFromRequest r
      in act_bind (lift_io (prov_Valid (app_provider a) token)) (\<lambda>valid.
           if \<not> valid then sign_fail env 401 errUnauthorized
           else case decode_request env (r_Body r) of
             Inl err \<Rightarrow> sign_fail env 400 err
           | Inr req \<Rightarrow>
               if app_requireReason a \<and> req_Message req = '''' then
                 act_bind (Header_Add ''X-Need-Reason'' ''required'') (\<lambda>_. sign_fail env 403 errNeedsReason)
               else
                 act_bind (lift_io (prov_Username (app_provider a) token)) (\<lambda>username.
                 act_bind (lift_io (prov_Revoke (app_provider a) token)) (\<lambda>_.
                   sign_issue env a req username))))"

definition unauthorized_page :: "('s, unit) act" where
  "unauthorized_page = act_bind (WriteHeader 401) (\<lambda>_. Write (BText (StatusText 401)))"

definition auth_login :: "('k, 'ca, 's) server_env \<Rightarrow> ('k, 'ca, 's) application \<Rightarrow> request \<Rightarrow> ('s, unit) act" where
  "auth_login env a r =
     act_bind (lift_io (draw (env_rand env))) (\<lambda>buf.
       let state = hex_EncodeToString buf
       in act_bind (setSessionVariable env ''state'' state) (\<lambda>_.
            http_Redirect r (prov_StartSession (app_provider a) state) 302))"

definition auth_callback :: "('k, 'ca, 's) server_env \<Rightarrow> ('k, 'ca, 's) application \<Rightarrow> request \<Rightarrow> ('s, unit) act" where
  "auth_callback env a r =
     act_bind (getSessionVariable ''state'') (\<lambda>state.
       if FormValue r ''state'' \<noteq> state then unauthorized_page
       else act_bind (getSessionVariable ''origin_url'') (\<lambda>originURL.
         let originURL = (if originURL = '''' then ''/'' else originURL);
             code = FormValue r ''code''
         in act_bind (lift_io (prov_Exchange (app_provider a) code)) (\<lambda>res.
              case res of
                Inl err \<Rightarrow>
                  act_bind (WriteHeader 500) (\<lambda>_.
                    Write (BText (StatusText 500 @ [newline] @ error_text err)))
              | Inr token \<Rightarrow>
                  act_bind (setAuthToken env token) (\<lambda>_.
                  act_bind (lift_io (prov_Valid (app_provider a) token)) (\<lambda>valid.
                    if \<not> valid then unauthorized_page
                    else http_Redirect r originURL 302)))))"

definition auth :: "('k, 'ca, 's) server_env \<Rightarrow> ('k, 'ca, 's) application \<Rightarrow> request \<Rightarrow> ('s, unit) act" where
  "auth env a r =
     (if r_Path r = ''/auth/login'' then auth_login env a r
      else if r_Path r = ''/auth/callback'' then auth_callback env a r
      else WriteHeader 500)"

text \<open>\<^verbatim>\<open>getAuthToken\<close> never returns nil, so the branch of \<^verbatim>\<open>index\<close> for a nil token is not there.\<close>

definition index :: "('k, 'ca, 's) server_env \<Rightarrow> request \<Rightarrow> ('s, unit) act" where
  "index env r =
     act_bind (getAuthToken env) (\<lambda>tok.
       Write (BTokenPage (encodeToken (AccessToken tok)) (FormValue r ''localserver'')))"

definition revoked :: "('k, 'ca, 's) server_env \<Rightarrow> ('k, 'ca, 's) application \<Rightarrow> ('s, unit) act" where
  "revoked env a =
     act_bind (on_store (store_GetRevoked (app_certstore a))) (\<lambda>res.
       case res of
         Inl err \<Rightarrow>
           act_bind (WriteHeader 500) (\<lambda>_. Write (BText (''error retrieving revoked certs: '' @ error_text err)))
       | Inr certs \<Rightarrow>
           act_bind (lift_io (GenerateRevocationList (env_ssh env) (app_keysigner a) certs)) (\<lambda>rl.
             case rl of
               Inl err \<Rightarrow>
                 act_bind (WriteHeader 500) (\<lambda>_. Write (BText (''unable to generate KRL: '' @ error_text err)))
             | Inr rl \<Rightarrow>
                 act_bind (Header_Set ''Content-Type'' ''application/octet-stream'') (\<lambda>_. Write (BBytes rl))))"

definition getAllCerts :: "('k, 'ca, 's) server_env \<Rightarrow> request \<Rightarrow> ('s, unit) act" where
  "getAllCerts env r =
     act_bind (Header_Set ''X-CSRF-Token'' (csrf_Token env r)) (\<lambda>_. Write BCertsPage)"

definition error_page :: "('s, unit) act" where
  "error_page = act_bind (WriteHeader 500) (\<lambda>_. Write (BText (StatusText 500)))"

definition getCertsJSON :: "('k, 'ca, 's) server_env \<Rightarrow> ('k, 'ca, 's) application \<Rightarrow> request \<Rightarrow> ('s, unit) act" where
  "getCertsJSON env a r =
     (let includeExpired = ParseBool (values_Get (r_Query r) ''all'')
      in act_bind (on_store (store_List (app_certstore a) includeExpired)) (\<lambda>res.
           case res of
             Inl err \<Rightarrow> error_page
           | Inr certs \<Rightarrow>
               act_bind (Encode (net_Write env) (BCertsJSON certs)) (\<lambda>err.
                 case err of Some e \<Rightarrow> error_page | None \<Rightarrow> act_ret ())))"

definition revoke :: "('k, 'ca, 's) application \<Rightarrow> request \<Rightarrow> ('s, unit) act" where
  "revoke a r =
     act_bind (on_store (store_Revoke (app_certstore a) (form_all r ''cert_id''))) (\<lambda>err.
       case err of
         Some e \<Rightarrow> act_bind (WriteHeader 500) (\<lambda>_. Write (BText ''Unable to revoke certs''))
       | None \<Rightarrow> http_Redirect r ''/admin/certs'' 303)"

section \<open>Routes\<close>

definition on_path :: "string \<Rightarrow> string \<Rightarrow> handler \<Rightarrow> route" where
  "on_path mth pth hn = \<lparr>route_method = Some mth, route_path = pth, route_prefix = False, route_handler = hn\<rparr>"

definition setupRoutes :: "route list" where
  "setupRoutes =
     [on_path ''GET'' ''/'' (Authed HIndex),
      on_path ''POST'' ''/admin/revoke'' (Authed (Csrf HRevoke)),
      on_path ''GET'' ''/admin/certs'' (Authed (Csrf HAllCerts)),
      on_path ''GET'' ''/admin/certs.json'' (Authed HCertsJSON),
      on_path ''GET'' ''/auth/login'' HAuth,
      on_path ''GET'' ''/auth/callback'' HAuth,
      on_path ''GET'' ''/revoked'' HRevoked,
      on_path ''POST'' ''/sign'' HSign,
      on_path ''GET'' ''/healthcheck'' HHealthcheck,
      on_path ''GET'' ''/metrics'' HMetrics,
      \<lparr>route_method = None, route_path = ''/static/'', route_prefix = True, route_handler = HStatic\<rparr>]"

fun serve_handler ::
  "('k, 'ca, 's) server_env \<Rightarrow> ('k, 'ca, 's) application \<Rightarrow> request \<Rightarrow> handler \<Rightarrow> ('s, unit) act" where
  "serve_handler env a r HIndex = index env r"
| "serve_handler env a r HRevoke = revoke a r"
| "serve_handler env a r HAllCerts = getAllCerts env r"
| "serve_handler env a r HCertsJSON = getCertsJSON env a r"
| "serve_handler env a r HAuth = auth env a r"
| "serve_handler env a r HRevoked = revoked env a"
| "serve_handler env a r HSign = sign env a r"
| "serve_handler env a r HHealthcheck = act_bind (WriteHeader 200) (\<lambda>_. Write (BText ''ok''))"
| "serve_handler env a r HMetrics = Write (BOther (metrics_page env r))"
| "serve_handler env a r HStatic = Write (BOther (static_page env r))"
| "serve_handler env a r (Authed hn) = authed env a r (serve_handler env a r hn)"
| "serve_handler env a r (Csrf hn) = csrf_Protect env (app_config a) r (serve_handler env a r hn)"

definition mwVersion :: "('k, 'ca, 's) server_env \<Rightarrow> ('s, unit) act \<Rightarrow> ('s, unit) act" where
  "mwVersion env next = act_bind (Header_Set ''X-Cashier-Version'' (lib_Version env)) (\<lambda>_. next)"

text \<open>
  A request: the router finds the handler, and the middlewares are put around it (the compressing one changes only the
  encoding of the body). Without a matching route the router answers itself.
\<close>

definition serve :: "('k, 'ca, 's) server_env \<Rightarrow> ('k, 'ca, 's) application \<Rightarrow> request \<Rightarrow> 's \<Rightarrow> world
     \<Rightarrow> unit outcome \<times> 's hstate \<times> world" where
  "serve env a r s w =
     (let h = \<lparr>hs_store = s, hs_session = r_Session r, hs_resp = new_response\<rparr>
      in case mux env setupRoutes r of
           Inl code \<Rightarrow> WriteHeader code h w
         | Inr hn \<Rightarrow> mwVersion env (recovery env (serve_handler env a r hn)) h w)"

end
