(* ===== verification/Auth_Github.thy ===== *)
theory Auth_Github
  imports Auth_Types
begin

text \<open>
  \<^verbatim>\<open>server/auth/github/github.go\<close>. The GitHub API package is a parameter: \<open>Users_Get\<close> answers the login of the
  token's user (\<open>None\<close> is a user without one) and \<open>IsMember\<close> whether a user is in an organization.
\<close>

section \<open>The provider\<close>

record github_api =
  ScopeUser :: string
  ScopeReadOrg :: string
  Users_Get :: "nat \<Rightarrow> oauth2_Config \<Rightarrow> Token \<Rightarrow> error + string option"
  IsMember :: "nat \<Rightarrow> oauth2_Config \<Rightarrow> Token \<Rightarrow> string \<Rightarrow> string \<Rightarrow> error + bool"

record github_Config =
  gh_config :: oauth2_Config
  gh_organization :: string
  gh_whitelist :: "bool gomap"

definition github_New :: "oauth2_api \<Rightarrow> github_api \<Rightarrow> Auth \<Rightarrow> error + github_Config" where
  "github_New api gh c =
     (let uw = bool_map (UsersWhitelist c)
      in if map_get (ProviderOpts c) ''organization'' = '''' \<and> length uw = 0
         then Inl (ENew ''either GitHub organization or users whitelist must be specified'')
         else Inr
           \<lparr>gh_config =
              \<lparr>ClientID = OauthClientID c, ClientSecret = OauthClientSecret c,
               RedirectURL = OauthCallbackURL c, oauth2_Endpoint = github_Endpoint api,
               Scopes = [ScopeUser gh, ScopeReadOrg gh]\<rparr>,
            gh_organization = map_get (ProviderOpts c) ''organization'',
            gh_whitelist = uw\<rparr>)"

definition github_Name :: string where
  "github_Name = ''github''"

definition github_Username :: "github_api \<Rightarrow> github_Config \<Rightarrow> Token \<Rightarrow> string io" where
  "github_Username gh c t =
     bind_io (remote (\<lambda>n. Users_Get gh n (gh_config c) t)) (\<lambda>r.
       case r of
         Inl e \<Rightarrow> ret ''''
       | Inr None \<Rightarrow> throw
       | Inr (Some login) \<Rightarrow> ret login)"

definition github_Valid ::
  "oauth2_api \<Rightarrow> github_api \<Rightarrow> (nat \<Rightarrow> time) \<Rightarrow> github_Config \<Rightarrow> Token \<Rightarrow> bool io" where
  "github_Valid api gh clk c t =
     bind_io (not_whitelisted (gh_whitelist c) (github_Username gh c t)) (\<lambda>denied.
       if denied then ret False
       else bind_io (token_Valid api clk t) (\<lambda>ok.
         if \<not> ok then ret False
         else if gh_organization c = '''' then bind_io (incAuthValid ''github'') (\<lambda>_. ret True)
         else bind_io (github_Username gh c t) (\<lambda>u.
           bind_io (remote (\<lambda>n. IsMember gh n (gh_config c) t (gh_organization c) u)) (\<lambda>r.
             case r of
               Inl e \<Rightarrow> ret False
             | Inr member \<Rightarrow>
                 bind_io (if member then incAuthValid ''github'' else ret ()) (\<lambda>_. ret member)))))"

definition github_Revoke :: "Token \<Rightarrow> error option io" where
  "github_Revoke t = ret None"

definition github_StartSession :: "oauth2_api \<Rightarrow> github_Config \<Rightarrow> string \<Rightarrow> string" where
  "github_StartSession api c state = AuthCodeURL api (gh_config c) state []"

definition github_Exchange ::
  "oauth2_api \<Rightarrow> (nat \<Rightarrow> time) \<Rightarrow> github_Config \<Rightarrow> string \<Rightarrow> (error + Token) io" where
  "github_Exchange api clk c code =
     bind_io (remote (\<lambda>n. oauth2_Exchange api n (gh_config c) code)) (\<lambda>r.
       case r of
         Inl e \<Rightarrow> ret (Inl e)
       | Inr t \<Rightarrow>
           bind_io (if Unix (Expiry t) \<le> 0
                    then bind_io (Now clk) (\<lambda>now. ret (t\<lparr>Expiry := Add now Hour\<rparr>))
                    else ret t) (\<lambda>t.
           bind_io (incAuthExchange ''github'') (\<lambda>_. ret (Inr t))))"

definition github_provider :: "oauth2_api \<Rightarrow> github_api \<Rightarrow> (nat \<Rightarrow> time) \<Rightarrow> github_Config \<Rightarrow> Provider" where
  "github_provider api gh clk c =
     \<lparr>prov_Name = github_Name, prov_StartSession = github_StartSession api c,
      prov_Exchange = github_Exchange api clk c, prov_Username = github_Username gh c,
      prov_Valid = github_Valid api gh clk c, prov_Revoke = github_Revoke\<rparr>"

section \<open>The contract\<close>

lemma github_Username_quiet [simp]: "quiet (github_Username gh c t)"
  by (auto simp: github_Username_def split: sum.split option.split)

text \<open>What a request for the login answers as a user name; \<open>None\<close> is the nil dereference.\<close>

definition login_at :: "github_api \<Rightarrow> oauth2_Config \<Rightarrow> Token \<Rightarrow> nat \<Rightarrow> string option" where
  "login_at gh conf t n = (case Users_Get gh n conf t of Inl _ \<Rightarrow> Some '''' | Inr l \<Rightarrow> l)"

lemma github_Username_eq:
  "github_Username gh c t w =
     ((case login_at gh (gh_config c) t (calls w) of None \<Rightarrow> Panic | Some u \<Rightarrow> Return u),
      w\<lparr>calls := Suc (calls w)\<rparr>)"
  by (simp add: github_Username_def login_at_def io_defs split: sum.split option.split)

lemma github_Valid_TrueD:
  assumes "github_Valid api gh clk c t w = (Return True, w')"
  shows "TokenValid api (clk (ticks w)) t" and "ticks w' = Suc (ticks w)"
    and "AuthValid w' = (AuthValid w)(''github'' := Suc (AuthValid w ''github''))"
    and "AuthExchange w' = AuthExchange w"
  using assms
  by (auto simp: github_Valid_def not_whitelisted_def token_Valid_def github_Username_eq io_defs
      split: if_splits option.splits sum.splits)

lemma github_Exchange_InrD:
  assumes "github_Exchange api clk c code w = (Return (Inr t), w')"
  shows "AuthExchange w' = (AuthExchange w)(''github'' := Suc (AuthExchange w ''github''))"
    and "AuthValid w' = AuthValid w"
  using assms by (auto simp: github_Exchange_def io_defs split: if_splits sum.splits)

interpretation github: token_provider "github_provider api gh clk c" api clk
  for api gh clk c
proof (unfold_locales, goal_cases)
  case (1 t)
  show ?case by (simp add: github_provider_def)
next
  case (2 t)
  show ?case by (simp add: github_provider_def github_Revoke_def)
next
  case (3 t)
  show ?case
    by (auto simp: github_provider_def github_Valid_def quiet_later split: sum.split)
next
  case (4 code)
  show ?case by (auto simp: github_provider_def github_Exchange_def split: sum.split)
next
  case (5 t w w')
  then have "github_Valid api gh clk c t w = (Return True, w')" by (simp add: github_provider_def)
  from github_Valid_TrueD [OF this] show ?case
    by (auto simp: github_provider_def github_Name_def)
next
  case (6 code w t w')
  then have "github_Exchange api clk c code w = (Return (Inr t), w')" by (simp add: github_provider_def)
  from github_Exchange_InrD [OF this] show ?case by (simp add: github_provider_def github_Name_def)
qed

section \<open>Properties\<close>

definition wgh :: github_api where
  "wgh = \<lparr>ScopeUser = ''user'', ScopeReadOrg = ''read:org'', Users_Get = (\<lambda>n c t. Inr (Some ''alice'')),
          IsMember = (\<lambda>n c t org u. Inr (org = ''acme'' \<and> u = ''alice''))\<rparr>"

definition wauth :: Auth where
  "wauth = \<lparr>OauthClientID = ''cid'', OauthClientSecret = ''sec'', OauthCallbackURL = ''https://ca/auth/callback'',
            auth_Provider = ''github'', ProviderOpts = [(''organization'', ''acme'')], UsersWhitelist = [''alice'', ''bob'']\<rparr>"

lemmas wauth_defs = wgh_def wapi_def wauth_def wtoken_def world0_def

text \<open>
  C26: every configuration that New accepts restricts access, and Valid accepts a token exactly when the login that GitHub
  answers for it is on a non-empty whitelist, the token is valid, and GitHub says the login (asked for again)
  is a member of a configured organization.
\<close>

theorem github_Valid_policy:
  assumes "github_New api gh c = Inr g"
  shows "(UsersWhitelist c \<noteq> [] \<or> map_get (ProviderOpts c) ''organization'' \<noteq> '''')
    \<and> (fst (github_Valid api gh clk g t w) = Return True \<longleftrightarrow>
        (let org = map_get (ProviderOpts c) ''organization''; k = calls w;
             k' = (if UsersWhitelist c = [] then k else Suc k)
         in (UsersWhitelist c = [] \<or> (\<exists>u \<in> set (UsersWhitelist c). login_at gh (gh_config g) t k = Some u))
            \<and> TokenValid api (clk (ticks w)) t
            \<and> (org = '''' \<or> (\<exists>u. login_at gh (gh_config g) t k' = Some u \<and>
                 IsMember gh (Suc k') (gh_config g) t org u = Inr True))))"
proof -
  from assms have g: "gh_whitelist g = bool_map (UsersWhitelist c)"
      "gh_organization g = map_get (ProviderOpts c) ''organization''"
    and some: "UsersWhitelist c \<noteq> [] \<or> map_get (ProviderOpts c) ''organization'' \<noteq> ''''"
    by (auto simp: github_New_def Let_def split: if_splits)
  have "fst (github_Valid api gh clk g t w) = Return True \<longleftrightarrow>
      (gh_whitelist g = [] \<or> (\<exists>u. login_at gh (gh_config g) t (calls w) = Some u \<and> map_is (gh_whitelist g) u))
      \<and> TokenValid api (clk (ticks w)) t
      \<and> (gh_organization g = '''' \<or> (\<exists>u.
          login_at gh (gh_config g) t (if gh_whitelist g = [] then calls w else Suc (calls w)) = Some u \<and>
          IsMember gh (Suc (if gh_whitelist g = [] then calls w else Suc (calls w))) (gh_config g) t (gh_organization g) u = Inr True))"
    by (auto simp: github_Valid_def not_whitelisted_def token_Valid_def github_Username_eq io_defs
        split: option.split sum.split)
  with some show ?thesis unfolding g Let_def by auto
qed

theorem github_Valid_policy_witness:
  "\<exists>g. github_New wapi wgh wauth = Inr g \<and> fst (github_Valid wapi wgh (\<lambda>_. 50) g wtoken world0) = Return True"
proof -
  obtain g where "github_New wapi wgh wauth = Inr g"
    by (simp add: github_New_def wauth_def map_get_def bool_map_def)
  with github_Valid_policy [OF this, of "\<lambda>_. 50" wtoken world0] show ?thesis
    by (simp add: wauth_defs login_at_def map_get_def Let_def)
qed

text \<open>
  A token obtained by Exchange always has an expiry after the epoch when the clock is, so a GitHub session, whose
  tokens have none, ends an hour after the login; the exchange is counted once.
\<close>

theorem github_Exchange_expiry:
  assumes "github_Exchange api clk c code w = (Return (Inr t), w')" and "0 \<le> clk (ticks w)"
    and "\<forall>n t0. oauth2_Exchange api n (gh_config c) code = Inr t0 \<longrightarrow> representable (Expiry t0)"
  shows "0 < Expiry t \<and> AuthExchange w' ''github'' = Suc (AuthExchange w ''github'')
    \<and> (\<exists>t0. oauth2_Exchange api (calls w) (gh_config c) code = Inr t0 \<and> AccessToken t = AccessToken t0
        \<and> Expiry t = (if Unix (Expiry t0) \<le> 0 then clk (ticks w) + Hour else Expiry t0))"
proof -
  from assms(1) obtain t0 where t0: "oauth2_Exchange api (calls w) (gh_config c) code = Inr t0"
    by (auto simp: github_Exchange_def io_defs split: sum.splits)
  have e: "Expiry t = (if Unix (Expiry t0) \<le> 0 then clk (ticks w) + Hour else Expiry t0)"
      "AccessToken t = AccessToken t0"
    using assms(1) t0 by (auto simp: github_Exchange_def io_defs Add_def split: if_splits)
  have "0 < Expiry t"
  proof (cases "Unix (Expiry t0) \<le> 0")
    case True
    with e assms(2) show ?thesis by (simp add: Hour_def nano_def)
  next
    case False
    from assms(3) t0 have "representable (Expiry t0)" by blast
    with False have "0 < Expiry t0 div nano" by (simp add: Unix_representable)
    then have "0 < Expiry t0" by (simp add: nano_def pos_imp_zdiv_pos_iff)
    with e False show ?thesis by simp
  qed
  with t0 e github_Exchange_InrD [OF assms(1)] show ?thesis by auto
qed

theorem github_Exchange_expiry_witness:
  "\<exists>g t w'. github_New wapi wgh wauth = Inr g \<and> github_Exchange wapi (\<lambda>_. 50) g ''good'' world0 = (Return (Inr t), w')
     \<and> 0 < Expiry t"
proof -
  obtain g where g: "github_New wapi wgh wauth = Inr g"
    by (simp add: github_New_def wauth_def map_get_def bool_map_def)
  have z: "Unix zero_time \<le> 0" "representable zero_time"
    by (simp_all add: Unix_def zero_time_def nano_def unixToInternal_def wrap64_def representable_def fits64_def)
  obtain t w' where x: "github_Exchange wapi (\<lambda>_. 50) g ''good'' world0 = (Return (Inr t), w')"
    by (simp add: github_Exchange_def io_defs wapi_def empty_Token_def z)
  have "0 < Expiry t"
    using github_Exchange_expiry [OF x] z(2) by (simp add: wapi_def empty_Token_def)
  with g x show ?thesis by blast
qed

end
