(* ===== verification/Store_Mem.thy ===== *)
theory Store_Mem
  imports Store_Record "HOL-Library.Multiset"
begin

text \<open>
  \<^verbatim>\<open>server/store/mem.go\<close>: the in-memory store. Every operation runs under the store's mutex, so
  each is one atomic step. A Go map holds pointers to records; no caller changes a record after
  \<^verbatim>\<open>SetRecord\<close>, so the map is modelled with the records as its values. \<open>certs = None\<close> is
  the nil map that \<^verbatim>\<open>Close\<close> leaves behind: reading it finds nothing, writing to it panics.
\<close>

section \<open>The order of a range loop\<close>

text \<open>
  The order in which \<^verbatim>\<open>range\<close> visits a map is chosen by the runtime. It is drawn anew for every
  loop: \<open>picks n\<close> says which of the \<open>n\<close> entries left is visited next.
\<close>

lemma rest_shorter: "xs \<noteq> [] \<Longrightarrow> i mod length xs + (length xs - Suc (i mod length xs)) < length xs"
  using mod_less_divisor [of "length xs" i] by (simp del: mod_less_divisor)

function range_order :: "(nat \<Rightarrow> nat) \<Rightarrow> 'a list \<Rightarrow> 'a list" where
  "range_order picks xs =
     (if xs = [] then []
      else let i = picks (length xs) mod length xs
           in xs ! i # range_order picks (take i xs @ drop (Suc i) xs))"
  by pat_completeness auto
termination
  by (relation "measure (\<lambda>(picks, xs). length xs)") (auto simp: min_def not_le rest_shorter)

declare range_order.simps [simp del]

lemma mset_range_order [simp]: "mset (range_order picks xs) = mset xs"
proof (induction picks xs rule: range_order.induct)
  case (1 picks xs)
  show ?case
  proof (cases "xs = []")
    case True
    then show ?thesis by (subst range_order.simps) simp
  next
    case False
    let ?i = "picks (length xs) mod length xs"
    from False have i: "?i < length xs" by simp
    have "mset (range_order picks xs) = add_mset (xs ! ?i) (mset (take ?i xs @ drop (Suc ?i) xs))"
      using False 1 by (subst range_order.simps) (simp add: Let_def)
    also have "\<dots> = mset (take ?i xs @ xs ! ?i # drop (Suc ?i) xs)" by simp
    also have "\<dots> = mset xs" using i by (simp only: id_take_nth_drop [symmetric])
    finally show ?thesis .
  qed
qed

lemma set_range_order [simp]: "set (range_order picks xs) = set xs"
  by (metis mset_range_order set_mset_mset)

section \<open>State and operations\<close>

record memoryStore =
  certs :: "CertRecord gomap option"

definition entries :: "memoryStore \<Rightarrow> CertRecord gomap" where
  "entries ms = (case certs ms of None \<Rightarrow> [] | Some m \<Rightarrow> m)"

definition newMemoryStore :: memoryStore where
  "newMemoryStore = \<lparr>certs = Some []\<rparr>"

definition memoryStore_Get :: "string \<Rightarrow> (memoryStore, error + CertRecord) store_op" where
  "memoryStore_Get certid ms w =
     (case map_of (entries ms) certid of
        None \<Rightarrow> (Return (Inl (ENew (''unknown cert '' @ certid))), ms, w)
      | Some r \<Rightarrow> (Return (Inr r), ms, w))"

definition memoryStore_SetRecord :: "CertRecord \<Rightarrow> (memoryStore, error option) store_op" where
  "memoryStore_SetRecord record ms w =
     (case certs ms of
        None \<Rightarrow> (Panic, ms, w)
      | Some m \<Rightarrow> (Return None, ms\<lparr>certs := Some (AList.update (rec_KeyID record) record m)\<rparr>, w))"

text \<open>The loop of \<^verbatim>\<open>List\<close>; the clock is read once for every record it has to compare.\<close>

fun list_loop :: "(nat \<Rightarrow> time) \<Rightarrow> bool \<Rightarrow> CertRecord gomap \<Rightarrow> CertRecord list io" where
  "list_loop clk includeExpired [] = ret []"
| "list_loop clk includeExpired ((k, value) # rest) =
     bind_io (if includeExpired then ret False
              else bind_io (Now clk) (\<lambda>now. ret (Before (rec_Expires value) now)))
       (\<lambda>skip. bind_io (list_loop clk includeExpired rest)
         (\<lambda>records. ret (if skip then records else value # records)))"

definition memoryStore_List ::
  "(nat \<Rightarrow> time) \<Rightarrow> (nat \<Rightarrow> nat \<Rightarrow> nat) \<Rightarrow> bool \<Rightarrow> (memoryStore, error + CertRecord list) store_op" where
  "memoryStore_List clk order includeExpired ms w =
     (case bind_io (draw order) (\<lambda>picks. list_loop clk includeExpired (range_order picks (entries ms))) w of
        (Return rs, w') \<Rightarrow> (Return (Inr rs), ms, w')
      | (Panic, w') \<Rightarrow> (Panic, ms, w'))"

text \<open>
  The loop of \<^verbatim>\<open>Revoke\<close>: \<^verbatim>\<open>ms.certs[id].Revoked = true\<close> dereferences a nil pointer when the id is
  not in the map. The records revoked before that stay revoked.
\<close>

fun revoke_loop :: "CertRecord gomap \<Rightarrow> string list \<Rightarrow> unit outcome \<times> CertRecord gomap" where
  "revoke_loop m [] = (Return (), m)"
| "revoke_loop m (i # ids) =
     (case map_of m i of
        None \<Rightarrow> (Panic, m)
      | Some r \<Rightarrow> revoke_loop (AList.update i (r\<lparr>rec_Revoked := True\<rparr>) m) ids)"

definition memoryStore_Revoke :: "string list \<Rightarrow> (memoryStore, error option) store_op" where
  "memoryStore_Revoke ids ms w =
     (case certs ms of
        None \<Rightarrow> (if ids = [] then Return None else Panic, ms, w)
      | Some m \<Rightarrow>
          (case revoke_loop m ids of
             (Return _, m') \<Rightarrow> (Return None, ms\<lparr>certs := Some m'\<rparr>, w)
           | (Panic, m') \<Rightarrow> (Panic, ms\<lparr>certs := Some m'\<rparr>, w)))"

definition memoryStore_GetRevoked ::
  "(nat \<Rightarrow> time) \<Rightarrow> (nat \<Rightarrow> nat \<Rightarrow> nat) \<Rightarrow> (memoryStore, error + CertRecord list) store_op" where
  "memoryStore_GetRevoked clk order ms w =
     (case memoryStore_List clk order False ms w of
        (Return (Inr all), ms', w') \<Rightarrow> (Return (Inr (filter rec_Revoked all)), ms', w')
      | (Return (Inl _), ms', w') \<Rightarrow> (Return (Inr []), ms', w')
      | (Panic, ms', w') \<Rightarrow> (Panic, ms', w'))"

definition memoryStore_Close :: "(memoryStore, error option) store_op" where
  "memoryStore_Close ms w = (Return None, ms\<lparr>certs := None\<rparr>, w)"

text \<open>\<^verbatim>\<open>var _ CertStorer = (*memoryStore)(nil)\<close>\<close>

definition memoryStorer :: "(nat \<Rightarrow> time) \<Rightarrow> (nat \<Rightarrow> nat \<Rightarrow> nat) \<Rightarrow> memoryStore CertStorer" where
  "memoryStorer clk order =
     \<lparr>store_Get = memoryStore_Get,
      store_SetRecord = memoryStore_SetRecord,
      store_List = memoryStore_List clk order,
      store_Revoke = memoryStore_Revoke,
      store_GetRevoked = memoryStore_GetRevoked clk order,
      store_Close = memoryStore_Close\<rparr>"

declare memoryStore_Get_def [store_simps] memoryStore_SetRecord_def [store_simps]
  memoryStore_Revoke_def [store_simps] memoryStore_Close_def [store_simps]
  memoryStorer_def [store_simps] newMemoryStore_def [store_simps] entries_def [store_simps]

section \<open>Invariant and abstraction\<close>

definition keyed :: "CertRecord gomap \<Rightarrow> bool" where
  "keyed m \<longleftrightarrow> wf_map m \<and> list_all (\<lambda>(k, r). rec_KeyID r = k) m"

definition mem_inv :: "memoryStore \<Rightarrow> bool" where
  "mem_inv ms \<longleftrightarrow> keyed (entries ms)"

definition mem_open :: "memoryStore \<Rightarrow> bool" where
  "mem_open ms \<longleftrightarrow> certs ms \<noteq> None"

definition mem_ledger :: "memoryStore \<Rightarrow> ledger" where
  "mem_ledger ms = (\<lambda>k. map_option norm_rec (map_of (entries ms) k))"

lemma keyed_iff: "keyed m \<longleftrightarrow> wf_map m \<and> (\<forall>k r. map_of m k = Some r \<longrightarrow> rec_KeyID r = k)"
  unfolding keyed_def wf_map_def list_all_iff
  by (auto simp: map_of_eq_Some_iff dest: map_of_SomeD)

lemma keyed_Nil [simp]: "keyed []"
  by (simp add: keyed_def)

lemma keyed_update [simp]: "keyed m \<Longrightarrow> rec_KeyID r = k \<Longrightarrow> keyed (AList.update k r m)"
  by (auto simp: keyed_iff update_conv' split: if_splits)

lemma keyed_mark:
  assumes "keyed m" and "map_of m i = Some r"
  shows "keyed (AList.update i (r\<lparr>rec_Revoked := b\<rparr>) m)"
  using assms(1) by (rule keyed_update) (use assms in \<open>simp add: keyed_iff\<close>)

lemma ran_mem_ledger:
  assumes "wf_map (entries ms)"
  shows "ran (mem_ledger ms) = norm_rec ` snd ` set (entries ms)"
proof -
  have "ran (mem_ledger ms) = norm_rec ` ran (map_of (entries ms))"
    unfolding mem_ledger_def by (rule ran_map_option)
  also have "ran (map_of (entries ms)) = snd ` set (entries ms)"
    using assms by (simp add: wf_map_def ran_distinct)
  finally show ?thesis .
qed

lemma keyed_distinct_KeyIDs:
  assumes "keyed m"
  shows "distinct (map rec_KeyID (map snd m))"
proof -
  from assms have "map rec_KeyID (map snd m) = map fst m"
    by (auto simp: keyed_def list_all_iff)
  with assms show ?thesis by (simp only: keyed_def wf_map_def)
qed

section \<open>The loops\<close>

lemma list_loop_all: "list_loop clk True es w = (Return (map snd es), w)"
  by (induction es arbitrary: w) (auto simp: io_defs split: prod.splits)

text \<open>
  The listing without expired records: the entry at position \<open>j\<close> is compared with the
  clock reading number \<open>j\<close> of the loop.
\<close>

fun current_at :: "(nat \<Rightarrow> time) \<Rightarrow> nat \<Rightarrow> CertRecord gomap \<Rightarrow> CertRecord list" where
  "current_at clk n [] = []"
| "current_at clk n (e # es) =
     (if Before (rec_Expires (snd e)) (clk n) then current_at clk (Suc n) es
      else snd e # current_at clk (Suc n) es)"

lemma list_loop_current:
  "list_loop clk False es w =
     (Return (current_at clk (ticks w) es), w\<lparr>ticks := ticks w + length es\<rparr>)"
proof (induction es arbitrary: w)
  case Nil
  then show ?case by (simp add: ret_def)
next
  case (Cons e es)
  then show ?case by (cases e) (simp add: io_defs)
qed

lemma current_at_iff:
  "r \<in> set (current_at clk n es) \<longleftrightarrow>
     (\<exists>j < length es. r = snd (es ! j) \<and> \<not> Before (rec_Expires r) (clk (n + j)))"
proof (induction es arbitrary: n)
  case Nil
  then show ?case by simp
next
  case (Cons e es)
  have "(\<exists>j < length (e # es). r = snd ((e # es) ! j) \<and> \<not> Before (rec_Expires r) (clk (n + j))) \<longleftrightarrow>
      r = snd e \<and> \<not> Before (rec_Expires r) (clk n) \<or>
      (\<exists>j < length es. r = snd (es ! j) \<and> \<not> Before (rec_Expires r) (clk (Suc n + j)))"
    by (simp add: Ex_less_Suc2)
  with Cons [of "Suc n"] show ?case by auto
qed

lemma distinct_current_at:
  "distinct (map (rec_KeyID \<circ> snd) es) \<Longrightarrow> distinct (map rec_KeyID (current_at clk n es))"
proof (induction es arbitrary: n)
  case Nil
  then show ?case by simp
next
  case (Cons e es)
  have "rec_KeyID ` set (current_at clk m es) \<subseteq> (rec_KeyID \<circ> snd) ` set es" for m
    by (auto simp: current_at_iff)
  with Cons show ?case by auto
qed

lemma current_at_nth:
  assumes "distinct (map (rec_KeyID \<circ> snd) es)" and "j < length es"
  shows "norm_rec (snd (es ! j)) \<in> norm_rec ` set (current_at clk n es)
     \<longleftrightarrow> \<not> Before (rec_Expires (snd (es ! j))) (clk (n + j))"
proof
  assume "norm_rec (snd (es ! j)) \<in> norm_rec ` set (current_at clk n es)"
  then obtain r where r: "norm_rec (snd (es ! j)) = norm_rec r" and c: "r \<in> set (current_at clk n es)"
    by (rule imageE)
  from c obtain i where i: "i < length es" "r = snd (es ! i)" "\<not> Before (rec_Expires r) (clk (n + i))"
    unfolding current_at_iff by (elim exE conjE)
  from r have "rec_KeyID (norm_rec (snd (es ! j))) = rec_KeyID (norm_rec r)" by (rule arg_cong)
  then have "map (rec_KeyID \<circ> snd) es ! i = map (rec_KeyID \<circ> snd) es ! j"
    using i(1,2) assms(2) by simp
  then have "i = j" using nth_eq_iff_index_eq [OF assms(1)] i(1) assms(2) by simp
  with i show "\<not> Before (rec_Expires (snd (es ! j))) (clk (n + j))" by simp
next
  assume "\<not> Before (rec_Expires (snd (es ! j))) (clk (n + j))"
  with assms(2) have "snd (es ! j) \<in> set (current_at clk n es)"
    by (auto simp: current_at_iff)
  then show "norm_rec (snd (es ! j)) \<in> norm_rec ` set (current_at clk n es)" by (rule imageI)
qed

lemma revoke_loop_ok:
  assumes "set ids \<subseteq> dom (map_of m)"
  shows "\<exists>m'. revoke_loop m ids = (Return (), m') \<and> (keyed m \<longrightarrow> keyed m') \<and>
     (\<lambda>k. map_option norm_rec (map_of m' k)) = led_revoke (\<lambda>k. map_option norm_rec (map_of m k)) ids"
  using assms
proof (induction ids arbitrary: m)
  case Nil
  then show ?case by simp
next
  case (Cons i ids)
  then obtain r where r: "map_of m i = Some r" by auto
  let ?m = "AList.update i (r\<lparr>rec_Revoked := True\<rparr>) m"
  from Cons.prems have "set ids \<subseteq> dom (map_of ?m)" by (auto simp: update_conv')
  from Cons.IH [OF this] obtain m' where m': "revoke_loop ?m ids = (Return (), m')"
      "keyed ?m \<longrightarrow> keyed m'"
      "(\<lambda>k. map_option norm_rec (map_of m' k)) = led_revoke (\<lambda>k. map_option norm_rec (map_of ?m k)) ids"
    by blast
  have step: "(\<lambda>k. map_option norm_rec (map_of ?m k)) = led_revoke (\<lambda>k. map_option norm_rec (map_of m k)) [i]"
    by (rule ext) (simp add: update_conv' led_revoke_def r)
  have "keyed m \<longrightarrow> keyed ?m" using r by (blast intro: keyed_mark)
  with m' r step show ?case by (simp add: led_revoke_Cons)
qed

lemma revoke_loop_unknown:
  assumes "i \<in> set ids" and "i \<notin> dom (map_of m)"
  shows "fst (revoke_loop m ids) = Panic"
  using assms
proof (induction ids arbitrary: m)
  case Nil
  then show ?case by simp
next
  case (Cons j ids)
  show ?case
  proof (cases "map_of m j")
    case None
    then show ?thesis by simp
  next
    case (Some r)
    with Cons.prems have "i \<in> set ids" and "i \<notin> dom (map_of (AList.update j (r\<lparr>rec_Revoked := True\<rparr>) m))"
      by (auto simp: update_conv')
    with Cons.IH Some show ?thesis by simp
  qed
qed

lemma revoke_loop_keyed: "keyed m \<Longrightarrow> keyed (snd (revoke_loop m ids))"
proof (induction ids arbitrary: m)
  case Nil
  then show ?case by simp
next
  case (Cons i ids)
  then show ?case
    by (cases "map_of m i") (simp_all add: keyed_mark)
qed

section \<open>Every operation keeps the invariant\<close>

lemma mem_inv_new: "mem_inv newMemoryStore" and mem_open_new: "mem_open newMemoryStore"
  by (simp_all add: mem_inv_def mem_open_def store_simps)

lemma mem_SetRecord_inv:
  "mem_inv ms \<Longrightarrow> mem_inv (fst (snd (memoryStore_SetRecord r ms w)))"
  by (auto simp: mem_inv_def store_simps split: option.splits)

lemma mem_Revoke_inv:
  "mem_inv ms \<Longrightarrow> mem_inv (fst (snd (memoryStore_Revoke ids ms w)))"
  using revoke_loop_keyed [of "entries ms" ids]
  by (auto simp: mem_inv_def store_simps split: option.splits prod.splits outcome.splits)

lemma mem_Close_inv: "mem_inv (fst (snd (memoryStore_Close ms w)))"
  by (simp add: mem_inv_def memoryStore_Close_def entries_def keyed_def wf_map_def)

lemma mem_List_eq:
  "memoryStore_List clk order b ms w =
     (case list_loop clk b (range_order (order (rands w)) (entries ms)) (w\<lparr>rands := Suc (rands w)\<rparr>) of
        (Return rs, w') \<Rightarrow> (Return (Inr rs), ms, w') | (Panic, w') \<Rightarrow> (Panic, ms, w'))"
  by (simp add: memoryStore_List_def bind_io_def draw_def)

lemma mem_List_all:
  "memoryStore_List clk order True ms w =
     (Return (Inr (map snd (range_order (order (rands w)) (entries ms)))), ms, w\<lparr>rands := Suc (rands w)\<rparr>)"
  by (simp add: mem_List_eq list_loop_all)

lemma distinct_keyed_range:
  assumes "keyed m"
  shows "distinct (map rec_KeyID (map snd (range_order picks m)))"
proof -
  have "mset (map rec_KeyID (map snd (range_order picks m))) = mset (map rec_KeyID (map snd m))"
    by (simp only: mset_map mset_range_order)
  with keyed_distinct_KeyIDs [OF assms] show ?thesis
    by (metis mset_eq_imp_distinct_iff)
qed

text \<open>A listing of the current records, with the reading each entry was compared with.\<close>

lemma mem_List_current:
  assumes "mem_inv ms"
  obtains rs w' where "memoryStore_List clk order False ms w = (Return (Inr rs), ms, w')"
    and "listed_at clk w w' (mem_ledger ms) (\<lambda>_. True) rs" and "distinct (map rec_KeyID rs)"
proof -
  define es where "es = range_order (order (rands w)) (entries ms)"
  let ?rs = "current_at clk (ticks w) es"
  let ?w' = "w\<lparr>rands := Suc (rands w), ticks := ticks w + length es\<rparr>"
  have eq: "memoryStore_List clk order False ms w = (Return (Inr ?rs), ms, ?w')"
    by (simp add: mem_List_eq list_loop_current es_def)
  from assms have k: "keyed (entries ms)" by (simp add: mem_inv_def)
  have d: "distinct (map (rec_KeyID \<circ> snd) es)"
    using distinct_keyed_range [OF k, of "order (rands w)"] by (simp add: es_def)
  have dist: "distinct (map rec_KeyID ?rs)"
    using d by (rule distinct_current_at)
  have ran: "ran (mem_ledger ms) = norm_rec ` snd ` set es"
    using k by (simp add: ran_mem_ledger keyed_def es_def)
  have "listed_at clk w ?w' (mem_ledger ms) (\<lambda>_. True) ?rs"
    unfolding listed_at_def
  proof (intro conjI ballI)
    show "norm_rec ` set ?rs \<subseteq> ran (mem_ledger ms)"
      unfolding ran by (auto simp: current_at_iff intro!: imageI)
  next
    fix r assume "r \<in> ran (mem_ledger ms)"
    then obtain e where "e \<in> set es" and e: "r = norm_rec (snd e)" unfolding ran by blast
    then obtain j where j: "j < length es" and r: "r = norm_rec (snd (es ! j))"
      by (metis in_set_conv_nth)
    with current_at_nth [OF d j] show "\<exists>i. ticks w \<le> i \<and> i < ticks ?w' \<and>
        (r \<in> norm_rec ` set ?rs \<longleftrightarrow> True \<and> \<not> Before (rec_Expires r) (clk i))"
      by (intro exI [of _ "ticks w + j"]) simp
  qed
  from that [OF eq this dist] show thesis .
qed

text \<open>The revoked records are the revoked ones of such a listing.\<close>

lemma listed_at_filter:
  assumes "listed_at clk w w' L (\<lambda>_. True) rs"
  shows "listed_at clk w w' L rec_Revoked (filter rec_Revoked rs)"
proof -
  have "r \<in> norm_rec ` set (filter rec_Revoked rs) \<longleftrightarrow> rec_Revoked r \<and> r \<in> norm_rec ` set rs" for r
    by (auto simp: image_iff)
  moreover have "norm_rec ` set (filter rec_Revoked rs) \<subseteq> norm_rec ` set rs" by auto
  ultimately show ?thesis
    using assms unfolding listed_at_def by (meson order_trans)
qed

lemma mem_GetRevoked_ok:
  assumes "mem_inv ms"
  obtains rs w' where "memoryStore_GetRevoked clk order ms w = (Return (Inr rs), ms, w')"
    and "listed_at clk w w' (mem_ledger ms) rec_Revoked rs" and "distinct (map rec_KeyID rs)"
proof -
  obtain rs w' where "memoryStore_List clk order False ms w = (Return (Inr rs), ms, w')"
    and l: "listed_at clk w w' (mem_ledger ms) (\<lambda>_. True) rs" and d: "distinct (map rec_KeyID rs)"
    using mem_List_current [OF assms] .
  then have "memoryStore_GetRevoked clk order ms w = (Return (Inr (filter rec_Revoked rs)), ms, w')"
    by (simp add: memoryStore_GetRevoked_def)
  moreover have "distinct (map rec_KeyID (filter rec_Revoked rs))"
    using d by (rule distinct_map_filter)
  ultimately show thesis using that listed_at_filter [OF l] by blast
qed

section \<open>The in-memory store keeps the contract\<close>

lemma mem_open_entries: "mem_open ms \<Longrightarrow> certs ms = Some (entries ms)"
  by (auto simp: mem_open_def entries_def)

lemma mem_SetRecord_ledger:
  assumes "mem_open ms"
  shows "\<exists>ms'. memoryStore_SetRecord r ms w = (Return None, ms', w) \<and> mem_open ms' \<and>
     mem_ledger ms' = led_add (mem_ledger ms) r"
proof -
  from assms obtain m where "certs ms = Some m" by (auto simp: mem_open_def)
  moreover have "(\<lambda>k. map_option norm_rec (map_of (AList.update (rec_KeyID r) r m) k))
      = led_add (\<lambda>k. map_option norm_rec (map_of m k)) r"
    by (auto simp: led_add_def update_conv')
  ultimately show ?thesis
    by (simp add: memoryStore_SetRecord_def mem_open_def mem_ledger_def entries_def)
qed

lemma mem_Revoke_ledger:
  assumes "mem_open ms" and "set ids \<subseteq> dom (mem_ledger ms)"
  shows "\<exists>ms'. memoryStore_Revoke ids ms w = (Return None, ms', w) \<and> mem_open ms' \<and>
     mem_ledger ms' = led_revoke (mem_ledger ms) ids"
proof -
  from assms(2) have "set ids \<subseteq> dom (map_of (entries ms))"
    by (auto simp: mem_ledger_def dom_def)
  from revoke_loop_ok [OF this] obtain m' where "revoke_loop (entries ms) ids = (Return (), m')"
      "(\<lambda>k. map_option norm_rec (map_of m' k)) = led_revoke (mem_ledger ms) ids"
    unfolding mem_ledger_def by blast
  moreover from this(2) have "mem_ledger (ms\<lparr>certs := Some m'\<rparr>) = led_revoke (mem_ledger ms) ids"
    unfolding mem_ledger_def [of "ms\<lparr>certs := Some m'\<rparr>"] by (simp add: entries_def)
  ultimately show ?thesis
    using mem_open_entries [OF assms(1)]
    by (simp add: memoryStore_Revoke_def mem_open_def)
qed

lemma mem_ledger_KeyID: "mem_inv ms \<Longrightarrow> mem_ledger ms k = Some r \<Longrightarrow> rec_KeyID r = k"
  by (auto simp: mem_inv_def keyed_iff mem_ledger_def)

interpretation mem: cert_storer "memoryStorer clk order" clk mem_ledger
  "\<lambda>ms. mem_inv ms \<and> mem_open ms" "\<lambda>_. True"
  for clk order
proof (unfold_locales, goal_cases)
  case (1 s w k)
  then show ?case
    by (auto simp: memoryStorer_def memoryStore_Get_def mem_ledger_def split: option.split)
next
  case (2 s w r)
  then show ?case
    using mem_SetRecord_ledger [of s r w] mem_SetRecord_inv [of s r w]
    by (auto simp: memoryStorer_def)
next
  case (3 s w ids)
  then show ?case
    using mem_Revoke_ledger [of s ids w] mem_Revoke_inv [of s ids w]
    by (auto simp: memoryStorer_def)
next
  case (4 s w)
  then have "keyed (entries s)" by (simp add: mem_inv_def)
  with distinct_keyed_range [OF this, of "order (rands w)"] show ?case
    by (simp add: memoryStorer_def mem_List_all ran_mem_ledger keyed_def image_image)
next
  case (5 s w)
  then have "mem_inv s" by simp
  then show ?case
    by (rule mem_List_current [of s clk order w]) (simp add: memoryStorer_def)
next
  case (6 s w)
  then have "mem_inv s" by simp
  then show ?case
    by (rule mem_GetRevoked_ok [of s clk order w]) (simp add: memoryStorer_def)
next
  case (7 s k r)
  then show ?case by (blast intro: mem_ledger_KeyID)
qed

end
