(* ===== verification/String_Slice.thy ===== *)
theory String_Slice
  imports Go_Strings
begin

text \<open>
  \<^verbatim>\<open>server/store/string_slice.go\<close>: a list of strings kept in one database column as a JSON array,
  with the part of \<^verbatim>\<open>encoding/json\<close> it uses. Bytes from 128 on are copied, which is what Go does for
  text that is valid UTF-8 and does not hold the line separators U+2028 and U+2029.
\<close>

section \<open>JSON strings\<close>

definition quote :: char where
  "quote = CHR 0x22"

definition backslash :: char where
  "backslash = CHR 0x5C"

text \<open>The escapes of \<^verbatim>\<open>json.Marshal\<close>, with HTML escaping on as it is by default.\<close>

definition esc :: "char \<Rightarrow> string" where
  "esc c =
     (let n = (of_char c :: nat)
      in if n = 34 \<or> n = 92 then [backslash, c]
         else if n = 8 then [backslash, CHR ''b'']
         else if n = 12 then [backslash, CHR ''f'']
         else if n = 10 then [backslash, CHR ''n'']
         else if n = 13 then [backslash, CHR ''r'']
         else if n = 9 then [backslash, CHR ''t'']
         else if n < 32 \<or> n = 38 \<or> n = 60 \<or> n = 62
           then [backslash, CHR ''u'', CHR ''0'', CHR ''0'', hex_digit (n div 16), hex_digit (n mod 16)]
         else [c])"

definition json_string :: "string \<Rightarrow> string" where
  "json_string s = quote # concat (map esc s) @ [quote]"

definition hexval :: "char \<Rightarrow> nat option" where
  "hexval c =
     (let n = (of_char c :: nat)
      in if 48 \<le> n \<and> n \<le> 57 then Some (n - 48)
         else if 97 \<le> n \<and> n \<le> 102 then Some (n - 87)
         else if 65 \<le> n \<and> n \<le> 70 then Some (n - 55)
         else None)"

text \<open>\<^verbatim>\<open>getu4\<close>: the code unit of a \<^verbatim>\<open>\uXXXX\<close> escape, from its four digits.\<close>

definition getu4 :: "string \<Rightarrow> nat option" where
  "getu4 s =
     (case s of
        a # b # c # d # _ \<Rightarrow>
          (case (hexval a, hexval b, hexval c, hexval d) of
             (Some a, Some b, Some c, Some d) \<Rightarrow> Some (4096 * a + 256 * b + 16 * c + d)
           | _ \<Rightarrow> None)
      | _ \<Rightarrow> None)"

definition utf8 :: "nat \<Rightarrow> string" where
  "utf8 r =
     (if r < 128 then [char_of r]
      else if r < 2048 then [char_of (192 + r div 64), char_of (128 + r mod 64)]
      else if r < 65536 then [char_of (224 + r div 4096), char_of (128 + r div 64 mod 64), char_of (128 + r mod 64)]
      else [char_of (240 + r div 262144), char_of (128 + r div 4096 mod 64),
            char_of (128 + r div 64 mod 64), char_of (128 + r mod 64)])"

text \<open>
  The body of a JSON string after its opening quote: its value and what follows the closing quote.
  A surrogate code unit joins with the one of a second escape or is replaced by U+FFFD.
\<close>

function unquote :: "string \<Rightarrow> (string \<times> string) option" where
  "unquote [] = None"
| "unquote (c # s) =
     (if c = quote then Some ([], s)
      else if c = backslash then
        (case s of
           [] \<Rightarrow> None
         | e # s' \<Rightarrow>
             if e = quote \<or> e = backslash \<or> e = CHR ''/'' then map_option (map_prod (Cons e) id) (unquote s')
             else if e = CHR ''b'' then map_option (map_prod (Cons (CHR 0x08)) id) (unquote s')
             else if e = CHR ''f'' then map_option (map_prod (Cons (CHR 0x0C)) id) (unquote s')
             else if e = CHR ''n'' then map_option (map_prod (Cons (CHR 0x0A)) id) (unquote s')
             else if e = CHR ''r'' then map_option (map_prod (Cons (CHR 0x0D)) id) (unquote s')
             else if e = CHR ''t'' then map_option (map_prod (Cons (CHR 0x09)) id) (unquote s')
             else if e = CHR ''u'' then
               (case getu4 s' of
                  None \<Rightarrow> None
                | Some r \<Rightarrow>
                    if 55296 \<le> r \<and> r < 57344 then
                      (case (take 2 (drop 4 s') = [backslash, CHR ''u''], getu4 (drop 6 s')) of
                         (True, Some r2) \<Rightarrow>
                           if r < 56320 \<and> 56320 \<le> r2 \<and> r2 < 57344
                           then map_option (map_prod ((@) (utf8 (65536 + (r - 55296) * 1024 + (r2 - 56320)))) id)
                                  (unquote (drop 10 s'))
                           else map_option (map_prod ((@) (utf8 65533)) id) (unquote (drop 4 s'))
                       | _ \<Rightarrow> map_option (map_prod ((@) (utf8 65533)) id) (unquote (drop 4 s')))
                    else map_option (map_prod ((@) (utf8 r)) id) (unquote (drop 4 s')))
             else None)
      else if (of_char c :: nat) < 32 then None
      else map_option (map_prod (Cons c) id) (unquote s))"
  by pat_completeness auto
termination
  by (relation "measure length") auto

declare unquote.simps(2) [simp del]

section \<open>JSON arrays of strings\<close>

definition json_ws :: "char \<Rightarrow> bool" where
  "json_ws c \<longleftrightarrow> of_char c \<in> {9 :: nat, 10, 13, 32}"

definition skip_ws :: "string \<Rightarrow> string" where
  "skip_ws s = dropWhile json_ws s"

text \<open>
  \<^verbatim>\<open>json.Marshal\<close> of a string slice. An empty list is a nil slice, which is written as \<^verbatim>\<open>null\<close>.
\<close>

fun json_elems :: "string list \<Rightarrow> string" where
  "json_elems [] = '']''"
| "json_elems [s] = json_string s @ '']''"
| "json_elems (s # ss) = json_string s @ CHR '','' # json_elems ss"

definition json_Marshal :: "string list \<Rightarrow> string" where
  "json_Marshal ss = (if ss = [] then ''null'' else CHR ''['' # json_elems ss)"

text \<open>One element: a string, or \<^verbatim>\<open>null\<close>, which leaves the zero value.\<close>

definition parse_elem :: "string \<Rightarrow> (string \<times> string) option" where
  "parse_elem s =
     (if take 4 s = ''null'' then Some ([], drop 4 s)
      else case s of
             [] \<Rightarrow> None
           | c # r \<Rightarrow> if c = quote then unquote r else None)"

text \<open>The elements after the opening bracket, with the fuel of the input's length.\<close>

fun parse_elems :: "nat \<Rightarrow> string \<Rightarrow> (string list \<times> string) option" where
  "parse_elems 0 s = None"
| "parse_elems (Suc fuel) s =
     (case parse_elem (skip_ws s) of
        None \<Rightarrow> None
      | Some (x, r) \<Rightarrow>
          (case skip_ws r of
             [] \<Rightarrow> None
           | c # r' \<Rightarrow>
               if c = CHR '']'' then Some ([x], r')
               else if c = CHR '','' then map_option (map_prod (Cons x) id) (parse_elems fuel r')
               else None))"

text \<open>
  \<^verbatim>\<open>json.Unmarshal\<close> into a string slice; \<open>None\<close> is a syntax error or a value of another type.
\<close>

definition json_Unmarshal :: "string \<Rightarrow> string list option" where
  "json_Unmarshal s =
     (let t = skip_ws s
      in if take 4 t = ''null'' then (if skip_ws (drop 4 t) = [] then Some [] else None)
         else case t of
                [] \<Rightarrow> None
              | c # r \<Rightarrow>
                  if c \<noteq> CHR ''['' then None
                  else case skip_ws r of
                         [] \<Rightarrow> None
                       | d # r' \<Rightarrow>
                           if d = CHR '']'' then (if skip_ws r' = [] then Some [] else None)
                           else (case parse_elems (length r) r of
                                   Some (xs, rest) \<Rightarrow> if skip_ws rest = [] then Some xs else None
                                 | None \<Rightarrow> None))"

section \<open>Value and Scan\<close>

text \<open>A database driver hands a column over as a string, as bytes, as NULL or as something else.\<close>

datatype dvalue = DString string | DBytes string | DNil | DOther string

definition StringSlice_Value :: "string list \<Rightarrow> error + dvalue" where
  "StringSlice_Value s = Inr (DString (json_Marshal s))"

text \<open>
  \<^verbatim>\<open>driver.String.ConvertValue\<close> keeps strings and bytes and formats every other value as a string;
  \<^verbatim>\<open>Scan\<close> decodes bytes only.
\<close>

definition ConvertValue :: "dvalue \<Rightarrow> dvalue" where
  "ConvertValue v = (case v of DOther s \<Rightarrow> DString s | _ \<Rightarrow> v)"

definition StringSlice_Scan :: "string list \<Rightarrow> dvalue \<Rightarrow> error + string list" where
  "StringSlice_Scan s value =
     (if value = DNil then Inr s
      else case ConvertValue value of
             DBytes b \<Rightarrow>
               (case json_Unmarshal b of
                  Some xs \<Rightarrow> Inr xs
                | None \<Rightarrow> Inl (ENew ''json: cannot unmarshal''))
           | _ \<Rightarrow> Inr s)"

section \<open>What is written is read back\<close>

lemma hexval_hex_digit [simp]: "d < 16 \<Longrightarrow> hexval (hex_digit d) = Some d"
  by (auto simp: hexval_def hex_digit_def Let_def)

lemma char_eq_iff: "c = d \<longleftrightarrow> (of_char c :: nat) = of_char d"
  by simp

lemma getu4_00: "n < 256 \<Longrightarrow> getu4 (CHR ''0'' # CHR ''0'' # hex_digit (n div 16) # hex_digit (n mod 16) # t) = Some n"
  by (simp add: getu4_def hexval_def [of "CHR ''0''"])

lemma special_chars [simp]:
  "quote = CHR 0x22" "backslash = CHR 0x5C"
  by (simp_all add: quote_def backslash_def)

lemma append_single [simp]: "(@) [c] = (#) c"
  by (rule ext) simp

lemma esc_special:
  assumes "of_char c \<in> {34 :: nat, 92, 8, 12, 10, 13, 9}"
  shows "unquote (esc c @ t) = map_option (map_prod (Cons c) id) (unquote t)"
proof -
  have lit: "d = c" if "of_char d = (of_char c :: nat)" for d
    using that by simp
  from assms have "c \<in> {CHR 0x22, CHR 0x5C, CHR 0x08, CHR 0x0C, CHR 0x0A, CHR 0x0D, CHR 0x09}"
    using lit [of "CHR 0x22"] lit [of "CHR 0x5C"] lit [of "CHR 0x08"] lit [of "CHR 0x0C"]
      lit [of "CHR 0x0A"] lit [of "CHR 0x0D"] lit [of "CHR 0x09"] by auto
  then show ?thesis
    by (elim insertE emptyE; simp add: esc_def Let_def unquote.simps(2))
qed

lemma unquote_esc: "unquote (esc c @ t) = map_option (map_prod (Cons c) id) (unquote t)"
proof -
  let ?n = "of_char c :: nat"
  consider "?n \<in> {34, 92, 8, 12, 10, 13, 9}"
    | "?n \<notin> {34, 92, 8, 12, 10, 13, 9}" "?n < 32 \<or> ?n = 38 \<or> ?n = 60 \<or> ?n = 62"
    | "?n \<notin> {34, 92, 8, 12, 10, 13, 9}" "\<not> (?n < 32 \<or> ?n = 38 \<or> ?n = 60 \<or> ?n = 62)"
    by blast
  then show ?thesis
  proof cases
    case 1
    then show ?thesis by (rule esc_special)
  next
    case 2
    then have "esc c = [backslash, CHR ''u'', CHR ''0'', CHR ''0'', hex_digit (?n div 16), hex_digit (?n mod 16)]"
      by (simp add: esc_def Let_def)
    moreover have "?n < 128" using 2 by auto
    moreover from this have "getu4 (CHR ''0'' # CHR ''0'' # hex_digit (?n div 16) # hex_digit (?n mod 16) # t) = Some ?n"
      by (intro getu4_00) simp
    ultimately show ?thesis
      by (simp add: unquote.simps(2) utf8_def)
  next
    case 3
    then have "c \<noteq> CHR 0x22" "c \<noteq> CHR 0x5C" by auto
    with 3 show ?thesis
      by (simp add: esc_def Let_def unquote.simps(2))
  qed
qed

lemma unquote_json_string: "unquote (concat (map esc s) @ quote # t) = Some (s, t)"
proof (induction s)
  case Nil
  then show ?case by (simp add: unquote.simps(2))
next
  case (Cons c s)
  then show ?case by (simp add: unquote_esc)
qed

lemma parse_elem_json_string [simp]: "parse_elem (json_string s @ t) = Some (s, t)"
  using unquote_json_string [of s t] by (simp add: parse_elem_def json_string_def)

lemma skip_ws_quote [simp]: "skip_ws (json_string s @ t) = json_string s @ t"
  by (simp add: skip_ws_def json_string_def json_ws_def)

lemma skip_ws_punct [simp]:
  "skip_ws (CHR '']'' # t) = CHR '']'' # t" "skip_ws (CHR '','' # t) = CHR '','' # t"
  "skip_ws (CHR ''['' # t) = CHR ''['' # t" "skip_ws [] = []"
  by (simp_all add: skip_ws_def json_ws_def)

lemma parse_elems_json:
  "ss \<noteq> [] \<Longrightarrow> length ss \<le> fuel \<Longrightarrow> parse_elems fuel (json_elems ss) = Some (ss, [])"
proof (induction ss arbitrary: fuel rule: json_elems.induct)
  case 1
  then show ?case by simp
next
  case (2 s)
  then obtain f where "fuel = Suc f" by (cases fuel) auto
  then show ?case by simp
next
  case (3 s s' ss)
  then obtain f where f: "fuel = Suc f" "length (s' # ss) \<le> f" by (cases fuel) auto
  have "parse_elems f (json_elems (s' # ss)) = Some (s' # ss, [])"
    by (rule "3.IH") (use f in simp_all)
  with f show ?case by simp
qed

lemma length_json_elems: "length ss \<le> length (json_elems ss)"
  by (induction ss rule: json_elems.induct) (auto simp: json_string_def)

text \<open>Every list of strings is read back from the array it is written as.\<close>

lemma json_roundtrip: "json_Unmarshal (json_Marshal ss) = Some ss"
proof (cases ss)
  case Nil
  then show ?thesis by (simp add: json_Marshal_def json_Unmarshal_def skip_ws_def json_ws_def)
next
  case (Cons s rest)
  then obtain t where t: "json_elems ss = json_string s @ t"
    by (cases rest) auto
  have "parse_elems (length (json_elems ss)) (json_elems ss) = Some (ss, [])"
    using Cons by (intro parse_elems_json length_json_elems) simp
  moreover have "skip_ws (json_elems ss) = quote # concat (map esc s) @ quote # t"
    unfolding t by (simp only: skip_ws_quote) (simp add: json_string_def)
  ultimately show ?thesis
    using Cons by (simp add: json_Marshal_def json_Unmarshal_def)
qed

end
