(* ===== verification/Store_SQL.thy ===== *)
theory Store_SQL
  imports Store_Record String_Slice Config
begin

text \<open>
  \<^verbatim>\<open>server/store/sqldb.go\<close>: the store over an SQL database. The statements the source prepares are
  given the meaning SQL gives them on the table \<^verbatim>\<open>issued_certs\<close> with the schema of
  \<^verbatim>\<open>server/store/migrations\<close>: \<^verbatim>\<open>id\<close> is assigned by the database, \<^verbatim>\<open>key_id\<close> is unique and
  \<^verbatim>\<open>revoked\<close> is 0 unless it is set. The database server, its driver and \<^verbatim>\<open>sqlx\<close> are parameters:
  whether they answer is a field of \<open>sql_env\<close>, indexed by the number of the call.
\<close>

section \<open>The table and the statements\<close>

record row =
  row_id :: int
  row_key_id :: string
  row_principals :: string
  row_created_at :: time
  row_expires_at :: time
  row_revoked :: bool
  row_raw_key :: string
  row_message :: string

record db =
  rows :: "row list"
  last_id :: int
  is_closed :: bool

text \<open>
  The environment: a statement may fail before or after the database has carried it out. How a database compares two times depends on how its driver
  passes them, which may depend on the location of a \<^verbatim>\<open>time.Time\<close>: the times of a record are in the local time zone, as \<^verbatim>\<open>time.Unix\<close> makes them.
\<close>

datatype fault = Healthy | FailedBefore error | FailedAfter error

datatype location = Local | UTC

record sql_env =
  ping :: "nat \<Rightarrow> error option"
  exec :: "nat \<Rightarrow> fault"
  sqlx_In :: "string list \<Rightarrow> error option"
  as_bytes :: bool
  sql_time_le :: "location \<times> time \<Rightarrow> location \<times> time \<Rightarrow> bool"

text \<open>The conditions of the prepared \<^verbatim>\<open>SELECT\<close> statements, with the arguments they are called with.\<close>

datatype cond =
    CAll
  | CKeyEq string
  | CExpiresFrom "location \<times> time"
  | CRevokedFrom "location \<times> time"

fun holds :: "sql_env \<Rightarrow> cond \<Rightarrow> row \<Rightarrow> bool" where
  "holds env CAll r = True"
| "holds env (CKeyEq k) r = (row_key_id r = k)"
| "holds env (CExpiresFrom t) r = sql_time_le env t (Local, row_expires_at r)"
| "holds env (CRevokedFrom t) r = (row_revoked r \<and> sql_time_le env t (Local, row_expires_at r))"

definition insert_row :: "string \<Rightarrow> string \<Rightarrow> time \<Rightarrow> time \<Rightarrow> string \<Rightarrow> string \<Rightarrow> db \<Rightarrow> error option \<times> db" where
  "insert_row key principals created expires raw message d =
     (if key \<in> row_key_id ` set (rows d) then (Some (ENew ''UNIQUE constraint failed: issued_certs.key_id''), d)
      else (None, d\<lparr>last_id := last_id d + 1,
                    rows := rows d @ [\<lparr>row_id = last_id d + 1, row_key_id = key, row_principals = principals,
                       row_created_at = created, row_expires_at = expires, row_revoked = False,
                       row_raw_key = raw, row_message = message\<rparr>]\<rparr>))"

definition update_revoked :: "string list \<Rightarrow> db \<Rightarrow> error option \<times> db" where
  "update_revoked ids d = (None, d\<lparr>rows := map (\<lambda>r. if row_key_id r \<in> set ids then r\<lparr>row_revoked := True\<rparr> else r) (rows d)\<rparr>)"

section \<open>The connection\<close>

definition connError :: "error \<Rightarrow> error" where
  "connError err = EWrap ''unable to connect to database: '' err"

definition Ping :: "sql_env \<Rightarrow> db \<Rightarrow> world \<Rightarrow> error option \<times> world" where
  "Ping env d w =
     (if is_closed d then (Some (ENew ''sql: database is closed''), w)
      else (ping env (calls w), w\<lparr>calls := Suc (calls w)\<rparr>))"

definition Exec :: "sql_env \<Rightarrow> (db \<Rightarrow> error option \<times> db) \<Rightarrow> db \<Rightarrow> world \<Rightarrow> error option \<times> db \<times> world" where
  "Exec env stmt d w =
     (let w' = w\<lparr>calls := Suc (calls w)\<rparr>
      in case exec env (calls w) of
           Healthy \<Rightarrow> (case stmt d of (err, d') \<Rightarrow> (err, d', w'))
         | FailedBefore e \<Rightarrow> (Some e, d, w')
         | FailedAfter e \<Rightarrow> (Some e, snd (stmt d), w'))"

text \<open>Reading a row back; the driver gives the text column as a string or as bytes.\<close>

definition column :: "sql_env \<Rightarrow> string \<Rightarrow> dvalue" where
  "column env s = (if as_bytes env then DBytes s else DString s)"

definition scan_row :: "sql_env \<Rightarrow> row \<Rightarrow> error + CertRecord" where
  "scan_row env r =
     (case StringSlice_Scan [] (column env (row_principals r)) of
        Inl e \<Rightarrow> Inl e
      | Inr ps \<Rightarrow> Inr \<lparr>rec_ID = row_id r, rec_KeyID = row_key_id r, rec_Principals = ps,
                      rec_CreatedAt = row_created_at r, rec_Expires = row_expires_at r,
                      rec_Revoked = row_revoked r, rec_Raw = row_raw_key r, rec_Message = row_message r\<rparr>)"

fun scan_rows :: "sql_env \<Rightarrow> row list \<Rightarrow> error + CertRecord list" where
  "scan_rows env [] = Inr []"
| "scan_rows env (r # rs) =
     (case scan_row env r of
        Inl e \<Rightarrow> Inl e
      | Inr x \<Rightarrow> (case scan_rows env rs of Inl e \<Rightarrow> Inl e | Inr xs \<Rightarrow> Inr (x # xs)))"

definition Query :: "sql_env \<Rightarrow> cond \<Rightarrow> db \<Rightarrow> world \<Rightarrow> (error + CertRecord list) \<times> world" where
  "Query env c d w =
     (let w' = w\<lparr>calls := Suc (calls w)\<rparr>
      in case exec env (calls w) of
           Healthy \<Rightarrow> (scan_rows env (filter (holds env c) (rows d)), w')
         | FailedBefore e \<Rightarrow> (Inl e, w')
         | FailedAfter e \<Rightarrow> (Inl e, w'))"

section \<open>The operations\<close>

definition sqlStore_Get :: "sql_env \<Rightarrow> string \<Rightarrow> (db, error + CertRecord) store_op" where
  "sqlStore_Get env certid d w =
     (case Ping env d w of
        (Some e, w) \<Rightarrow> (Return (Inl (connError e)), d, w)
      | (None, w) \<Rightarrow>
          (case Query env (CKeyEq certid) d w of
             (Inl e, w) \<Rightarrow> (Return (Inl e), d, w)
           | (Inr [], w) \<Rightarrow> (Return (Inl (ENew ''sql: no rows in result set'')), d, w)
           | (Inr (r # _), w) \<Rightarrow> (Return (Inr r), d, w)))"

definition sqlStore_SetRecord :: "sql_env \<Rightarrow> CertRecord \<Rightarrow> (db, error option) store_op" where
  "sqlStore_SetRecord env r d w =
     (case Ping env d w of
        (Some e, w) \<Rightarrow> (Return (Some (connError e)), d, w)
      | (None, w) \<Rightarrow>
          (case StringSlice_Value (rec_Principals r) of
             Inr (DString ps) \<Rightarrow>
               (case Exec env (insert_row (rec_KeyID r) ps (rec_CreatedAt r) (rec_Expires r) (rec_Raw r) (rec_Message r)) d w of
                  (err, d, w) \<Rightarrow> (Return err, d, w))
           | Inr _ \<Rightarrow> (Return (Some (ENew ''sql: unsupported value'')), d, w)
           | Inl e \<Rightarrow> (Return (Some e), d, w)))"

definition sqlStore_List :: "sql_env \<Rightarrow> (nat \<Rightarrow> time) \<Rightarrow> bool \<Rightarrow> (db, error + CertRecord list) store_op" where
  "sqlStore_List env clk includeExpired d w =
     (case Ping env d w of
        (Some e, w) \<Rightarrow> (Return (Inl (connError e)), d, w)
      | (None, w) \<Rightarrow>
          if includeExpired then
            (case Query env CAll d w of (res, w) \<Rightarrow> (Return res, d, w))
          else
            (case Query env (CExpiresFrom (Local, clk (ticks w))) d (w\<lparr>ticks := Suc (ticks w)\<rparr>) of
               (res, w) \<Rightarrow> (Return res, d, w)))"

definition sqlStore_Revoke :: "sql_env \<Rightarrow> string list \<Rightarrow> (db, error option) store_op" where
  "sqlStore_Revoke env ids d w =
     (case Ping env d w of
        (Some e, w) \<Rightarrow> (Return (Some (connError e)), d, w)
      | (None, w) \<Rightarrow>
          (case sqlx_In env ids of
             Some e \<Rightarrow> (Return (Some e), d, w)
           | None \<Rightarrow> (case Exec env (update_revoked ids) d w of (err, d, w) \<Rightarrow> (Return err, d, w))))"

definition sqlStore_GetRevoked :: "sql_env \<Rightarrow> (nat \<Rightarrow> time) \<Rightarrow> (db, error + CertRecord list) store_op" where
  "sqlStore_GetRevoked env clk d w =
     (case Ping env d w of
        (Some e, w) \<Rightarrow> (Return (Inl (connError e)), d, w)
      | (None, w) \<Rightarrow>
          (case Query env (CRevokedFrom (UTC, clk (ticks w))) d (w\<lparr>ticks := Suc (ticks w)\<rparr>) of
             (res, w) \<Rightarrow> (Return res, d, w)))"

definition sqlStore_Close :: "(db, error option) store_op" where
  "sqlStore_Close d w = (Return None, d\<lparr>is_closed := True\<rparr>, w)"

definition sqlStorer :: "sql_env \<Rightarrow> (nat \<Rightarrow> time) \<Rightarrow> db CertStorer" where
  "sqlStorer env clk =
     \<lparr>store_Get = sqlStore_Get env,
      store_SetRecord = sqlStore_SetRecord env,
      store_List = sqlStore_List env clk,
      store_Revoke = sqlStore_Revoke env,
      store_GetRevoked = sqlStore_GetRevoked env clk,
      store_Close = sqlStore_Close\<rparr>"

section \<open>Opening the database\<close>

text \<open>
  \<^verbatim>\<open>net.SplitHostPort\<close>: the host and the port, or \<open>None\<close> for an error.
\<close>

definition SplitHostPort :: "string \<Rightarrow> (string \<times> string) option" where
  "SplitHostPort hp =
     (case LastIndex hp (CHR '':'') of
        None \<Rightarrow> None
      | Some i \<Rightarrow>
          (case hp of
             [] \<Rightarrow> None
           | c # _ \<Rightarrow>
             if c = CHR ''['' then
               (let e = length (takeWhile (\<lambda>x. x \<noteq> CHR '']'') hp)
                in if e = length hp \<or> e + 1 \<noteq> i \<or> CHR ''['' \<in> set (drop 1 hp) \<or> CHR '']'' \<in> set (drop (e + 1) hp)
                   then None else Some (drop 1 (take e hp), drop (i + 1) hp))
             else if CHR '':'' \<in> set (take i hp) \<or> CHR ''['' \<in> set hp \<or> CHR '']'' \<in> set hp
               then None else Some (take i hp, drop (i + 1) hp)))"

record mysql_Config =
  my_User :: string
  my_Passwd :: string
  my_Addr :: string
  my_Net :: string
  my_DBName :: string
  my_ParseTime :: bool

text \<open>
  The driver's connection, the migration library and the preparation of the five statements
  (numbered in the order of the source) are parameters.
\<close>

record sql_open =
  FormatDSN :: "mysql_Config \<Rightarrow> string"
  Connect :: "string \<Rightarrow> string \<Rightarrow> error + db"
  migrate_Exec :: "string \<Rightarrow> string \<Rightarrow> db \<Rightarrow> error option \<times> db"
  Preparex :: "string \<Rightarrow> error option"

definition mysql_config :: "Database \<Rightarrow> mysql_Config" where
  "mysql_config c =
     (let address = (if SplitHostPort (db_Address c) = None then db_Address c @ '':3306'' else db_Address c)
      in \<lparr>my_User = db_Username c, my_Passwd = db_Password c, my_Addr = address, my_Net = ''tcp'',
          my_DBName = (if db_DBName c = '''' then ''certs'' else db_DBName c), my_ParseTime = True\<rparr>)"

definition autoMigrate :: "sql_open \<Rightarrow> string \<Rightarrow> db \<Rightarrow> error option \<times> db" where
  "autoMigrate op driver conn =
     (case migrate_Exec op driver (''migrations/'' @ driver) conn of
        (Some e, conn) \<Rightarrow> (Some (EWrap ''errors were found running migrations: '' e), conn)
      | (None, conn) \<Rightarrow> (None, conn))"

definition statements :: "(string \<times> string) list" where
  "statements =
     [(''set'', ''INSERT INTO issued_certs (key_id, principals, created_at, expires_at, raw_key, message) VALUES (?, ?, ?, ?, ?, ?)''),
      (''get'', ''SELECT * FROM issued_certs WHERE key_id = ?''),
      (''listAll'', ''SELECT * FROM issued_certs''),
      (''listCurrent'', ''SELECT * FROM issued_certs WHERE expires_at >= ?''),
      (''revoked'', ''SELECT * FROM issued_certs WHERE revoked = 1 AND ? <= expires_at'')]"

fun prepare_all :: "sql_open \<Rightarrow> (string \<times> string) list \<Rightarrow> error option" where
  "prepare_all op [] = None"
| "prepare_all op ((name, q) # qs) =
     (case Preparex op q of
        Some e \<Rightarrow> Some (EWrap (''sqlStore: prepare '' @ name @ '': '') e)
      | None \<Rightarrow> prepare_all op qs)"

definition newSQLStore :: "sql_open \<Rightarrow> Database \<Rightarrow> error + db" where
  "newSQLStore op c =
     (let (driver, dsn) =
            (if db_Type c = ''mysql'' then (''mysql'', FormatDSN op (mysql_config c))
             else if db_Type c = ''sqlite'' then (''sqlite3'', db_Filename c)
             else ('''', ''''))
      in case Connect op driver dsn of
           Inl e \<Rightarrow> Inl (EWrap ''sqlStore: could not get a connection: '' e)
         | Inr conn \<Rightarrow>
             (case autoMigrate op driver conn of
                (Some e, _) \<Rightarrow> Inl (EWrap ''sqlStore: could not update schema: '' e)
              | (None, conn) \<Rightarrow>
                  (case prepare_all op statements of
                     Some e \<Rightarrow> Inl e
                   | None \<Rightarrow> Inr conn)))"

section \<open>Invariant and abstraction\<close>

definition row_rec :: "row \<Rightarrow> CertRecord" where
  "row_rec r =
     \<lparr>rec_ID = 0, rec_KeyID = row_key_id r,
      rec_Principals = (case json_Unmarshal (row_principals r) of Some ps \<Rightarrow> ps | None \<Rightarrow> []),
      rec_CreatedAt = row_created_at r, rec_Expires = row_expires_at r,
      rec_Revoked = row_revoked r, rec_Raw = row_raw_key r, rec_Message = row_message r\<rparr>"

definition readable :: "row \<Rightarrow> bool" where
  "readable r \<longleftrightarrow> json_Unmarshal (row_principals r) \<noteq> None"

definition sql_inv :: "db \<Rightarrow> bool" where
  "sql_inv d \<longleftrightarrow> distinct (map row_key_id (rows d)) \<and> list_all readable (rows d)"

definition sql_open_conn :: "db \<Rightarrow> bool" where
  "sql_open_conn d \<longleftrightarrow> \<not> is_closed d"

definition sql_ledger :: "db \<Rightarrow> ledger" where
  "sql_ledger d = map_of (map (\<lambda>r. (row_key_id r, row_rec r)) (rows d))"

text \<open>
  The database answers from this world on, \<^verbatim>\<open>sqlx.In\<close> accepts every list but the empty one, and the
  driver gives text columns as bytes and compares times as instants, as the driver for MySQL does.
\<close>

definition compares_instants :: "sql_env \<Rightarrow> bool" where
  "compares_instants env \<longleftrightarrow> (\<forall>l t l' t'. sql_time_le env (l, t) (l', t') \<longleftrightarrow> t \<le> t')"

definition sql_up :: "sql_env \<Rightarrow> world \<Rightarrow> bool" where
  "sql_up env w \<longleftrightarrow>
     (\<forall>n \<ge> calls w. ping env n = None \<and> exec env n = Healthy) \<and>
     (\<forall>ids. ids \<noteq> [] \<longrightarrow> sqlx_In env ids = None) \<and> as_bytes env \<and> compares_instants env"

lemma row_rec_fields [simp]:
  "rec_KeyID (row_rec r) = row_key_id r" "rec_Expires (row_rec r) = row_expires_at r"
  "rec_Revoked (row_rec r) = row_revoked r" "rec_ID (row_rec r) = 0" "norm_rec (row_rec r) = row_rec r"
  "row_rec (r\<lparr>row_revoked := b\<rparr>) = (row_rec r)\<lparr>rec_Revoked := b\<rparr>"
  by (simp_all add: row_rec_def)

lemma sql_upD [simp]:
  assumes "sql_up env w"
  shows "ping env (calls w) = None" and "exec env (calls w) = Healthy" and "as_bytes env"
    and "exec env (Suc (calls w)) = Healthy" and "sql_time_le env (l, t) (l', t') \<longleftrightarrow> t \<le> t'"
  using assms by (auto simp: sql_up_def compares_instants_def)

lemma sql_up_later: "sql_up env w \<Longrightarrow> calls w \<le> calls w' \<Longrightarrow> sql_up env w'"
  by (auto simp: sql_up_def)

section \<open>Statements against the ledger\<close>

lemma map_of_rows:
  assumes "distinct (map row_key_id rs)"
  shows "map_of (map (\<lambda>r. (row_key_id r, row_rec r)) rs) k = Some x
     \<longleftrightarrow> (\<exists>r \<in> set rs. row_key_id r = k \<and> row_rec r = x)"
proof -
  have "distinct (map fst (map (\<lambda>r. (row_key_id r, row_rec r)) rs))"
    using assms by (simp add: comp_def)
  then show ?thesis by (auto simp: map_of_eq_Some_iff)
qed

lemma ran_sql_ledger:
  assumes "sql_inv d"
  shows "ran (sql_ledger d) = row_rec ` set (rows d)"
proof -
  have "distinct (map row_key_id (rows d))" using assms by (simp add: sql_inv_def)
  from map_of_rows [OF this] show ?thesis by (auto simp: ran_def sql_ledger_def)
qed

lemma dom_sql_ledger: "dom (sql_ledger d) = row_key_id ` set (rows d)"
  by (force simp: sql_ledger_def dom_map_of_conv_image_fst)

lemma scan_row_ok:
  assumes "as_bytes env" and "readable r"
  shows "scan_row env r = Inr ((row_rec r)\<lparr>rec_ID := row_id r\<rparr>)"
  using assms by (auto simp: scan_row_def row_rec_def column_def StringSlice_Scan_def ConvertValue_def readable_def)

lemma scan_rows_ok:
  assumes "as_bytes env" and "list_all readable rs"
  shows "scan_rows env rs = Inr (map (\<lambda>r. (row_rec r)\<lparr>rec_ID := row_id r\<rparr>) rs)"
  using assms(2) by (induction rs) (auto simp: scan_row_ok [OF assms(1)])

lemma Query_ok:
  assumes "sql_up env w" and "sql_inv d"
  shows "Query env c d w =
     (Inr (map (\<lambda>r. (row_rec r)\<lparr>rec_ID := row_id r\<rparr>) (filter (holds env c) (rows d))), w\<lparr>calls := Suc (calls w)\<rparr>)"
proof -
  have "list_all readable (filter (holds env c) (rows d))"
    using assms(2) by (auto simp: sql_inv_def list_all_iff)
  with assms(1) show ?thesis by (simp add: Query_def scan_rows_ok)
qed

lemma norm_scanned [simp]: "norm_rec ((row_rec r)\<lparr>rec_ID := i\<rparr>) = row_rec r"
  by (simp add: norm_rec_def row_rec_def)

lemma norm_scanned_set:
  "norm_rec ` set (map (\<lambda>r. (row_rec r)\<lparr>rec_ID := row_id r\<rparr>) rs) = row_rec ` set rs"
  by (auto simp: image_image)

lemma distinct_scanned:
  assumes "sql_inv d"
  shows "distinct (map rec_KeyID (map (\<lambda>r. (row_rec r)\<lparr>rec_ID := row_id r\<rparr>) (filter P (rows d))))"
proof -
  have "map rec_KeyID (map (\<lambda>r. (row_rec r)\<lparr>rec_ID := row_id r\<rparr>) (filter P (rows d)))
      = map row_key_id (filter P (rows d))" by simp
  with assms show ?thesis by (simp add: sql_inv_def distinct_map_filter del: map_map)
qed

lemma insert_row_ledger:
  assumes "sql_inv d" and "rec_KeyID r \<notin> dom (sql_ledger d)" and "\<not> rec_Revoked r"
    and ps: "ps = json_Marshal (rec_Principals r)"
  obtains d' where "insert_row (rec_KeyID r) ps (rec_CreatedAt r) (rec_Expires r) (rec_Raw r) (rec_Message r) d = (None, d')"
    and "sql_inv d'" and "is_closed d' = is_closed d" and "sql_ledger d' = led_add (sql_ledger d) r"
proof -
  let ?new = "\<lparr>row_id = last_id d + 1, row_key_id = rec_KeyID r, row_principals = ps,
      row_created_at = rec_CreatedAt r, row_expires_at = rec_Expires r, row_revoked = False,
      row_raw_key = rec_Raw r, row_message = rec_Message r\<rparr>"
  let ?d = "d\<lparr>last_id := last_id d + 1, rows := rows d @ [?new]\<rparr>"
  from assms(2) have fresh: "rec_KeyID r \<notin> row_key_id ` set (rows d)" by (simp add: dom_sql_ledger)
  then have "insert_row (rec_KeyID r) ps (rec_CreatedAt r) (rec_Expires r) (rec_Raw r) (rec_Message r) d = (None, ?d)"
    by (simp add: insert_row_def)
  moreover have "sql_inv ?d"
    using assms(1) fresh by (auto simp: sql_inv_def readable_def ps json_roundtrip)
  moreover have "row_rec ?new = norm_rec r"
    using assms(3) by (simp add: row_rec_def norm_rec_def ps json_roundtrip)
  then have "sql_ledger ?d = led_add (sql_ledger d) r"
    using assms(2) by (auto simp: sql_ledger_def led_add_def fun_eq_iff map_add_def split: option.split)
  ultimately show thesis using that by simp
qed

lemma update_revoked_ledger:
  obtains d' where "update_revoked ids d = (None, d')" and "sql_inv d \<Longrightarrow> sql_inv d'"
    and "is_closed d' = is_closed d" and "sql_ledger d' = led_revoke (sql_ledger d) ids"
proof -
  let ?f = "\<lambda>r. if row_key_id r \<in> set ids then r\<lparr>row_revoked := True\<rparr> else r"
  let ?d = "d\<lparr>rows := map ?f (rows d)\<rparr>"
  have "list_all readable (map ?f rs) = list_all readable rs" and "map row_key_id (map ?f rs) = map row_key_id rs" for rs
    by (induction rs) (auto simp: readable_def)
  then have "sql_inv d \<Longrightarrow> sql_inv ?d"
    by (simp add: sql_inv_def del: map_map)
  moreover have "map_of (map (\<lambda>r. (row_key_id r, row_rec r)) (map ?f rs))
      = led_revoke (map_of (map (\<lambda>r. (row_key_id r, row_rec r)) rs)) ids" for rs
    by (induction rs) (auto simp: led_revoke_def fun_eq_iff)
  then have "sql_ledger ?d = led_revoke (sql_ledger d) ids" by (simp add: sql_ledger_def del: map_map)
  ultimately show thesis using that by (simp add: update_revoked_def)
qed

lemma listed_at_rows:
  assumes "sql_inv d" and "ticks w < ticks w'"
    and "\<And>r. r \<in> set (rows d) \<Longrightarrow> holds env c r \<longleftrightarrow> P (row_rec r) \<and> clk (ticks w) \<le> row_expires_at r"
  shows "listed_at clk w w' (sql_ledger d) P (map (\<lambda>r. (row_rec r)\<lparr>rec_ID := row_id r\<rparr>) (filter (holds env c) (rows d)))"
  unfolding listed_at_def norm_scanned_set ran_sql_ledger [OF assms(1)]
proof (intro conjI ballI)
  show "row_rec ` set (filter (holds env c) (rows d)) \<subseteq> row_rec ` set (rows d)" by auto
next
  fix x assume "x \<in> row_rec ` set (rows d)"
  then obtain r where r: "r \<in> set (rows d)" "x = row_rec r" by auto
  have "x \<in> row_rec ` set (filter (holds env c) (rows d)) \<longleftrightarrow> P x \<and> clk (ticks w) \<le> rec_Expires x"
  proof
    assume "x \<in> row_rec ` set (filter (holds env c) (rows d))"
    then obtain r' where "r' \<in> set (rows d)" "holds env c r'" "x = row_rec r'" by auto
    with assms(3) show "P x \<and> clk (ticks w) \<le> rec_Expires x" by simp
  qed (use r assms(3) in auto)
  with assms(2) show "\<exists>i. ticks w \<le> i \<and> i < ticks w' \<and>
      (x \<in> row_rec ` set (filter (holds env c) (rows d)) \<longleftrightarrow> P x \<and> \<not> Before (rec_Expires x) (clk i))"
    by (intro exI [of _ "ticks w"]) (simp add: Before_def not_less)
qed

section \<open>The SQL store keeps the contract\<close>

lemma Ping_ok:
  "sql_up env w \<Longrightarrow> sql_open_conn d \<Longrightarrow> Ping env d w = (None, w\<lparr>calls := Suc (calls w)\<rparr>)"
  by (simp add: Ping_def sql_open_conn_def)

lemma sql_up_Suc: "sql_up env w \<Longrightarrow> sql_up env (w\<lparr>calls := Suc (calls w)\<rparr>)"
  by (rule sql_up_later) auto

lemma sql_up_tick [simp]: "sql_up env (w\<lparr>ticks := n\<rparr>) = sql_up env w"
  by (simp add: sql_up_def)

lemma sql_Get_ok:
  assumes "sql_inv d" and "sql_open_conn d" and "sql_up env w"
  shows "\<exists>w' res. sqlStore_Get env k d w = (Return res, d, w') \<and> sql_up env w' \<and>
      (case sql_ledger d k of Some r \<Rightarrow> \<exists>r'. res = Inr r' \<and> norm_rec r' = r | None \<Rightarrow> \<exists>e. res = Inl e)"
proof -
  let ?w = "w\<lparr>calls := Suc (calls w)\<rparr>"
  have up: "sql_up env ?w" using assms(3) by (rule sql_up_Suc)
  note q = Ping_ok [OF assms(3,2)] Query_ok [OF up assms(1), of "CKeyEq k"]
  have d: "distinct (map row_key_id (rows d))" using assms(1) by (simp add: sql_inv_def)
  show ?thesis
  proof (cases "filter (holds env (CKeyEq k)) (rows d)")
    case Nil
    then have "k \<notin> dom (sql_ledger d)" by (auto simp: dom_sql_ledger filter_empty_conv)
    then have "sql_ledger d k = None" by auto
    with Nil q sql_up_Suc [OF up] show ?thesis by (simp add: sqlStore_Get_def)
  next
    case (Cons r rs)
    then have "r \<in> set (rows d)" and "row_key_id r = k"
      by (auto simp: filter_eq_Cons_iff)
    with d have "sql_ledger d k = Some (row_rec r)"
      unfolding sql_ledger_def by (auto simp: map_of_rows)
    with Cons q sql_up_Suc [OF up] show ?thesis by (simp add: sqlStore_Get_def)
  qed
qed

interpretation sql: cert_storer "sqlStorer env clk" clk sql_ledger
  "\<lambda>d. sql_inv d \<and> sql_open_conn d" "sql_up env"
  for env clk
proof (unfold_locales, goal_cases)
  case (1 s w k)
  then show ?case using sql_Get_ok [of s env w k] by (simp add: sqlStorer_def)
next
  case (2 s w r)
  obtain d' where "insert_row (rec_KeyID r) (json_Marshal (rec_Principals r)) (rec_CreatedAt r)
      (rec_Expires r) (rec_Raw r) (rec_Message r) s = (None, d')" "sql_inv d'"
      "is_closed d' = is_closed s" "sql_ledger d' = led_add (sql_ledger s) r"
    using insert_row_ledger [of s r] 2 by blast
  with 2 sql_up_Suc [OF sql_up_Suc [OF 2(2)]] show ?case
    by (simp add: sqlStorer_def sqlStore_SetRecord_def Ping_ok StringSlice_Value_def Exec_def sql_open_conn_def)
next
  case (3 s w ids)
  obtain d' where "update_revoked ids s = (None, d')" "sql_inv s \<Longrightarrow> sql_inv d'"
      "is_closed d' = is_closed s" "sql_ledger d' = led_revoke (sql_ledger s) ids"
    by (rule update_revoked_ledger [of ids s]) blast
  moreover have "sqlx_In env ids = None" using 3 by (simp add: sql_up_def)
  ultimately show ?case
    using 3 sql_up_Suc [OF sql_up_Suc [OF 3(2)]]
    by (simp add: sqlStorer_def sqlStore_Revoke_def Ping_ok Exec_def sql_open_conn_def)
next
  case (4 s w)
  then have "sql_inv s" by simp
  from distinct_scanned [OF this, of "holds env CAll"] 4 sql_up_Suc [OF sql_up_Suc [OF 4(2)]] show ?case
    by (simp add: sqlStorer_def sqlStore_List_def Ping_ok Query_ok sql_up_Suc ran_sql_ledger image_image)
next
  case (5 s w)
  then have i: "sql_inv s" by simp
  let ?w = "w\<lparr>ticks := Suc (ticks w), calls := Suc (Suc (calls w))\<rparr>"
  have "listed_at clk w ?w (sql_ledger s) (\<lambda>_. True)
      (map (\<lambda>r. (row_rec r)\<lparr>rec_ID := row_id r\<rparr>) (filter (holds env (CExpiresFrom (Local, clk (ticks w)))) (rows s)))"
    by (rule listed_at_rows [OF i]) (simp_all add: sql_upD(5) [OF 5(2)])
  with 5 distinct_scanned [OF i, of "holds env (CExpiresFrom (Local, clk (ticks w)))"]
    sql_up_later [OF 5(2), of ?w] show ?case
    by (simp add: sqlStorer_def sqlStore_List_def Ping_ok Query_ok sql_up_Suc)
next
  case (6 s w)
  then have i: "sql_inv s" by simp
  let ?w = "w\<lparr>ticks := Suc (ticks w), calls := Suc (Suc (calls w))\<rparr>"
  have "listed_at clk w ?w (sql_ledger s) rec_Revoked
      (map (\<lambda>r. (row_rec r)\<lparr>rec_ID := row_id r\<rparr>) (filter (holds env (CRevokedFrom (UTC, clk (ticks w)))) (rows s)))"
    by (rule listed_at_rows [OF i]) (simp_all add: sql_upD(5) [OF 6(2)])
  with 6 distinct_scanned [OF i, of "holds env (CRevokedFrom (UTC, clk (ticks w)))"]
    sql_up_later [OF 6(2), of ?w] show ?case
    by (simp add: sqlStorer_def sqlStore_GetRevoked_def Ping_ok Query_ok sql_up_Suc)
next
  case (7 s k r)
  then have "distinct (map row_key_id (rows s))" by (simp add: sql_inv_def)
  with 7 show ?case by (auto simp: sql_ledger_def map_of_rows)
qed

end
