(* ===== verification/Store.thy ===== *)
theory Store
  imports Store_Mem Store_SQL
begin

text \<open>
  \<^verbatim>\<open>store.New\<close> and what the two stores promise: the contract of \<open>cert_storer\<close> on each, and where they
  differ (an unknown id, a key id that is taken, an empty list of ids, principals read back).
\<close>

section \<open>store.New\<close>

definition store_New :: "sql_open \<Rightarrow> Database \<Rightarrow> error + (memoryStore + db)" where
  "store_New op c =
     (if db_Type c = ''mysql'' \<or> db_Type c = ''sqlite'' then
        (case newSQLStore op c of Inl e \<Rightarrow> Inl e | Inr d \<Rightarrow> Inr (Inr d))
      else if db_Type c = ''mem'' then Inr (Inl newMemoryStore)
      else Inl (ENew (''unable to create store with driver '' @ db_Type c)))"

section \<open>Runs of the in-memory store\<close>

text \<open>
  The states the server can bring an in-memory store into: any sequence of operations, also ones that
  panic, whose effects up to the panic stay.
\<close>

inductive mem_step :: "memoryStore \<Rightarrow> memoryStore \<Rightarrow> bool" where
  set_step: "mem_step ms (fst (snd (memoryStore_SetRecord r ms w)))"
| revoke_step: "mem_step ms (fst (snd (memoryStore_Revoke ids ms w)))"
| close_step: "mem_step ms (fst (snd (memoryStore_Close ms w)))"

inductive mem_reachable :: "memoryStore \<Rightarrow> bool" where
  mem_start: "mem_reachable newMemoryStore"
| mem_next: "mem_reachable ms \<Longrightarrow> mem_step ms ms' \<Longrightarrow> mem_reachable ms'"

inductive_cases mem_stepE: "mem_step ms ms'"

lemma mem_step_inv: "mem_step ms ms' \<Longrightarrow> mem_inv ms \<Longrightarrow> mem_inv ms'"
  by (erule mem_stepE)
    (simp_all add: mem_SetRecord_inv mem_Revoke_inv mem_Close_inv)

lemma listed_bounds:
  assumes "listed_at clk w w' L (\<lambda>_. True) rs" and "\<And>i. lo \<le> clk i" and "\<And>i. clk i \<le> hi"
  shows "{r \<in> ran L. hi \<le> rec_Expires r} \<subseteq> norm_rec ` set rs"
    and "norm_rec ` set rs \<subseteq> {r \<in> ran L. lo \<le> rec_Expires r}"
proof -
  have at: "\<exists>i. r \<in> norm_rec ` set rs \<longleftrightarrow> clk i \<le> rec_Expires r" if "r \<in> ran L" for r
    using assms(1) that unfolding listed_at_def Before_def not_less by blast
  show "{r \<in> ran L. hi \<le> rec_Expires r} \<subseteq> norm_rec ` set rs"
    using at assms(3) by (blast intro: order.trans)
  show "norm_rec ` set rs \<subseteq> {r \<in> ran L. lo \<le> rec_Expires r}"
  proof
    fix r assume "r \<in> norm_rec ` set rs"
    moreover from this have "r \<in> ran L" using assms(1) by (auto simp: listed_at_def)
    ultimately show "r \<in> {r \<in> ran L. lo \<le> rec_Expires r}"
      using at assms(2) by (blast intro: order.trans)
  qed
qed

lemma revoke_loop_prefix:
  assumes "revoke_loop m ids = (Return (), m')"
  shows "revoke_loop m (ids @ later) = revoke_loop m' later"
  using assms by (induction ids arbitrary: m) (auto split: option.splits)

section \<open>Example stores\<close>

definition wrec :: CertRecord where
  "wrec = \<lparr>rec_ID = 0, rec_KeyID = ''alice_1'', rec_Principals = [''alice''], rec_CreatedAt = 0,
           rec_Expires = 100, rec_Revoked = False, rec_Raw = ''raw'', rec_Message = ''''\<rparr>"

definition wmem :: memoryStore where
  "wmem = \<lparr>certs = Some [(''alice_1'', wrec)]\<rparr>"

definition wenv :: sql_env where
  "wenv = \<lparr>ping = (\<lambda>_. None), exec = (\<lambda>_. Healthy), sqlx_In = (\<lambda>ids. if ids = [] then Some (ENew ''empty slice'') else None),
           as_bytes = True, sql_time_le = (\<lambda>x y. snd x \<le> snd y)\<rparr>"

definition wdb :: db where
  "wdb = \<lparr>rows = [\<lparr>row_id = 1, row_key_id = ''alice_1'', row_principals = json_Marshal [''alice''], row_created_at = 0,
           row_expires_at = 100, row_revoked = False, row_raw_key = ''raw'', row_message = ''''\<rparr>], last_id = 1, is_closed = False\<rparr>"

definition wcert :: "string Certificate" where
  "wcert = \<lparr>cert_Nonce = '''', cert_Key = ''k'', cert_Serial = 0, cert_CertType = UserCert, cert_KeyId = ''key'',
            cert_ValidPrincipals = [''user1''], cert_ValidAfter = 0, cert_ValidBefore = 18446744073709551615,
            cert_CriticalOptions = [], cert_Extensions = [], cert_SignatureKey = None, cert_Signature = None\<rparr>"

lemmas wstore_defs = wrec_def wmem_def wenv_def wdb_def world0_def

lemma wmem_ok [simp]: "mem_inv wmem" "mem_open wmem" "mem_ledger wmem ''alice_1'' = Some wrec"
  by (simp_all add: mem_inv_def mem_open_def mem_ledger_def entries_def keyed_def wf_map_def wmem_def wrec_def)

lemma dom_wmem [simp]: "dom (mem_ledger wmem) = {''alice_1''}"
  by (auto simp: mem_ledger_def entries_def wmem_def split: if_splits)

lemma wdb_ok [simp]: "sql_inv wdb" "sql_open_conn wdb" "sql_up wenv w" "dom (sql_ledger wdb) = {''alice_1''}"
  by (simp_all add: sql_inv_def sql_open_conn_def sql_up_def compares_instants_def readable_def json_roundtrip dom_sql_ledger wdb_def wenv_def)

section \<open>Properties\<close>

text \<open>
  In every state an in-memory store can reach, each entry of the map is a record whose own key id is
  the key it is stored under, and no key occurs twice.
\<close>

theorem mem_reachable_inv:
  assumes "mem_reachable ms"
  shows "wf_map (entries ms) \<and> list_all (\<lambda>(k, r). rec_KeyID r = k) (entries ms)"
proof -
  from assms have "mem_inv ms"
  proof (induction rule: mem_reachable.induct)
    case mem_start
    show ?case by (rule mem_inv_new)
  next
    case (mem_next ms ms')
    then show ?case by (blast intro: mem_step_inv)
  qed
  then show ?thesis by (simp add: mem_inv_def keyed_def)
qed

theorem mem_reachable_inv_witness:
  "mem_reachable (fst (snd (memoryStore_SetRecord wrec newMemoryStore world0))) \<and>
   wf_map (entries (fst (snd (memoryStore_SetRecord wrec newMemoryStore world0))))"
proof -
  have "mem_reachable (fst (snd (memoryStore_SetRecord wrec newMemoryStore world0)))"
    by (rule mem_next [OF mem_start set_step])
  with mem_reachable_inv [OF this] show ?thesis by simp
qed



text \<open>
  Revoking a list with an unknown id in it ends in a nil dereference in the in-memory store. The ids in front of
  the unknown one stay revoked, the ones behind it are not, and the mutex is released with the store
  in that state.
\<close>

theorem memoryStore_Revoke_unknown:
  assumes "mem_open ms" and "set known \<subseteq> dom (mem_ledger ms)" and "u \<notin> dom (mem_ledger ms)"
  shows "\<exists>ms'. memoryStore_Revoke (known @ u # later) ms w = (Panic, ms', w)
    \<and> mem_ledger ms' = led_revoke (mem_ledger ms) known"
proof -
  from assms(2) have "set known \<subseteq> dom (map_of (entries ms))"
    by (auto simp: mem_ledger_def dom_def)
  then obtain m' where m': "revoke_loop (entries ms) known = (Return (), m')"
      "(\<lambda>k. map_option norm_rec (map_of m' k)) = led_revoke (mem_ledger ms) known"
    unfolding mem_ledger_def using revoke_loop_ok by blast
  have "u \<notin> dom (led_revoke (mem_ledger ms) known)" using assms(3) by simp
  then have "map_of m' u = None" using m'(2) by (metis domIff option.map_disc_iff)
  then have "revoke_loop (entries ms) (known @ u # later) = (Panic, m')"
    by (simp add: revoke_loop_prefix [OF m'(1)])
  moreover have "mem_ledger (ms\<lparr>certs := Some m'\<rparr>) = led_revoke (mem_ledger ms) known"
    unfolding mem_ledger_def [of "ms\<lparr>certs := Some m'\<rparr>"] using m'(2) by (simp add: entries_def)
  ultimately show ?thesis
    using mem_open_entries [OF assms(1)] by (simp add: memoryStore_Revoke_def)
qed

theorem memoryStore_Revoke_unknown_witness:
  "\<exists>ms'. memoryStore_Revoke [''alice_1'', ''nobody''] wmem world0 = (Panic, ms', world0)
     \<and> mem_ledger ms' ''alice_1'' = Some (wrec\<lparr>rec_Revoked := True\<rparr>)"
  using memoryStore_Revoke_unknown [of wmem "[''alice_1'']" "''nobody''" "[]" world0]
  by (auto simp: led_revoke_def)

text \<open>
  The SQL store ignores unknown ids: while the database answers, Revoke of any non-empty list succeeds and
  marks exactly the records whose key id is in the list.
\<close>

theorem sqlStore_Revoke_ledger:
  assumes "sql_open_conn d" and "sql_up env w" and "ids \<noteq> []"
  shows "\<exists>d' w'. sqlStore_Revoke env ids d w = (Return None, d', w')
    \<and> sql_ledger d' = led_revoke (sql_ledger d) ids"
proof -
  obtain d' where "update_revoked ids d = (None, d')" "sql_ledger d' = led_revoke (sql_ledger d) ids"
    by (rule update_revoked_ledger [of ids d]) blast
  moreover have "sqlx_In env ids = None" using assms(2,3) by (simp add: sql_up_def)
  ultimately show ?thesis
    using assms by (simp add: sqlStore_Revoke_def Ping_ok Exec_def)
qed

theorem sqlStore_Revoke_ledger_witness:
  "\<exists>d' w'. sqlStore_Revoke wenv [''alice_1'', ''nobody''] wdb world0 = (Return None, d', w')
     \<and> sql_ledger d' ''nobody'' = None"
proof -
  have "sql_ledger wdb ''nobody'' = None" by (simp add: sql_ledger_def wdb_def)
  then show ?thesis
    using sqlStore_Revoke_ledger [of wdb wenv world0 "[''alice_1'', ''nobody'']"]
    by (auto simp: led_revoke_def)
qed

text \<open>
  In the in-memory store a record that was added for a fresh key and then revoked is in the list of revoked
  records, unless a clock reading for the list is past its expiry.
\<close>

theorem mem_revocation_listed:
  assumes "mem_inv ms" and "mem_open ms" and "rec_KeyID r \<notin> dom (mem_ledger ms)" and "\<not> rec_Revoked r"
  shows "\<exists>ms1 ms2 w1 w2 w3 rs.
      memoryStore_SetRecord r ms w = (Return None, ms1, w1) \<and>
      memoryStore_Revoke [rec_KeyID r] ms1 w1 = (Return None, ms2, w2) \<and>
      memoryStore_GetRevoked clk order ms2 w2 = (Return (Inr rs), ms2, w3) \<and>
      (all_readings clk w2 w3 (\<lambda>t. \<not> Before (rec_Expires r) t) \<longrightarrow> rec_KeyID r \<in> rec_KeyID ` set rs)"
proof -
  have "mem_inv ms \<and> mem_open ms" using assms by simp
  from mem.add_revoke_listed [where clk = clk and order = order and w = w, OF this TrueI assms(3,4)] show ?thesis
    by (simp add: memoryStorer_def) blast
qed

theorem mem_revocation_listed_witness:
  "\<exists>ms1 ms2 w1 w2 w3 rs.
      memoryStore_SetRecord wrec newMemoryStore world0 = (Return None, ms1, w1) \<and>
      memoryStore_Revoke [''alice_1''] ms1 w1 = (Return None, ms2, w2) \<and>
      memoryStore_GetRevoked (\<lambda>_. 50) (\<lambda>_ _. 0) ms2 w2 = (Return (Inr rs), ms2, w3) \<and>
      ''alice_1'' \<in> rec_KeyID ` set rs"
proof -
  have "mem_ledger newMemoryStore = Map.empty" by (simp add: mem_ledger_def entries_def newMemoryStore_def)
  moreover have "rec_KeyID wrec = ''alice_1''" "rec_Expires wrec = 100" "\<not> rec_Revoked wrec" by (simp_all add: wrec_def)
  ultimately show ?thesis
    using mem_revocation_listed [OF mem_inv_new mem_open_new, of wrec world0 "\<lambda>_. 50" "\<lambda>_ _. 0"]
    by (simp add: Before_def all_readings_def)
qed

text \<open>
  The same for the SQL store while the database answers and its driver delivers text columns as bytes.
\<close>

theorem sql_revocation_listed:
  assumes "sql_inv d" and "sql_open_conn d" and "sql_up env w"
    and "rec_KeyID r \<notin> dom (sql_ledger d)" and "\<not> rec_Revoked r"
  shows "\<exists>d1 d2 w1 w2 w3 rs.
      sqlStore_SetRecord env r d w = (Return None, d1, w1) \<and>
      sqlStore_Revoke env [rec_KeyID r] d1 w1 = (Return None, d2, w2) \<and>
      sqlStore_GetRevoked env clk d2 w2 = (Return (Inr rs), d2, w3) \<and>
      (all_readings clk w2 w3 (\<lambda>t. \<not> Before (rec_Expires r) t) \<longrightarrow> rec_KeyID r \<in> rec_KeyID ` set rs)"
proof -
  have "sql_inv d \<and> sql_open_conn d" using assms by simp
  from sql.add_revoke_listed [where clk = clk, OF this assms(3-5)] show ?thesis
    by (simp add: sqlStorer_def) blast
qed

theorem sql_revocation_listed_witness:
  "\<exists>d1 d2 w1 w2 w3 rs.
      sqlStore_SetRecord wenv (wrec\<lparr>rec_KeyID := ''bob_1''\<rparr>) wdb world0 = (Return None, d1, w1) \<and>
      sqlStore_Revoke wenv [''bob_1''] d1 w1 = (Return None, d2, w2) \<and>
      sqlStore_GetRevoked wenv (\<lambda>_. 50) d2 w2 = (Return (Inr rs), d2, w3) \<and>
      ''bob_1'' \<in> rec_KeyID ` set rs"
  using sql_revocation_listed [of wdb wenv world0 "wrec\<lparr>rec_KeyID := ''bob_1''\<rparr>" "\<lambda>_. 50"]
  by (simp add: wrec_def Before_def all_readings_def)

text \<open>
  Without expired records, the in-memory listing holds no record that had expired before every reading of the clock
  and holds every record that had not expired at any reading; the SQL listing does the same.
\<close>

theorem stores_List_current:
  assumes "mem_inv ms" and "sql_inv d" and "sql_open_conn d" and "sql_up env w"
    and "\<And>i. lo \<le> clk i" and "\<And>i. clk i \<le> hi"
  shows "(\<exists>rs w'. memoryStore_List clk order False ms w = (Return (Inr rs), ms, w')
        \<and> {r \<in> ran (mem_ledger ms). hi \<le> rec_Expires r} \<subseteq> norm_rec ` set rs
        \<and> norm_rec ` set rs \<subseteq> {r \<in> ran (mem_ledger ms). lo \<le> rec_Expires r})
    \<and> (\<exists>rs w'. sqlStore_List env clk False d w = (Return (Inr rs), d, w')
        \<and> {r \<in> ran (sql_ledger d). hi \<le> rec_Expires r} \<subseteq> norm_rec ` set rs
        \<and> norm_rec ` set rs \<subseteq> {r \<in> ran (sql_ledger d). lo \<le> rec_Expires r})"
proof -
  obtain rs w' where m: "memoryStore_List clk order False ms w = (Return (Inr rs), ms, w')"
      "listed_at clk w w' (mem_ledger ms) (\<lambda>_. True) rs"
    using mem_List_current [OF assms(1)] by blast
  obtain rs2 w2 where q: "sqlStore_List env clk False d w = (Return (Inr rs2), d, w2)"
      "listed_at clk w w2 (sql_ledger d) (\<lambda>_. True) rs2"
    using sql.list_law [of d env w, where clk = clk] assms(2-4) by (auto simp: sqlStorer_def)
  note bounds = listed_bounds [OF _ assms(5,6)]
  from m(1) q(1) bounds [OF m(2)] bounds [OF q(2)] show ?thesis by blast
qed

theorem stores_List_current_witness:
  "\<exists>rs w'. memoryStore_List (\<lambda>_. 50) (\<lambda>_ _. 0) False wmem world0 = (Return (Inr rs), wmem, w')
     \<and> norm_rec ` set rs \<subseteq> {r \<in> ran (mem_ledger wmem). 50 \<le> rec_Expires r}"
  using stores_List_current [of wmem wdb wenv world0 50 "\<lambda>_. 50" 50 "\<lambda>_ _. 0"] by auto

text \<open>
  The SQL store refuses a record whose key id is taken (two certificates for one user in one second) and leaves the
  table as it was, where the in-memory store replaces the older record.
\<close>

theorem duplicate_key_id:
  assumes "sql_open_conn d" and "sql_up env w" and "rec_KeyID r \<in> dom (sql_ledger d)" and "mem_open ms"
  shows "(\<exists>e w'. sqlStore_SetRecord env r d w = (Return (Some e), d, w'))
    \<and> (\<exists>ms'. memoryStore_SetRecord r ms w = (Return None, ms', w) \<and> mem_ledger ms' (rec_KeyID r) = Some (norm_rec r))"
  using assms mem_SetRecord_ledger [OF assms(4), of r w]
  by (auto simp: sqlStore_SetRecord_def Ping_ok StringSlice_Value_def Exec_def insert_row_def dom_sql_ledger led_add_def)

theorem duplicate_key_id_witness:
  "\<exists>e w'. sqlStore_SetRecord wenv wrec wdb world0 = (Return (Some e), wdb, w')"
  using duplicate_key_id [of wdb wenv world0 wrec wmem] by (simp add: wrec_def)

text \<open>
  A list of principals written by Value is read back by Scan when the driver delivers the column as bytes.
\<close>

theorem StringSlice_roundtrip:
  "\<exists>text. StringSlice_Value ss = Inr (DString text) \<and> StringSlice_Scan old (DBytes text) = Inr ss"
  by (simp add: StringSlice_Value_def StringSlice_Scan_def ConvertValue_def json_roundtrip)

text \<open>
  With a driver that delivers text columns as strings, Scan ignores the column, so every record the SQL store
  lists has no principals and no error is reported.
\<close>

theorem sqlStore_List_loses_principals:
  assumes "\<not> as_bytes env" and "sqlStore_List env clk b d w = (Return (Inr rs), d', w')"
  shows "\<forall>r \<in> set rs. rec_Principals r = []"
proof -
  have q: "\<forall>r \<in> set xs. rec_Principals r = []" if "scan_rows env ys = Inr xs" for xs ys
    using that assms(1)
    by (induction ys arbitrary: xs)
      (auto simp: scan_row_def column_def StringSlice_Scan_def ConvertValue_def split: sum.splits)
  have "\<forall>r \<in> set xs. rec_Principals r = []" if "Query env c d v = (Inr xs, v')" for c v xs v'
    using that q by (auto simp: Query_def Let_def split: fault.splits)
  with assms(2) show ?thesis
    by (auto simp: sqlStore_List_def split: prod.splits option.splits if_splits)
qed

theorem sqlStore_List_loses_principals_witness:
  "\<exists>rs w'. sqlStore_List (wenv\<lparr>as_bytes := False\<rparr>) (\<lambda>_. 50) True wdb world0 = (Return (Inr rs), wdb, w')
     \<and> rs \<noteq> [] \<and> (\<forall>r \<in> set rs. rec_Principals r = [])"
proof -
  let ?env = "wenv\<lparr>as_bytes := False\<rparr>"
  obtain rs w' where l: "sqlStore_List ?env (\<lambda>_. 50) True wdb world0 = (Return (Inr rs), wdb, w')" and "rs \<noteq> []"
    by (simp add: sqlStore_List_def Ping_def Query_def wstore_defs scan_row_def column_def StringSlice_Scan_def ConvertValue_def)
  with sqlStore_List_loses_principals [OF _ l] show ?thesis by simp
qed

text \<open>
  MakeRecord keeps the key id, the principals and both ends of the validity of the certificate, which can be read back
  from the record's times, and starts unrevoked.
\<close>

theorem MakeRecord_keeps:
  assumes "MakeRecord ssh cert = Return r"
  shows "rec_KeyID r = cert_KeyId cert \<and> rec_Principals r = cert_ValidPrincipals cert
    \<and> uint64 (Unix (rec_CreatedAt r)) = cert_ValidAfter cert
    \<and> uint64 (Unix (rec_Expires r)) = cert_ValidBefore cert \<and> \<not> rec_Revoked r"
  using MakeRecord_fields [OF assms] by simp

theorem MakeRecord_keeps_witness:
  "\<exists>r. MakeRecord wssh wcert = Return r \<and> uint64 (Unix (rec_Expires r)) = 18446744073709551615"
proof -
  obtain r where "MakeRecord wssh wcert = Return r"
    by (simp add: MakeRecord_def GetPublicKey_def wssh_def Let_def)
  with MakeRecord_keeps [OF this] show ?thesis by (simp add: wcert_def)
qed

end
