(* ===== verification/Server_Guards.thy ===== *)
theory Server_Guards
  imports Server Auth_Github Store
begin

text \<open>
  What guards the server's routes: which requests can change the store, what the login flow checks, and that a panic in a
  handler never leaves the server. The packages around the handlers enter through what they document.
\<close>

section \<open>What the packages document\<close>

text \<open>The router only picks a handler of a route that the request matches.\<close>

definition route_matches :: "route \<Rightarrow> request \<Rightarrow> bool" where
  "route_matches rt r \<longleftrightarrow>
     (case route_method rt of None \<Rightarrow> True | Some mth \<Rightarrow> r_Method r = mth) \<and>
     (if route_prefix rt then HasPrefix (r_Path r) (route_path rt) else r_Path r = route_path rt)"

definition mux_ok :: "('k, 'ca, 's) server_env \<Rightarrow> bool" where
  "mux_ok env \<longleftrightarrow>
     (\<forall>r hn. mux env setupRoutes r = Inr hn \<longrightarrow>
        (\<exists>rt \<in> set setupRoutes. route_handler rt = hn \<and> route_matches rt r))"

text \<open>CSRF protection hands a request on, perhaps with headers added, or answers it without touching the store.\<close>

definition csrf_ok :: "('k, 'ca, 's) server_env \<Rightarrow> bool" where
  "csrf_ok env \<longleftrightarrow>
     (\<forall>conf r next h w.
        (\<exists>h'. hs_store h' = hs_store h \<and> hs_session h' = hs_session h \<and>
              w_status (hs_resp h') = w_status (hs_resp h) \<and> csrf_Protect env conf r next h w = next h' w) \<or>
        (\<exists>h' w'. csrf_Protect env conf r next h w = (Return (), h', w') \<and> hs_store h' = hs_store h))"

text \<open>The recovery handler answers a panic with the status 500.\<close>

definition recovery_ok :: "('k, 'ca, 's) server_env \<Rightarrow> bool" where
  "recovery_ok env \<longleftrightarrow>
     (\<forall>next h w. recovery env next h w =
        (case next h w of
           (Return u, h', w') \<Rightarrow> (Return u, h', w')
         | (Panic, h', w') \<Rightarrow> (Return (), h'\<lparr>hs_resp := write_header 500 (hs_resp h')\<rparr>, w')))"

text \<open>Listing records leaves a store as it is, as both stores do.\<close>

definition reads_keep :: "'s CertStorer \<Rightarrow> bool" where
  "reads_keep st \<longleftrightarrow>
     (\<forall>b s w. fst (snd (store_List st b s w)) = s) \<and> (\<forall>s w. fst (snd (store_GetRevoked st s w)) = s)"

lemma memoryStorer_reads_keep: "reads_keep (memoryStorer clk order)"
  by (auto simp: reads_keep_def memoryStorer_def memoryStore_List_def memoryStore_GetRevoked_def
      split: prod.split outcome.split sum.split)

lemma sqlStorer_reads_keep: "reads_keep (sqlStorer env clk)"
  by (auto simp: reads_keep_def sqlStorer_def sqlStore_List_def sqlStore_GetRevoked_def Let_def
      split: prod.split outcome.split sum.split option.split)

section \<open>Handlers that leave the store alone\<close>

lemma store_kept_session [simp]:
  "store_kept (getSessionVariable k)" "store_kept (setSessionVariable env k v)"
  "store_kept (getAuthToken env)" "store_kept (setAuthToken env t)"
  by (auto simp: getAuthToken_def setAuthToken_def)
    (simp_all add: store_kept_def getSessionVariable_def setSessionVariable_def Let_def)

lemma store_kept_sign_fail [simp]: "store_kept (sign_fail env code e)"
  by (auto simp: sign_fail_def)

lemma store_kept_pages [simp]: "store_kept unauthorized_page" "store_kept error_page"
  by (auto simp: unauthorized_page_def error_page_def)

lemma store_kept_auth [simp]: "store_kept (auth env a r)"
  by (auto simp: auth_def auth_login_def auth_callback_def Let_def split: sum.split)

lemma store_kept_index [simp]: "store_kept (index env r)"
  by (auto simp: index_def)

lemma store_kept_getAllCerts [simp]: "store_kept (getAllCerts env r)"
  by (auto simp: getAllCerts_def)

lemma store_kept_on_store:
  "(\<And>s w. fst (snd (op s w)) = s) \<Longrightarrow> store_kept (on_store op)"
  by (simp add: store_kept_def on_store_def split: prod.split) (metis fst_conv snd_conv)

lemma store_kept_reads:
  assumes "reads_keep (app_certstore a)"
  shows "store_kept (revoked env a)" and "store_kept (getCertsJSON env a r)"
  using assms
  by (auto simp: revoked_def getCertsJSON_def reads_keep_def Let_def intro!: store_kept_on_store split: sum.split option.split)

section \<open>The login guard\<close>

definition session_token :: "('k, 'ca, 's) server_env \<Rightarrow> string gomap \<Rightarrow> Token" where
  "session_token env values = token_Unmarshal env (case map_of values ''token'' of Some v \<Rightarrow> v | None \<Rightarrow> '''')"

lemma getAuthToken_eq: "getAuthToken env h w = (Return (session_token env (hs_session h)), h, w)"
  by (simp add: getAuthToken_def session_token_def act_bind_def getSessionVariable_def act_ret_def)

text \<open>Whether the guard lets a session in at a world, and the world behind the questions it asks.\<close>

definition logged_in ::
  "('k, 'ca, 's) server_env \<Rightarrow> ('k, 'ca, 's) application \<Rightarrow> string gomap \<Rightarrow> world \<Rightarrow> world \<Rightarrow> bool" where
  "logged_in env a values w w1 \<longleftrightarrow>
     TokenValid (env_oauth env) (env_clk env (ticks w)) (session_token env values) \<and>
     prov_Valid (app_provider a) (session_token env values) (w\<lparr>ticks := Suc (ticks w)\<rparr>) = (Return True, w1)"

lemma authed_logged_in:
  "logged_in env a (hs_session h) w w1 \<Longrightarrow> authed env a r next h w = next h w1"
  by (simp add: authed_def logged_in_def act_bind_def getAuthToken_eq lift_io_def token_Valid_def io_defs)

lemma authed_not_logged_in:
  assumes "\<And>w1. \<not> logged_in env a (hs_session h) w w1"
  shows "hs_store (fst (snd (authed env a r next h w))) = hs_store h"
proof -
  let ?t = "session_token env (hs_session h)"
  let ?deny = "act_bind (setSessionVariable env ''origin_url'' (r_URI r)) (\<lambda>_. http_Redirect r ''/auth/login'' 303)"
  have k: "store_kept ?deny" by auto
  then have d: "hs_store (fst (snd (?deny h v))) = hs_store h" for v by (simp add: store_kept_def)
  let ?w = "w\<lparr>ticks := Suc (ticks w)\<rparr>"
  show ?thesis
  proof (cases "TokenValid (env_oauth env) (env_clk env (ticks w)) ?t")
    case False
    then have "authed env a r next h w = ?deny h ?w"
      by (simp add: authed_def act_bind_eq [OF getAuthToken_eq] act_bind_eq [where m = "lift_io _"] token_Valid_def io_defs)
    with d show ?thesis by simp
  next
    case True
    obtain res w1 where v: "prov_Valid (app_provider a) ?t ?w = (res, w1)" by (cases "prov_Valid (app_provider a) ?t ?w")
    with assms [of w1] True have "res \<noteq> Return True" by (auto simp: logged_in_def)
    moreover have "authed env a r next h w =
        (case res of Panic \<Rightarrow> (Panic, h, w1) | Return ok \<Rightarrow> if ok then next h w1 else ?deny h w1)"
      using True v
      by (simp add: authed_def act_bind_eq [OF getAuthToken_eq] token_Valid_def io_defs)
        (simp add: act_bind_def lift_io_def token_Valid_def io_defs split: outcome.split)
    ultimately show ?thesis using d by (cases res) auto
  qed
qed

section \<open>Signing\<close>

lemma sign_rejected:
  assumes "fst (prov_Valid (app_provider a) (tokenFromRequest r) w) \<noteq> Return True"
  shows "hs_store (fst (snd (sign env a r h w))) = hs_store h"
proof -
  obtain res w1 where v: "prov_Valid (app_provider a) (tokenFromRequest r) w = (res, w1)"
    by (cases "prov_Valid (app_provider a) (tokenFromRequest r) w")
  have "store_kept (sign_fail env 401 errUnauthorized)" by simp
  then have "hs_store (fst (snd (sign_fail env 401 errUnauthorized h w1))) = hs_store h" by (simp add: store_kept_def)
  with v assms show ?thesis
    by (cases res) (simp_all add: sign_def Let_def act_bind_def lift_io_def)
qed

section \<open>Requests\<close>

text \<open>The routes, by what a request must be to match them.\<close>

lemma setupRoutes_cases:
  assumes "rt \<in> set setupRoutes" and "route_matches rt r"
  obtains (index) "route_handler rt = Authed HIndex"
  | (revoke) "route_handler rt = Authed (Csrf HRevoke)" "r_Method r = ''POST''" "r_Path r = ''/admin/revoke''"
  | (certs) "route_handler rt = Authed (Csrf HAllCerts)"
  | (json) "route_handler rt = Authed HCertsJSON"
  | (auth) "route_handler rt = HAuth"
  | (revoked) "route_handler rt = HRevoked"
  | (sign) "route_handler rt = HSign" "r_Method r = ''POST''" "r_Path r = ''/sign''"
  | (other) "route_handler rt \<in> {HHealthcheck, HMetrics, HStatic}"
  using assms by (auto simp: setupRoutes_def on_path_def route_matches_def)

text \<open>The state a request starts in, and the one behind the version header.\<close>

definition start_state :: "('k, 'ca, 's) server_env \<Rightarrow> request \<Rightarrow> 's \<Rightarrow> 's hstate" where
  "start_state env r s = \<lparr>hs_store = s, hs_session = r_Session r,
     hs_resp = new_response\<lparr>w_header := [(''X-Cashier-Version'', lib_Version env)]\<rparr>\<rparr>"

lemma serve_eq:
  assumes "recovery_ok env" and "mux env setupRoutes r = Inr hn"
  shows "serve env a r s w =
    (case serve_handler env a r hn (start_state env r s) w of
       (Return u, h', w') \<Rightarrow> (Return u, h', w')
     | (Panic, h', w') \<Rightarrow> (Return (), h'\<lparr>hs_resp := write_header 500 (hs_resp h')\<rparr>, w'))"
proof -
  have "serve env a r s w = recovery env (serve_handler env a r hn) (start_state env r s) w"
    using assms(2)
    by (simp add: serve_def mwVersion_def act_bind_def Header_Set_def on_resp_def new_response_def start_state_def)
  with assms(1) show ?thesis by (simp add: recovery_ok_def)
qed

lemma serve_store:
  assumes "recovery_ok env" and "mux env setupRoutes r = Inr hn"
  shows "hs_store (fst (snd (serve env a r s w))) = hs_store (fst (snd (serve_handler env a r hn (start_state env r s) w)))"
  unfolding serve_eq [OF assms] by (simp split: prod.split outcome.split)

lemma serve_handler_other:
  "hn \<in> {HHealthcheck, HMetrics, HStatic} \<Longrightarrow> store_kept (serve_handler env a r hn)"
  by auto

lemma store_kept_at: "store_kept m \<Longrightarrow> hs_store (fst (snd (m h w))) = hs_store h"
  by (simp add: store_kept_def)

lemma csrf_kept:
  assumes "csrf_ok env" and "store_kept next"
  shows "store_kept (csrf_Protect env conf r next)"
  unfolding store_kept_def
proof (intro allI)
  fix h w
  from assms(1) consider h' where "hs_store h' = hs_store h" "csrf_Protect env conf r next h w = next h' w"
    | h' w' where "csrf_Protect env conf r next h w = (Return (), h', w')" "hs_store h' = hs_store h"
    unfolding csrf_ok_def by blast
  then show "hs_store (fst (snd (csrf_Protect env conf r next h w))) = hs_store h"
    using assms(2) by cases (simp_all add: store_kept_def)
qed

lemma authed_kept:
  assumes "store_kept next"
  shows "store_kept (authed env a r next)"
  unfolding store_kept_def
proof (intro allI)
  fix h w
  show "hs_store (fst (snd (authed env a r next h w))) = hs_store h"
  proof (cases "\<exists>w1. logged_in env a (hs_session h) w w1")
    case True
    then obtain w1 where "logged_in env a (hs_session h) w w1" ..
    from authed_logged_in [OF this] assms show ?thesis by (simp add: store_kept_def)
  next
    case False
    then show ?thesis by (intro authed_not_logged_in) blast
  qed
qed

section \<open>A concrete server for the witnesses\<close>

definition first_route :: "route list \<Rightarrow> request \<Rightarrow> int + handler" where
  "first_route rts r =
     (case filter (\<lambda>rt. route_matches rt r) rts of [] \<Rightarrow> Inl 404 | rt # _ \<Rightarrow> Inr (route_handler rt))"

lemma first_route_matches:
  assumes "first_route rts r = Inr hn"
  shows "\<exists>rt \<in> set rts. route_handler rt = hn \<and> route_matches rt r"
proof (cases "filter (\<lambda>rt. route_matches rt r) rts")
  case (Cons rt rest)
  then have "rt \<in> set rts" "route_matches rt r" by (auto simp: filter_eq_Cons_iff)
  with Cons assms show ?thesis by (auto simp: first_route_def)
qed (use assms in \<open>simp add: first_route_def\<close>)

definition wserver :: "(string, unit, 's) server_env" where
  "wserver = \<lparr>env_ssh = wssh, env_oauth = wapi, env_clk = (\<lambda>_. 50), env_rand = (\<lambda>_. replicate 32 (CHR ''x'')),
     env_json = (\<lambda>s. Inr (JObject [(''key'', JString s), (''message'', JString ''why'')])), env_parse_time = (\<lambda>_. Inr 100),
     token_Marshal = AccessToken, token_Unmarshal = (\<lambda>s. wtoken\<lparr>AccessToken := s, Expiry := 50 + Hour\<rparr>),
     session_Save = (\<lambda>_. None), net_Write = (\<lambda>_. None), csrf_Token = (\<lambda>_. ''csrf''),
     csrf_Protect = (\<lambda>conf r next. next),
     recovery = (\<lambda>next h w. case next h w of (Return u, h', w') \<Rightarrow> (Return u, h', w')
        | (Panic, h', w') \<Rightarrow> (Return (), h'\<lparr>hs_resp := write_header 500 (hs_resp h')\<rparr>, w')),
     mux = first_route,
     lib_Version = ''dev'', metrics_page = (\<lambda>_. ''''), static_page = (\<lambda>_. '''')\<rparr>"

definition wprovider :: Provider where
  "wprovider = github_provider wapi wgh (\<lambda>_. 50)
     \<lparr>gh_config = \<lparr>ClientID = '''', ClientSecret = '''', RedirectURL = '''', oauth2_Endpoint = \<lparr>AuthURL = '''', TokenURL = ''''\<rparr>, Scopes = []\<rparr>,
      gh_organization = ''acme'', gh_whitelist = []\<rparr>"

definition wconf :: Server where
  "wconf = \<lparr>UseTLS = False, TLSKey = '''', TLSCert = '''', LetsEncryptServername = '''', LetsEncryptCache = '''', Addr = '''',
     Port = 10000, User = '''', CookieSecret = '''', CSRFSecret = '''', HTTPLogFile = '''',
     server_Database = \<lparr>db_Type = ''mem'', db_DBName = '''', db_Address = '''', db_Username = '''', db_Password = '''', db_Filename = ''''\<rparr>,
     RequireReason = True, ShutdownTimeout = ''''\<rparr>"

definition wapplication :: "(string, unit, memoryStore) application" where
  "wapplication = \<lparr>app_provider = wprovider, app_certstore = memoryStorer (\<lambda>_. 50) (\<lambda>_ _. 0), app_keysigner = wsigner,
     app_config = wconf, app_requireReason = True\<rparr>"

definition wrequest :: "string \<Rightarrow> string \<Rightarrow> request" where
  "wrequest mth pth = \<lparr>r_Method = mth, r_Path = pth, r_URI = pth, r_Authorization = '''', r_Form = [(''cert_id'', [''alice_1''])],
     r_Query = [], r_Body = ''ssh-rsa AAAA'', r_Session = [(''token'', ''tok'')]\<rparr>"

lemma wserver_ok [simp]: "mux_ok wserver" "csrf_ok wserver" "recovery_ok wserver"
proof -
  show "mux_ok wserver" using first_route_matches by (simp add: mux_ok_def wserver_def)
  show "csrf_ok wserver" by (auto simp: csrf_ok_def wserver_def)
  show "recovery_ok wserver" by (simp add: recovery_ok_def wserver_def)
qed

lemma wserver_fields [simp]:
  "env_ssh wserver = wssh" "env_oauth wserver = wapi" "env_clk wserver = (\<lambda>_. 50)" "session_Save wserver vs = None"
  "net_Write wserver n = None" "csrf_Protect wserver c r next = next" "mux wserver = first_route"
  "token_Unmarshal wserver s = wtoken\<lparr>AccessToken := s, Expiry := 50 + Hour\<rparr>" "token_Marshal wserver = AccessToken" "env_rand wserver n = replicate 32 (CHR ''x'')"
  by (simp_all add: wserver_def)

lemma wapplication_fields [simp]:
  "app_provider wapplication = wprovider" "app_certstore wapplication = memoryStorer (\<lambda>_. 50) (\<lambda>_ _. 0)"
  "app_keysigner wapplication = wsigner" "app_requireReason wapplication"
  by (simp_all add: wapplication_def)

lemma wprovider_Valid:
  "AccessToken t \<noteq> '''' \<Longrightarrow> Expiry t = zero_time \<or> 50 \<le> Expiry t \<Longrightarrow>
   \<exists>w1. prov_Valid wprovider t w = (Return True, w1)"
  by (simp add: wprovider_def github_provider_def github_Valid_def github_Username_def token_Valid_def wgh_def wapi_def io_defs)

lemma wlogin: "\<exists>w1. logged_in wserver wapplication [(''token'', ''tok'')] w w1"
  using wprovider_Valid [of "wtoken\<lparr>AccessToken := ''tok'', Expiry := 50 + Hour\<rparr>"]
  by (simp add: logged_in_def session_token_def) (simp add: wapi_def wtoken_def Hour_def nano_def)

section \<open>What changes the store\<close>

lemma store_change_guard:
  assumes "mux_ok env" and "csrf_ok env" and "recovery_ok env" and "reads_keep (app_certstore a)"
    and "serve env a r s w = (res, h', w')" and "hs_store h' \<noteq> s"
  shows "r_Method r = ''POST'' \<and>
    (r_Path r = ''/sign'' \<and> (\<exists>w1. prov_Valid (app_provider a) (tokenFromRequest r) w = (Return True, w1)) \<or>
     r_Path r = ''/admin/revoke'' \<and> (\<exists>w1. logged_in env a (r_Session r) w w1))"
proof (cases "mux env setupRoutes r")
  case (Inl code)
  with assms(5,6) show ?thesis by (auto simp: serve_def WriteHeader_def on_resp_def)
next
  case (Inr hn)
  let ?h = "start_state env r s"
  have sess: "hs_session ?h = r_Session r" and st: "hs_store ?h = s" by (simp_all add: start_state_def)
  have ch: "hs_store (fst (snd (serve_handler env a r hn ?h w))) \<noteq> s"
    using serve_store [OF assms(3) Inr, of a s w] assms(5,6) by simp
  then have nk: "\<not> store_kept (serve_handler env a r hn)" using store_kept_at st by metis
  note reads = store_kept_reads [OF assms(4)]
  from assms(1) Inr obtain rt where "rt \<in> set setupRoutes" "route_matches rt r" and hn: "hn = route_handler rt"
    unfolding mux_ok_def by blast
  then show ?thesis
  proof (cases rule: setupRoutes_cases)
    case revoke
    have "\<exists>w1. logged_in env a (hs_session ?h) w w1"
    proof (rule ccontr)
      assume "\<not> ?thesis"
      then have "hs_store (fst (snd (authed env a r (serve_handler env a r (Csrf HRevoke)) ?h w))) = s"
        using authed_not_logged_in [of env a ?h w] st by simp
      with ch hn revoke show False by simp
    qed
    with sess revoke show ?thesis by simp
  next
    case sign
    have "fst (prov_Valid (app_provider a) (tokenFromRequest r) w) = Return True"
    proof (rule ccontr)
      assume "\<not> ?thesis"
      from sign_rejected [OF this, of env ?h] ch hn sign st show False by simp
    qed
    with sign show ?thesis by (cases "prov_Valid (app_provider a) (tokenFromRequest r) w") auto
  qed (use nk hn reads assms(2) serve_handler_other in \<open>auto intro!: authed_kept csrf_kept\<close>)
qed

section \<open>Properties\<close>

text \<open>
  Every change of the certificate store comes from one of two requests: POST /sign with a bearer token that the provider accepts, or POST
  /admin/revoke with a session whose token is valid and accepted by the provider. No other request, and neither of the two without
  the token, changes the store, whether the handler returns or panics.
\<close>

theorem store_change_authorized:
  assumes "mux_ok env" and "csrf_ok env" and "recovery_ok env" and "reads_keep (app_certstore a)"
    and "serve env a r s w = (res, h', w')" and "hs_store h' \<noteq> s"
  shows "r_Method r = ''POST'' \<and>
    (r_Path r = ''/sign'' \<and> (\<exists>w1. prov_Valid (app_provider a) (tokenFromRequest r) w = (Return True, w1)) \<or>
     r_Path r = ''/admin/revoke'' \<and> (\<exists>w1. logged_in env a (r_Session r) w w1))"
  by (rule store_change_guard [OF assms])

theorem store_change_authorized_witness:
  "\<exists>res h' w'. serve wserver wapplication (wrequest ''POST'' ''/admin/revoke'') wmem world0 = (res, h', w') \<and> hs_store h' \<noteq> wmem
     \<and> (\<exists>w1. logged_in wserver wapplication [(''token'', ''tok'')] world0 w1)"
proof -
  let ?r = "wrequest ''POST'' ''/admin/revoke''"
  have m: "mux wserver setupRoutes ?r = Inr (Authed (Csrf HRevoke))"
    by (simp add: first_route_def setupRoutes_def on_path_def route_matches_def wrequest_def HasPrefix_def)
  obtain w1 where l: "logged_in wserver wapplication (hs_session (start_state wserver ?r wmem)) world0 w1"
    using wlogin by (auto simp: start_state_def wrequest_def)
  have e: "serve_handler wserver wapplication ?r (Authed (Csrf HRevoke)) (start_state wserver ?r wmem) world0 =
      revoke wapplication ?r (start_state wserver ?r wmem) w1"
    by (simp add: authed_logged_in [OF l])
  obtain h' w' where h: "serve wserver wapplication ?r wmem world0 = (Return (), h', w')" "hs_store h' \<noteq> wmem"
    unfolding serve_eq [OF wserver_ok(3) m] e
    by (simp add: revoke_def act_bind_def on_store_def memoryStorer_def memoryStore_Revoke_def
        form_all_def wrequest_def start_state_def wmem_def wrec_def http_Redirect_def Header_Set_def WriteHeader_def on_resp_def act_ret_def)
  from store_change_authorized [OF wserver_ok, of wapplication, OF _ h] memoryStorer_reads_keep
  show ?thesis using h by (auto simp: wrequest_def)
qed

text \<open>
  No handler can take the server down: every request is answered, and one whose handler panics before it has sent a status gets the status 500.
\<close>

theorem serve_returns:
  assumes "recovery_ok env"
  shows "fst (serve env a r s w) = Return () \<and>
    (\<forall>hn h' w'. mux env setupRoutes r = Inr hn \<and> serve_handler env a r hn (start_state env r s) w = (Panic, h', w')
        \<and> w_status (hs_resp h') = None \<longrightarrow>
      w_status (hs_resp (fst (snd (serve env a r s w)))) = Some 500)"
proof (cases "mux env setupRoutes r")
  case (Inl code)
  then show ?thesis by (simp add: serve_def WriteHeader_def on_resp_def)
next
  case (Inr hn)
  then show ?thesis
    by (simp add: serve_eq [OF assms Inr] write_header_def split: prod.split outcome.split)
qed

theorem serve_returns_witness:
  "w_status (hs_resp (fst (snd (serve wserver wapplication
      ((wrequest ''POST'' ''/admin/revoke'')\<lparr>r_Form := [(''cert_id'', [''nobody''])]\<rparr>) wmem world0)))) = Some 500"
proof -
  let ?r = "(wrequest ''POST'' ''/admin/revoke'')\<lparr>r_Form := [(''cert_id'', [''nobody''])]\<rparr>"
  have m: "mux wserver setupRoutes ?r = Inr (Authed (Csrf HRevoke))"
    by (simp add: first_route_def setupRoutes_def on_path_def route_matches_def wrequest_def HasPrefix_def)
  obtain w1 where l: "logged_in wserver wapplication (hs_session (start_state wserver ?r wmem)) world0 w1"
    using wlogin by (auto simp: start_state_def wrequest_def)
  have e: "serve_handler wserver wapplication ?r (Authed (Csrf HRevoke)) (start_state wserver ?r wmem) world0 =
      revoke wapplication ?r (start_state wserver ?r wmem) w1"
    by (simp add: authed_logged_in [OF l])
  obtain h' w' where "revoke wapplication ?r (start_state wserver ?r wmem) w1 = (Panic, h', w')" "w_status (hs_resp h') = None"
    by (simp add: revoke_def act_bind_def on_store_def memoryStorer_def memoryStore_Revoke_def
        form_all_def start_state_def wmem_def new_response_def)
  with e m serve_returns [OF wserver_ok(3), of wapplication ?r wmem world0] show ?thesis by auto
qed

end
