(* ===== verification/Store_Any.thy ===== *)
theory Store_Any
  imports Store
begin

text \<open>
  A value of the interface \<^verbatim>\<open>CertStorer\<close> as \<^verbatim>\<open>store.New\<close> gives it to the server: a store of either kind, whose operations are
  those of its kind. It keeps the contract of a store, so that what is proved in \<open>cert_storer\<close> holds for every server.
\<close>

section \<open>Method calls through the interface\<close>

type_synonym any_store = "memoryStore + db"

definition dispatch :: "(memoryStore, 'a) store_op \<Rightarrow> (db, 'a) store_op \<Rightarrow> (any_store, 'a) store_op" where
  "dispatch f g s w =
     (case s of
        Inl ms \<Rightarrow> (case f ms w of (r, ms', w') \<Rightarrow> (r, Inl ms', w'))
      | Inr d \<Rightarrow> (case g d w of (r, d', w') \<Rightarrow> (r, Inr d', w')))"

definition anyStorer :: "(nat \<Rightarrow> time) \<Rightarrow> (nat \<Rightarrow> nat \<Rightarrow> nat) \<Rightarrow> sql_env \<Rightarrow> any_store CertStorer" where
  "anyStorer clk order env =
     (let m = memoryStorer clk order; q = sqlStorer env clk
      in \<lparr>store_Get = (\<lambda>k. dispatch (store_Get m k) (store_Get q k)),
          store_SetRecord = (\<lambda>r. dispatch (store_SetRecord m r) (store_SetRecord q r)),
          store_List = (\<lambda>b. dispatch (store_List m b) (store_List q b)),
          store_Revoke = (\<lambda>ids. dispatch (store_Revoke m ids) (store_Revoke q ids)),
          store_GetRevoked = dispatch (store_GetRevoked m) (store_GetRevoked q),
          store_Close = dispatch (store_Close m) (store_Close q)\<rparr>)"

fun any_ledger :: "any_store \<Rightarrow> ledger" where
  "any_ledger (Inl ms) = mem_ledger ms"
| "any_ledger (Inr d) = sql_ledger d"

fun any_usable :: "any_store \<Rightarrow> bool" where
  "any_usable (Inl ms) = (mem_inv ms \<and> mem_open ms)"
| "any_usable (Inr d) = (sql_inv d \<and> sql_open_conn d)"

section \<open>The contract\<close>

lemma anyStorer_fields [simp]:
  "store_Get (anyStorer clk order env) k = dispatch (store_Get (memoryStorer clk order) k) (store_Get (sqlStorer env clk) k)"
  "store_SetRecord (anyStorer clk order env) r = dispatch (store_SetRecord (memoryStorer clk order) r) (store_SetRecord (sqlStorer env clk) r)"
  "store_List (anyStorer clk order env) b = dispatch (store_List (memoryStorer clk order) b) (store_List (sqlStorer env clk) b)"
  "store_Revoke (anyStorer clk order env) ids = dispatch (store_Revoke (memoryStorer clk order) ids) (store_Revoke (sqlStorer env clk) ids)"
  "store_GetRevoked (anyStorer clk order env) = dispatch (store_GetRevoked (memoryStorer clk order)) (store_GetRevoked (sqlStorer env clk))"
  "store_Close (anyStorer clk order env) = dispatch (store_Close (memoryStorer clk order)) (store_Close (sqlStorer env clk))"
  by (simp_all add: anyStorer_def Let_def)

text \<open>The in-memory store sends no requests, so a reachable database stays reachable.\<close>

definition no_calls :: "'a io \<Rightarrow> bool" where
  "no_calls m \<longleftrightarrow> (\<forall>w. calls (snd (m w)) = calls w)"

lemma no_calls_bind [intro!]:
  assumes "no_calls m" and "\<And>x. no_calls (f x)"
  shows "no_calls (bind_io m f)"
  unfolding no_calls_def
proof
  fix w
  obtain r w1 where m: "m w = (r, w1)" by (cases "m w")
  with assms(1) have "calls w1 = calls w" unfolding no_calls_def by (metis snd_conv)
  with assms(2) m show "calls (snd (bind_io m f w)) = calls w"
    by (cases r) (simp_all add: bind_io_def no_calls_def)
qed

lemma no_calls_prims [simp]: "no_calls (ret x)" "no_calls (Now clk)" "no_calls (draw f)"
  by (simp_all add: no_calls_def io_defs)

lemma no_calls_list_loop: "no_calls (list_loop clk b m)"
proof (induction m)
  case (Cons p m)
  then show ?case by (cases p) auto
qed simp

lemma mem_calls:
  "calls (snd (snd (store_Get (memoryStorer clk order) k ms w))) = calls w"
  "calls (snd (snd (store_SetRecord (memoryStorer clk order) r ms w))) = calls w"
  "calls (snd (snd (store_List (memoryStorer clk order) b ms w))) = calls w"
  "calls (snd (snd (store_Revoke (memoryStorer clk order) ids ms w))) = calls w"
  "calls (snd (snd (store_GetRevoked (memoryStorer clk order) ms w))) = calls w"
proof -
  have l: "calls (snd (snd (memoryStore_List clk order b ms w))) = calls w" for b
    using no_calls_list_loop [of clk b "range_order (order (rands w)) (entries ms)"]
    by (auto simp: mem_List_eq no_calls_def split: prod.split outcome.split elim!: allE [of _ "w\<lparr>rands := Suc (rands w)\<rparr>"])
  then show "calls (snd (snd (store_List (memoryStorer clk order) b ms w))) = calls w" by (simp add: memoryStorer_def)
  from l [of False] show "calls (snd (snd (store_GetRevoked (memoryStorer clk order) ms w))) = calls w"
    by (auto simp: memoryStorer_def memoryStore_GetRevoked_def split: prod.split outcome.split sum.split)
qed (auto simp: memoryStorer_def memoryStore_Get_def memoryStore_SetRecord_def memoryStore_Revoke_def split: option.split prod.split outcome.split)

lemma mem_keeps_up:
  assumes "sql_up env w" and "x = (r, ms', w')" and "calls (snd (snd x)) = calls w"
  shows "sql_up env w'"
  using assms sql_up_later [of env w w'] by simp

lemmas mem_up = mem_keeps_up [OF _ _ mem_calls(1)] mem_keeps_up [OF _ _ mem_calls(2)] mem_keeps_up [OF _ _ mem_calls(3)]
  mem_keeps_up [OF _ _ mem_calls(4)] mem_keeps_up [OF _ _ mem_calls(5)]

interpretation any: cert_storer "anyStorer clk order env" clk any_ledger any_usable "sql_up env"
  for clk order env
proof (unfold_locales, goal_cases)
  case (1 s w k)
  then show ?case
  proof (cases s)
    case (Inl ms)
    with 1 mem.get_law [where s = ms and w = w and k = k and clk = clk and order = order] show ?thesis by (fastforce simp: dispatch_def dest: mem_up(1) [OF 1(2)])
  next
    case (Inr d)
    with 1 sql.get_law [where s = d and w = w and k = k and clk = clk and env = env] show ?thesis by (fastforce simp: dispatch_def)
  qed
next
  case (2 s w r)
  then show ?case
  proof (cases s)
    case (Inl ms)
    with 2 mem.set_law [where s = ms and w = w and r = r and clk = clk and order = order] show ?thesis by (fastforce simp: dispatch_def dest: mem_up(2) [OF 2(2)])
  next
    case (Inr d)
    with 2 sql.set_law [where s = d and w = w and r = r and clk = clk and env = env] show ?thesis by (fastforce simp: dispatch_def)
  qed
next
  case (3 s w ids)
  then show ?case
  proof (cases s)
    case (Inl ms)
    with 3 mem.revoke_law [where s = ms and w = w and ids = ids and clk = clk and order = order] show ?thesis by (fastforce simp: dispatch_def dest: mem_up(4) [OF 3(2)])
  next
    case (Inr d)
    with 3 sql.revoke_law [where s = d and w = w and ids = ids and clk = clk and env = env] show ?thesis by (fastforce simp: dispatch_def)
  qed
next
  case (4 s w)
  then show ?case
  proof (cases s)
    case (Inl ms)
    with 4 mem.list_all_law [where s = ms and w = w and clk = clk and order = order] show ?thesis by (fastforce simp: dispatch_def dest: mem_up(3) [OF 4(2)])
  next
    case (Inr d)
    with 4 sql.list_all_law [where s = d and w = w and clk = clk and env = env] show ?thesis by (fastforce simp: dispatch_def)
  qed
next
  case (5 s w)
  then show ?case
  proof (cases s)
    case (Inl ms)
    with 5 mem.list_law [where s = ms and w = w and clk = clk and order = order] show ?thesis by (fastforce simp: dispatch_def dest: mem_up(3) [OF 5(2)])
  next
    case (Inr d)
    with 5 sql.list_law [where s = d and w = w and clk = clk and env = env] show ?thesis by (fastforce simp: dispatch_def)
  qed
next
  case (6 s w)
  then show ?case
  proof (cases s)
    case (Inl ms)
    with 6 mem.revoked_law [where s = ms and w = w and clk = clk and order = order] show ?thesis by (fastforce simp: dispatch_def dest: mem_up(5) [OF 6(2)])
  next
    case (Inr d)
    with 6 sql.revoked_law [where s = d and w = w and clk = clk and env = env] show ?thesis by (fastforce simp: dispatch_def)
  qed
next
  case (7 s k r)
  then show ?case using mem.keys_law sql.keys_law by (cases s) auto
qed

end
