(* ===== verification/Auth_Google.thy ===== *)
theory Auth_Google
  imports Auth_Types
begin

text \<open>
  \<^verbatim>\<open>server/auth/google/google.go\<close>. The Google API package is a parameter: \<open>NewService\<close> may refuse to make a
  service, \<open>Tokeninfo\<close> answers the audience of a token and \<open>Userinfo\<close> its user.
\<close>

section \<open>The provider\<close>

record google_userinfo =
  ui_Email :: string
  ui_Hd :: string

record google_api =
  UserinfoEmailScope :: string
  UserinfoProfileScope :: string
  NewService :: "nat \<Rightarrow> oauth2_Config \<Rightarrow> Token \<Rightarrow> error option"
  Tokeninfo :: "nat \<Rightarrow> oauth2_Config \<Rightarrow> Token \<Rightarrow> error + string"
  Userinfo :: "nat \<Rightarrow> oauth2_Config \<Rightarrow> Token \<Rightarrow> error + google_userinfo"

record google_Config =
  go_config :: oauth2_Config
  go_domain :: string
  go_whitelist :: "bool gomap"

definition google_New :: "oauth2_api \<Rightarrow> google_api \<Rightarrow> Auth \<Rightarrow> error + google_Config" where
  "google_New api go c =
     (let uw = bool_map (UsersWhitelist c)
      in if map_get (ProviderOpts c) ''domain'' = '''' \<and> length uw = 0
         then Inl (ENew ''either Google Apps domain or users whitelist must be specified'')
         else Inr
           \<lparr>go_config =
              \<lparr>ClientID = OauthClientID c, ClientSecret = OauthClientSecret c,
               RedirectURL = OauthCallbackURL c, oauth2_Endpoint = google_Endpoint api,
               Scopes = [UserinfoEmailScope go, UserinfoProfileScope go]\<rparr>,
            go_domain = map_get (ProviderOpts c) ''domain'',
            go_whitelist = uw\<rparr>)"

definition google_Name :: string where
  "google_Name = ''google''"

definition google_Email :: "google_api \<Rightarrow> google_Config \<Rightarrow> Token \<Rightarrow> string io" where
  "google_Email go c t =
     bind_io (remote (\<lambda>n. NewService go n (go_config c) t)) (\<lambda>err.
       case err of
         Some e \<Rightarrow> ret ''''
       | None \<Rightarrow>
           bind_io (remote (\<lambda>n. Userinfo go n (go_config c) t)) (\<lambda>r.
             case r of Inl e \<Rightarrow> ret '''' | Inr ui \<Rightarrow> ret (ui_Email ui)))"

definition google_Username :: "google_api \<Rightarrow> google_Config \<Rightarrow> Token \<Rightarrow> string io" where
  "google_Username go c t = bind_io (google_Email go c t) (\<lambda>email. ret (before_at email))"

definition google_Valid ::
  "oauth2_api \<Rightarrow> google_api \<Rightarrow> (nat \<Rightarrow> time) \<Rightarrow> google_Config \<Rightarrow> Token \<Rightarrow> bool io" where
  "google_Valid api go clk c t =
     bind_io (not_whitelisted (go_whitelist c) (google_Email go c t)) (\<lambda>denied.
       if denied then ret False
       else bind_io (token_Valid api clk t) (\<lambda>ok.
         if \<not> ok then ret False
         else bind_io (remote (\<lambda>n. NewService go n (go_config c) t)) (\<lambda>err.
           case err of
             Some e \<Rightarrow> ret False
           | None \<Rightarrow>
               bind_io (remote (\<lambda>n. Tokeninfo go n (go_config c) t)) (\<lambda>ti.
                 case ti of
                   Inl e \<Rightarrow> ret False
                 | Inr audience \<Rightarrow>
                     if audience \<noteq> ClientID (go_config c) then ret False
                     else bind_io (remote (\<lambda>n. Userinfo go n (go_config c) t)) (\<lambda>r.
                       case r of
                         Inl e \<Rightarrow> ret False
                       | Inr ui \<Rightarrow>
                           if go_domain c \<noteq> '''' \<and> ui_Hd ui \<noteq> go_domain c then ret False
                           else bind_io (incAuthValid ''google'') (\<lambda>_. ret True))))))"

text \<open>\<^verbatim>\<open>Revoke\<close> puts the access token into the address unescaped; the status of the answer is not looked at.\<close>

definition revokeURL :: "string \<Rightarrow> string" where
  "revokeURL tok = ''https://accounts.google.com/o/oauth2/revoke?token='' @ tok"

definition google_Revoke :: "oauth2_api \<Rightarrow> google_Config \<Rightarrow> Token \<Rightarrow> error option io" where
  "google_Revoke api c t =
     (let u = revokeURL (AccessToken t)
      in bind_io (http_get api (go_config c) t u) (\<lambda>r.
           case r of Inl e \<Rightarrow> ret (Some e) | Inr resp \<Rightarrow> ret None))"

definition google_StartSession :: "oauth2_api \<Rightarrow> google_Config \<Rightarrow> string \<Rightarrow> string" where
  "google_StartSession api c state = AuthCodeURL api (go_config c) state [(''hd'', go_domain c)]"

definition google_Exchange :: "oauth2_api \<Rightarrow> google_Config \<Rightarrow> string \<Rightarrow> (error + Token) io" where
  "google_Exchange api c code = counted_exchange api (go_config c) ''google'' code"

definition google_provider :: "oauth2_api \<Rightarrow> google_api \<Rightarrow> (nat \<Rightarrow> time) \<Rightarrow> google_Config \<Rightarrow> Provider" where
  "google_provider api go clk c =
     \<lparr>prov_Name = google_Name, prov_StartSession = google_StartSession api c,
      prov_Exchange = google_Exchange api c, prov_Username = google_Username go c,
      prov_Valid = google_Valid api go clk c, prov_Revoke = google_Revoke api c\<rparr>"

section \<open>The contract\<close>

lemma google_Email_quiet [simp]: "quiet (google_Email go c t)"
  by (auto simp: google_Email_def split: sum.split option.split)

text \<open>The address a lookup that starts with call \<open>n\<close> gives, and how many calls it takes.\<close>

definition email_at :: "google_api \<Rightarrow> oauth2_Config \<Rightarrow> Token \<Rightarrow> nat \<Rightarrow> string" where
  "email_at go conf t n =
     (case NewService go n conf t of
        Some _ \<Rightarrow> ''''
      | None \<Rightarrow> (case Userinfo go (Suc n) conf t of Inl _ \<Rightarrow> '''' | Inr ui \<Rightarrow> ui_Email ui))"

definition email_calls :: "google_api \<Rightarrow> oauth2_Config \<Rightarrow> Token \<Rightarrow> nat \<Rightarrow> nat" where
  "email_calls go conf t n = (if NewService go n conf t = None then n + 2 else n + 1)"

lemma google_Email_eq:
  "google_Email go c t w =
     (Return (email_at go (go_config c) t (calls w)),
      w\<lparr>calls := email_calls go (go_config c) t (calls w)\<rparr>)"
  by (simp add: google_Email_def email_at_def email_calls_def io_defs split: sum.split option.split)

text \<open>The checks behind the whitelist, from call \<open>n\<close> on.\<close>

definition google_checks :: "google_api \<Rightarrow> google_Config \<Rightarrow> Token \<Rightarrow> nat \<Rightarrow> bool" where
  "google_checks go c t n \<longleftrightarrow>
     NewService go n (go_config c) t = None \<and>
     Tokeninfo go (n + 1) (go_config c) t = Inr (ClientID (go_config c)) \<and>
     (case Userinfo go (n + 2) (go_config c) t of
        Inl _ \<Rightarrow> False
      | Inr ui \<Rightarrow> go_domain c = '''' \<or> ui_Hd ui = go_domain c)"

lemma google_Valid_True_iff:
  "fst (google_Valid api go clk c t w) = Return True \<longleftrightarrow>
     (let k = (if go_whitelist c = [] then calls w else email_calls go (go_config c) t (calls w))
      in (go_whitelist c = [] \<or> map_is (go_whitelist c) (email_at go (go_config c) t (calls w)))
         \<and> TokenValid api (clk (ticks w)) t \<and> google_checks go c t k)"
  by (auto simp: google_Valid_def not_whitelisted_def token_Valid_def google_Email_eq google_checks_def Let_def io_defs
      split: option.split sum.split)

lemma google_Valid_TrueD:
  assumes "google_Valid api go clk c t w = (Return True, w')"
  shows "TokenValid api (clk (ticks w)) t" and "ticks w' = Suc (ticks w)"
    and "AuthValid w' = (AuthValid w)(''google'' := Suc (AuthValid w ''google''))"
    and "AuthExchange w' = AuthExchange w"
  using assms
  by (auto simp: google_Valid_def not_whitelisted_def token_Valid_def google_Email_eq io_defs
      split: if_splits option.splits sum.splits)

interpretation google: token_provider "google_provider api go clk c" api clk
  for api go clk c
proof (unfold_locales, goal_cases)
  case (1 t)
  show ?case by (auto simp: google_provider_def google_Username_def)
next
  case (2 t)
  show ?case by (auto simp: google_provider_def google_Revoke_def Let_def split: option.split sum.split)
next
  case (3 t)
  show ?case
    by (auto simp: google_provider_def google_Valid_def quiet_later split: sum.split option.split)
next
  case (4 code)
  show ?case by (simp add: google_provider_def google_Exchange_def)
next
  case (5 t w w')
  then have "google_Valid api go clk c t w = (Return True, w')" by (simp add: google_provider_def)
  from google_Valid_TrueD [OF this] show ?case by (auto simp: google_provider_def google_Name_def)
next
  case (6 code w t w')
  then have "counted_exchange api (go_config c) ''google'' code w = (Return (Inr t), w')"
    by (simp add: google_provider_def google_Exchange_def)
  from counted_exchange_Inr [OF this] show ?case by (simp add: google_provider_def google_Name_def)
qed

section \<open>Properties\<close>

definition wgo :: google_api where
  "wgo = \<lparr>UserinfoEmailScope = ''email'', UserinfoProfileScope = ''profile'', NewService = (\<lambda>n c t. None),
          Tokeninfo = (\<lambda>n c t. Inr ''cid''), Userinfo = (\<lambda>n c t. Inr \<lparr>ui_Email = ''alice@acme.org'', ui_Hd = ''acme.org''\<rparr>)\<rparr>"

definition wgoauth :: Auth where
  "wgoauth = \<lparr>OauthClientID = ''cid'', OauthClientSecret = ''sec'', OauthCallbackURL = ''https://ca/auth/callback'',
              auth_Provider = ''google'', ProviderOpts = [(''domain'', ''acme.org'')], UsersWhitelist = []\<rparr>"

text \<open>
  C27: every configuration that New accepts restricts access, and Valid accepts a token exactly when the address Google answers for
  it is on a non-empty whitelist, the token is valid and was issued for this very client, and the
  user belongs to a configured domain.
\<close>

theorem google_Valid_policy:
  assumes "google_New api go c = Inr g"
  shows "(UsersWhitelist c \<noteq> [] \<or> map_get (ProviderOpts c) ''domain'' \<noteq> '''')
    \<and> (fst (google_Valid api go clk g t w) = Return True \<longleftrightarrow>
        (let domain = map_get (ProviderOpts c) ''domain'';
             k = (if UsersWhitelist c = [] then calls w else email_calls go (go_config g) t (calls w))
         in (UsersWhitelist c = [] \<or> email_at go (go_config g) t (calls w) \<in> set (UsersWhitelist c))
            \<and> TokenValid api (clk (ticks w)) t
            \<and> NewService go k (go_config g) t = None
            \<and> Tokeninfo go (k + 1) (go_config g) t = Inr (OauthClientID c)
            \<and> (\<exists>ui. Userinfo go (k + 2) (go_config g) t = Inr ui \<and> (domain = '''' \<or> ui_Hd ui = domain))))"
proof -
  from assms have g: "go_whitelist g = bool_map (UsersWhitelist c)"
      "go_domain g = map_get (ProviderOpts c) ''domain''" "ClientID (go_config g) = OauthClientID c"
    and some: "UsersWhitelist c \<noteq> [] \<or> map_get (ProviderOpts c) ''domain'' \<noteq> ''''"
    by (auto simp: google_New_def Let_def split: if_splits)
  have "google_checks go g t k \<longleftrightarrow> NewService go k (go_config g) t = None
      \<and> Tokeninfo go (k + 1) (go_config g) t = Inr (OauthClientID c)
      \<and> (\<exists>ui. Userinfo go (k + 2) (go_config g) t = Inr ui \<and> (go_domain g = '''' \<or> ui_Hd ui = go_domain g))" for k
    by (auto simp: google_checks_def g(3) split: sum.splits)
  with some show ?thesis by (simp add: google_Valid_True_iff g Let_def)
qed

theorem google_Valid_policy_witness:
  "\<exists>g. google_New wapi wgo wgoauth = Inr g \<and> fst (google_Valid wapi wgo (\<lambda>_. 50) g wtoken world0) = Return True"
proof -
  obtain g where "google_New wapi wgo wgoauth = Inr g"
    by (simp add: google_New_def wgoauth_def map_get_def)
  with google_Valid_policy [OF this, of "\<lambda>_. 50" wtoken world0] show ?thesis
    by (simp add: wgoauth_def wgo_def wapi_def wtoken_def map_get_def Let_def)
qed

end
