(* ===== verification/Auth_Gitlab.thy ===== *)
theory Auth_Gitlab
  imports Auth_Types
begin

text \<open>
  \<^verbatim>\<open>server/auth/gitlab/gitlab.go\<close>. GitLab is asked over plain HTTP requests, so only the requests are a parameter
  and the decoding of the answers is modelled. Log messages have no effect on the program and are left out.
\<close>

section \<open>The API\<close>

record gitlab_Config =
  gl_config :: oauth2_Config
  gl_groups :: "string list"
  gl_whitelist :: "bool gomap"
  gl_allusers :: bool
  gl_apiurl :: string
  gl_log :: bool

record serviceUser =
  su_ID :: int
  su_Username :: string
  su_Email :: string

record serviceGroupMember =
  gm_ID :: int
  gm_State :: string
  gm_AccessLevel :: int

definition user_field :: "string \<times> json \<Rightarrow> serviceUser \<times> bool \<Rightarrow> serviceUser \<times> bool" where
  "user_field = (\<lambda>(k, v) (u, bad).
     if equal_fold k ''id'' then
       (case decode_int v (su_ID u) of (x, e) \<Rightarrow> (u\<lparr>su_ID := x\<rparr>, bad \<or> e))
     else if equal_fold k ''username'' then
       (case decode_string v (su_Username u) of (x, e) \<Rightarrow> (u\<lparr>su_Username := x\<rparr>, bad \<or> e))
     else if equal_fold k ''email'' then
       (case decode_string v (su_Email u) of (x, e) \<Rightarrow> (u\<lparr>su_Email := x\<rparr>, bad \<or> e))
     else (u, bad))"

definition member_field :: "string \<times> json \<Rightarrow> serviceGroupMember \<times> bool \<Rightarrow> serviceGroupMember \<times> bool" where
  "member_field = (\<lambda>(k, v) (m, bad).
     if equal_fold k ''id'' then
       (case decode_int v (gm_ID m) of (x, e) \<Rightarrow> (m\<lparr>gm_ID := x\<rparr>, bad \<or> e))
     else if equal_fold k ''state'' then
       (case decode_string v (gm_State m) of (x, e) \<Rightarrow> (m\<lparr>gm_State := x\<rparr>, bad \<or> e))
     else if equal_fold k ''access_level'' then
       (case decode_int v (gm_AccessLevel m) of (x, e) \<Rightarrow> (m\<lparr>gm_AccessLevel := x\<rparr>, bad \<or> e))
     else (m, bad))"

definition decode_user :: "json \<Rightarrow> error + serviceUser" where
  "decode_user = decode_struct user_field \<lparr>su_ID = 0, su_Username = '''', su_Email = ''''\<rparr>"

definition decode_member :: "json \<Rightarrow> error + serviceGroupMember" where
  "decode_member = decode_struct member_field \<lparr>gm_ID = 0, gm_State = '''', gm_AccessLevel = 0\<rparr>"

definition gitlab_getURL :: "oauth2_api \<Rightarrow> gitlab_Config \<Rightarrow> Token \<Rightarrow> string \<Rightarrow> (error + string) io" where
  "gitlab_getURL api c t url =
     bind_io (http_get api (gl_config c) t url) (\<lambda>r.
       case r of
         Inl e \<Rightarrow> ret (Inl e)
       | Inr (code, body) \<Rightarrow>
           if code \<noteq> 200
           then ret (Inl (ENew (''gitlab error(http: '' @ show_int code @ '') getting '' @ url @ '': '' @ [CHR 0x27] @ body @ [CHR 0x27])))
           else ret (Inr body))"

definition gitlab_getUser :: "oauth2_api \<Rightarrow> gitlab_Config \<Rightarrow> Token \<Rightarrow> serviceUser option io" where
  "gitlab_getUser api c t =
     bind_io (gitlab_getURL api c t (gl_apiurl c @ ''user'')) (\<lambda>r.
       case r of
         Inl e \<Rightarrow> ret None
       | Inr body \<Rightarrow>
           (case json_parse api body of
              Inl e \<Rightarrow> ret None
            | Inr j \<Rightarrow> (case decode_user j of Inl e \<Rightarrow> ret None | Inr u \<Rightarrow> ret (Some u))))"

definition member_url :: "gitlab_Config \<Rightarrow> int \<Rightarrow> string \<Rightarrow> string" where
  "member_url c uid grp = gl_apiurl c @ ''groups/'' @ grp @ ''/members/'' @ show_int uid"

definition checkGroupMembership :: "oauth2_api \<Rightarrow> gitlab_Config \<Rightarrow> Token \<Rightarrow> int \<Rightarrow> string \<Rightarrow> bool io" where
  "checkGroupMembership api c t uid grp =
     bind_io (gitlab_getURL api c t (member_url c uid grp)) (\<lambda>r.
       case r of
         Inl e \<Rightarrow> ret False
       | Inr body \<Rightarrow>
           (case json_parse api body of
              Inl e \<Rightarrow> ret False
            | Inr j \<Rightarrow> (case decode_member j of Inl e \<Rightarrow> ret False | Inr m \<Rightarrow> ret (gm_ID m = uid))))"

section \<open>The provider\<close>

text \<open>\<^verbatim>\<open>url.QueryEscape\<close>, byte by byte.\<close>

definition unreserved :: "char \<Rightarrow> bool" where
  "unreserved c \<longleftrightarrow> (let n = of_char c :: nat in
     48 \<le> n \<and> n \<le> 57 \<or> 65 \<le> n \<and> n \<le> 90 \<or> 97 \<le> n \<and> n \<le> 122) \<or> c \<in> {CHR ''-'', CHR ''_'', CHR ''.'', CHR ''~''}"

definition QueryEscape :: "string \<Rightarrow> string" where
  "QueryEscape s = concat (map (\<lambda>c.
     if unreserved c then [c] else if c = CHR '' '' then ''+''
     else CHR ''%'' # ToUpper (hex_EncodeToString [c])) s)"

definition providedAuthGroups :: "Auth \<Rightarrow> string list" where
  "providedAuthGroups c =
     (let (groups, sliced) =
            (case map_of (ProviderOpts c) ''groups'' of
               None \<Rightarrow> ('''', [])
             | Some groups \<Rightarrow> (groups, map TrimSpace (Split groups (CHR '',''))))
      in case map_of (ProviderOpts c) ''group'' of
           None \<Rightarrow> sliced
         | Some grp \<Rightarrow> if \<not> Contains groups grp then sliced @ [grp] else sliced)"

definition gitlab_New :: "Auth \<Rightarrow> error + gitlab_Config" where
  "gitlab_New c =
     (let logOpt = ParseBool (map_get (ProviderOpts c) ''log'');
          uw = bool_map (UsersWhitelist c);
          allUsers = ParseBool (map_get (ProviderOpts c) ''allusers'');
          site = map_get (ProviderOpts c) ''siteurl'';
          make = (\<lambda>siteURL.
            \<lparr>gl_config =
               \<lparr>ClientID = OauthClientID c, ClientSecret = OauthClientSecret c,
                RedirectURL = OauthCallbackURL c,
                oauth2_Endpoint = \<lparr>AuthURL = siteURL @ ''oauth/authorize'', TokenURL = siteURL @ ''oauth/token''\<rparr>,
                Scopes = [''read_api'']\<rparr>,
             gl_groups = providedAuthGroups c, gl_whitelist = uw, gl_allusers = allUsers,
             gl_apiurl = siteURL @ ''api/v4/'', gl_log = logOpt\<rparr>)
      in if \<not> allUsers \<and> map_get (ProviderOpts c) ''groups'' = '''' \<and> length uw = 0
         then Inl (ENew ''gitlab_opts groups and the users whitelist must not be both empty if allusers isn't true'')
         else if site \<noteq> '''' then
           (if last site \<noteq> CHR ''/'' then Inl (ENew ''gitlab_opts siteurl must end in /'')
            else Inr (make site))
         else if allUsers then Inl (ENew ''gitlab_opts if allusers is set, siteurl must be set'')
         else Inr (make ''https://gitlab.com/''))"

definition gitlab_Name :: string where
  "gitlab_Name = ''gitlab''"

definition gitlab_Username :: "oauth2_api \<Rightarrow> gitlab_Config \<Rightarrow> Token \<Rightarrow> string io" where
  "gitlab_Username api c t =
     bind_io (gitlab_getUser api c t) (\<lambda>u. case u of None \<Rightarrow> ret '''' | Some u \<Rightarrow> ret (su_Username u))"

text \<open>The loop over the groups; the last group is the one with none behind it.\<close>

fun group_loop :: "oauth2_api \<Rightarrow> gitlab_Config \<Rightarrow> Token \<Rightarrow> int \<Rightarrow> string list \<Rightarrow> bool io" where
  "group_loop api c t uid [] = ret True"
| "group_loop api c t uid (grp # groups) =
     bind_io (checkGroupMembership api c t uid (QueryEscape grp)) (\<lambda>isMember.
       if \<not> isMember \<and> groups = [] then ret False
       else if isMember then ret True
       else group_loop api c t uid groups)"

definition gitlab_Valid :: "oauth2_api \<Rightarrow> (nat \<Rightarrow> time) \<Rightarrow> gitlab_Config \<Rightarrow> Token \<Rightarrow> bool io" where
  "gitlab_Valid api clk c t =
     bind_io (token_Valid api clk t) (\<lambda>ok.
       if \<not> ok then ret False
       else if gl_allusers c then bind_io (incAuthValid ''gitlab'') (\<lambda>_. ret True)
       else bind_io (gitlab_getUser api c t) (\<lambda>u.
         case u of
           None \<Rightarrow> ret False
         | Some u \<Rightarrow>
             bind_io (not_whitelisted (gl_whitelist c) (gitlab_Username api c t)) (\<lambda>denied.
               if denied then ret False
               else if length (gl_groups c) = 0 then bind_io (incAuthValid ''gitlab'') (\<lambda>_. ret True)
               else bind_io (group_loop api c t (su_ID u) (gl_groups c)) (\<lambda>ok.
                 if \<not> ok then ret False
                 else bind_io (incAuthValid ''gitlab'') (\<lambda>_. ret True)))))"

definition gitlab_Revoke :: "Token \<Rightarrow> error option io" where
  "gitlab_Revoke t = ret None"

definition gitlab_StartSession :: "oauth2_api \<Rightarrow> gitlab_Config \<Rightarrow> string \<Rightarrow> string" where
  "gitlab_StartSession api c state = AuthCodeURL api (gl_config c) state []"

definition gitlab_Exchange :: "oauth2_api \<Rightarrow> gitlab_Config \<Rightarrow> string \<Rightarrow> (error + Token) io" where
  "gitlab_Exchange api c code = counted_exchange api (gl_config c) ''gitlab'' code"

definition gitlab_provider :: "oauth2_api \<Rightarrow> (nat \<Rightarrow> time) \<Rightarrow> gitlab_Config \<Rightarrow> Provider" where
  "gitlab_provider api clk c =
     \<lparr>prov_Name = gitlab_Name, prov_StartSession = gitlab_StartSession api c,
      prov_Exchange = gitlab_Exchange api c, prov_Username = gitlab_Username api c,
      prov_Valid = gitlab_Valid api clk c, prov_Revoke = gitlab_Revoke\<rparr>"

section \<open>What the answers say\<close>

text \<open>What the answer to request number \<open>n\<close> says of the user and of a membership.\<close>

definition answer :: "oauth2_api \<Rightarrow> gitlab_Config \<Rightarrow> Token \<Rightarrow> string \<Rightarrow> nat \<Rightarrow> json option" where
  "answer api c t url n =
     (case http_NewRequest api url of
        Some _ \<Rightarrow> None
      | None \<Rightarrow> (case http_Do api n (gl_config c) t url of
          Inl _ \<Rightarrow> None
        | Inr (code, body) \<Rightarrow> if code \<noteq> 200 then None else
            (case json_parse api body of Inl _ \<Rightarrow> None | Inr j \<Rightarrow> Some j)))"

definition user_at :: "oauth2_api \<Rightarrow> gitlab_Config \<Rightarrow> Token \<Rightarrow> nat \<Rightarrow> serviceUser option" where
  "user_at api c t n =
     (case answer api c t (gl_apiurl c @ ''user'') n of
        None \<Rightarrow> None
      | Some j \<Rightarrow> (case decode_user j of Inl _ \<Rightarrow> None | Inr u \<Rightarrow> Some u))"

definition member_at :: "oauth2_api \<Rightarrow> gitlab_Config \<Rightarrow> Token \<Rightarrow> int \<Rightarrow> string \<Rightarrow> nat \<Rightarrow> bool" where
  "member_at api c t uid grp n \<longleftrightarrow>
     (\<exists>j m. answer api c t (member_url c uid (QueryEscape grp)) n = Some j \<and> decode_member j = Inr m \<and> gm_ID m = uid)"

lemma gitlab_getUser_eq:
  "gitlab_getUser api c t w = (Return (user_at api c t (calls w)), w\<lparr>calls := Suc (calls w)\<rparr>)"
  by (auto simp: gitlab_getUser_def gitlab_getURL_def http_get_def user_at_def answer_def io_defs
      split: sum.splits option.splits prod.splits if_splits)

lemma gitlab_Username_eq:
  "gitlab_Username api c t w =
     (Return (case user_at api c t (calls w) of None \<Rightarrow> '''' | Some u \<Rightarrow> su_Username u), w\<lparr>calls := Suc (calls w)\<rparr>)"
  by (simp add: gitlab_Username_def bind_io_def gitlab_getUser_eq ret_def split: option.split)

lemma checkGroupMembership_eq:
  "checkGroupMembership api c t uid (QueryEscape grp) w =
     (Return (member_at api c t uid grp (calls w)), w\<lparr>calls := Suc (calls w)\<rparr>)"
  by (auto simp: checkGroupMembership_def gitlab_getURL_def http_get_def member_at_def answer_def io_defs
      split: sum.splits option.splits prod.splits if_splits)

lemma Bex_lessThan_Suc: "(\<exists>i < Suc n. P i) \<longleftrightarrow> P 0 \<or> (\<exists>i < n. P (Suc i))"
  by (auto simp: less_Suc_eq_0_disj)

text \<open>The requests that the loop sends, and what it finds.\<close>

fun group_calls :: "oauth2_api \<Rightarrow> gitlab_Config \<Rightarrow> Token \<Rightarrow> int \<Rightarrow> nat \<Rightarrow> string list \<Rightarrow> nat" where
  "group_calls api c t uid n [] = n"
| "group_calls api c t uid n (g # gs) =
     (if member_at api c t uid g n then Suc n else group_calls api c t uid (Suc n) gs)"

definition in_group :: "oauth2_api \<Rightarrow> gitlab_Config \<Rightarrow> Token \<Rightarrow> int \<Rightarrow> nat \<Rightarrow> string list \<Rightarrow> bool" where
  "in_group api c t uid n groups \<longleftrightarrow>
     groups = [] \<or> (\<exists>i < length groups. member_at api c t uid (groups ! i) (n + i))"

lemma in_group_Nil [simp]: "in_group api c t uid n []"
  by (simp add: in_group_def)

lemma group_loop_eq:
  "group_loop api c t uid groups w =
     (Return (in_group api c t uid (calls w) groups), w\<lparr>calls := group_calls api c t uid (calls w) groups\<rparr>)"
  by (induction groups arbitrary: w)
    (auto simp: bind_io_def checkGroupMembership_eq ret_def in_group_def Bex_lessThan_Suc)

lemma group_loop_quiet [simp]: "quiet (group_loop api c t uid groups)"
proof (induction groups)
  case (Cons g gs)
  have "quiet (checkGroupMembership api c t uid (QueryEscape g))"
    by (simp add: quiet_def checkGroupMembership_eq)
  with Cons show ?case by auto
qed simp

lemma gitlab_getUser_quiet [simp]: "quiet (gitlab_getUser api c t)"
  by (simp add: quiet_def gitlab_getUser_eq)

lemma gitlab_Username_quiet [simp]: "quiet (gitlab_Username api c t)"
  by (simp add: quiet_def gitlab_Username_eq)

text \<open>The decision as a reference definition over the answers, from request number \<open>n\<close> on.\<close>

definition gitlab_allowed :: "oauth2_api \<Rightarrow> gitlab_Config \<Rightarrow> Token \<Rightarrow> nat \<Rightarrow> bool" where
  "gitlab_allowed api c t n \<longleftrightarrow> gl_allusers c \<or>
     (\<exists>u. user_at api c t n = Some u \<and>
       (gl_whitelist c = [] \<or>
          map_is (gl_whitelist c) (case user_at api c t (Suc n) of None \<Rightarrow> '''' | Some u \<Rightarrow> su_Username u)) \<and>
       in_group api c t (su_ID u) (if gl_whitelist c = [] then n + 1 else n + 2) (gl_groups c))"

lemma gitlab_Valid_True_iff:
  "fst (gitlab_Valid api clk c t w) = Return True \<longleftrightarrow>
     TokenValid api (clk (ticks w)) t \<and> gitlab_allowed api c t (calls w)"
  by (simp add: gitlab_Valid_def gitlab_allowed_def not_whitelisted_def token_Valid_def gitlab_getUser_eq
      gitlab_Username_eq group_loop_eq bind_io_def ret_def Now_def incAuthValid_def split: option.split)

lemma gitlab_Valid_TrueD:
  assumes "gitlab_Valid api clk c t w = (Return True, w')"
  shows "ticks w' = Suc (ticks w) \<and> AuthValid w' = (AuthValid w)(''gitlab'' := Suc (AuthValid w ''gitlab'')) \<and>
    AuthExchange w' = AuthExchange w"
  using assms
  by (auto simp: gitlab_Valid_def not_whitelisted_def token_Valid_def gitlab_getUser_eq
      gitlab_Username_eq group_loop_eq bind_io_def ret_def Now_def incAuthValid_def split: option.splits if_splits)

interpretation gitlab: token_provider "gitlab_provider api clk c" api clk
  for api clk c
proof (unfold_locales, goal_cases)
  case (1 t)
  show ?case by (simp add: gitlab_provider_def)
next
  case (2 t)
  show ?case by (simp add: gitlab_provider_def gitlab_Revoke_def)
next
  case (3 t)
  show ?case
    by (auto simp: gitlab_provider_def gitlab_Valid_def quiet_later split: option.split)
next
  case (4 code)
  show ?case by (simp add: gitlab_provider_def gitlab_Exchange_def)
next
  case (5 t w w')
  then have v: "gitlab_Valid api clk c t w = (Return True, w')" by (simp add: gitlab_provider_def)
  then have "TokenValid api (clk (ticks w)) t" using gitlab_Valid_True_iff [of api clk c t w] by simp
  with gitlab_Valid_TrueD [OF v] show ?case by (auto simp: gitlab_provider_def gitlab_Name_def)
next
  case (6 code w t w')
  then have "counted_exchange api (gl_config c) ''gitlab'' code w = (Return (Inr t), w')"
    by (simp add: gitlab_provider_def gitlab_Exchange_def)
  from counted_exchange_Inr [OF this] show ?case by (simp add: gitlab_provider_def gitlab_Name_def)
qed

section \<open>Properties\<close>

lemma gitlab_New_Inr:
  assumes "gitlab_New c = Inr g"
  shows "gl_whitelist g = bool_map (UsersWhitelist c)" and "gl_groups g = providedAuthGroups c"
    and "gl_allusers g = ParseBool (map_get (ProviderOpts c) ''allusers'')"
    and "ParseBool (map_get (ProviderOpts c) ''allusers'') \<or> map_get (ProviderOpts c) ''groups'' \<noteq> '''' \<or> UsersWhitelist c \<noteq> []"
    and "ParseBool (map_get (ProviderOpts c) ''allusers'') \<Longrightarrow> map_get (ProviderOpts c) ''siteurl'' \<noteq> ''''"
  using assms by (auto simp: gitlab_New_def Let_def split: if_splits)

lemma providedAuthGroups_nonempty:
  assumes "map_get (ProviderOpts c) ''groups'' \<noteq> ''''"
  shows "providedAuthGroups c \<noteq> []"
  using assms by (auto simp: providedAuthGroups_def map_get_def split: option.splits)

definition wglauth :: Auth where
  "wglauth = \<lparr>OauthClientID = ''cid'', OauthClientSecret = ''sec'', OauthCallbackURL = ''https://ca/auth/callback'',
              auth_Provider = ''gitlab'', ProviderOpts = [(''groups'', ''ops, dev'')], UsersWhitelist = []\<rparr>"

definition wglapi :: oauth2_api where
  "wglapi = wapi\<lparr>http_Do := (\<lambda>n c t url. Inr (200, if HasSuffix url ''user'' then ''alice'' else ''member'')),
                 json_parse := (\<lambda>s. if s = ''alice'' then Inr (JObject [(''id'', JInt 7), (''username'', JString ''alice'')])
                                    else Inr (JObject [(''id'', JInt 7), (''state'', JString ''active'')]))\<rparr>"

lemma wgl_answers:
  "user_at wglapi g wtoken n = Some \<lparr>su_ID = 7, su_Username = ''alice'', su_Email = ''''\<rparr>"
  if "HasSuffix (gl_apiurl g @ ''user'') ''user''" for g
  using that by (simp add: user_at_def answer_def wglapi_def wapi_def decode_user_def user_field_def equal_fold_def ToUpper_def upper_def)

text \<open>
  C28: a configuration that New accepts without allusers names a whitelist or a group, and Valid accepts a token exactly when the token is valid and,
  without allusers, GitLab tells who the user is, the user name it answers to a second request is on a non-empty
  whitelist, and one of the configured groups lists the user's id as a member.
\<close>

theorem gitlab_Valid_policy:
  assumes "gitlab_New c = Inr g"
  shows "(ParseBool (map_get (ProviderOpts c) ''allusers'') \<or> UsersWhitelist c \<noteq> [] \<or> providedAuthGroups c \<noteq> [])
    \<and> (fst (gitlab_Valid api clk g t w) = Return True \<longleftrightarrow>
        TokenValid api (clk (ticks w)) t \<and>
        (ParseBool (map_get (ProviderOpts c) ''allusers'') \<or>
         (\<exists>u. user_at api g t (calls w) = Some u \<and>
           (UsersWhitelist c = [] \<or>
             (case user_at api g t (Suc (calls w)) of None \<Rightarrow> '''' | Some u' \<Rightarrow> su_Username u') \<in> set (UsersWhitelist c)) \<and>
           (providedAuthGroups c = [] \<or> (\<exists>i < length (providedAuthGroups c).
             member_at api g t (su_ID u) (providedAuthGroups c ! i)
               ((if UsersWhitelist c = [] then calls w + 1 else calls w + 2) + i))))))"
  using gitlab_New_Inr [OF assms] providedAuthGroups_nonempty [of c]
  by (auto simp: gitlab_Valid_True_iff gitlab_allowed_def in_group_def)

theorem gitlab_Valid_policy_witness:
  "\<exists>g. gitlab_New wglauth = Inr g \<and> fst (gitlab_Valid wglapi (\<lambda>_. 50) g wtoken world0) = Return True"
proof -
  obtain g where g: "gitlab_New wglauth = Inr g" and u: "HasSuffix (gl_apiurl g @ ''user'') ''user''"
    by (simp add: gitlab_New_def wglauth_def map_get_def ParseBool_def HasSuffix_def)
  have "providedAuthGroups wglauth = [''ops'', ''dev'']"
    by (simp add: providedAuthGroups_def wglauth_def TrimSpace_def trim_by_def is_space_def)
  moreover have "member_at wglapi g wtoken 7 ''ops'' 1"
    by (simp add: member_at_def answer_def wglapi_def wapi_def member_url_def HasSuffix_def decode_member_def
        member_field_def equal_fold_def ToUpper_def upper_def show_int_def)
  ultimately show ?thesis
    using gitlab_Valid_policy [OF g, of wglapi "\<lambda>_. 50" wtoken world0] g wgl_answers [OF u]
    by (auto simp: wglauth_def world0_def wglapi_def wapi_def wtoken_def)
qed

text \<open>
  An empty groups option is read as one group with an empty name: a whitelist-only configuration that sets it lets a user in only
  if GitLab answers a membership for the address groups//members/id.
\<close>

theorem gitlab_blank_groups:
  assumes "gitlab_New c = Inr g" and "map_of (ProviderOpts c) ''groups'' = Some ''''"
    and "map_of (ProviderOpts c) ''group'' = None" and "\<not> ParseBool (map_get (ProviderOpts c) ''allusers'')"
    and "fst (gitlab_Valid api clk g t w) = Return True"
  shows "\<exists>u n. user_at api g t (calls w) = Some u \<and> member_at api g t (su_ID u) '''' n"
proof -
  have "providedAuthGroups c = ['''']"
    using assms(2,3) by (simp add: providedAuthGroups_def TrimSpace_def trim_by_def)
  with gitlab_New_Inr [OF assms(1)] assms(4,5) show ?thesis
    by (auto simp: gitlab_Valid_True_iff gitlab_allowed_def in_group_def)
qed

theorem gitlab_blank_groups_witness:
  "\<exists>g (u :: serviceUser) n. gitlab_New (wglauth\<lparr>ProviderOpts := [(''groups'', '''')], UsersWhitelist := [''alice'']\<rparr>) = Inr g
     \<and> fst (gitlab_Valid wglapi (\<lambda>_. 50) g wtoken world0) = Return True \<and> member_at wglapi g wtoken (su_ID u) '''' n"
proof -
  let ?c = "wglauth\<lparr>ProviderOpts := [(''groups'', '''')], UsersWhitelist := [''alice'']\<rparr>"
  obtain g where g: "gitlab_New ?c = Inr g" and u: "HasSuffix (gl_apiurl g @ ''user'') ''user''"
    by (simp add: gitlab_New_def wglauth_def map_get_def ParseBool_def HasSuffix_def bool_map_def)
  have gs: "providedAuthGroups ?c = ['''']"
    by (simp add: providedAuthGroups_def TrimSpace_def trim_by_def)
  have m: "member_at wglapi g wtoken 7 '''' n" for n
    by (simp add: member_at_def answer_def wglapi_def wapi_def member_url_def HasSuffix_def decode_member_def
        member_field_def equal_fold_def ToUpper_def upper_def show_int_def)
  have v: "fst (gitlab_Valid wglapi (\<lambda>_. 50) g wtoken world0) = Return True"
    using m gitlab_New_Inr [OF g] gs wgl_answers [OF u]
    by (simp add: gitlab_Valid_True_iff gitlab_allowed_def in_group_def wglapi_def wapi_def wtoken_def)
  from gitlab_blank_groups [OF g _ _ _ v] obtain u :: serviceUser and n where "member_at wglapi g wtoken (su_ID u) '''' n"
    by (auto simp: map_get_def ParseBool_def)
  with g v show ?thesis by blast
qed

end
