(* ===== verification/Auth_Microsoft.thy ===== *)
theory Auth_Microsoft
  imports Auth_Types
begin

text \<open>
  \<^verbatim>\<open>server/auth/microsoft/microsoft.go\<close>. The Graph API is asked over HTTP requests; its documents are JSON values
  and the type assertions on them are branches: the ones without \<^verbatim>\<open>, ok\<close> panic.
\<close>

section \<open>The provider\<close>

record microsoft_Config =
  ms_config :: oauth2_Config
  ms_tenant :: string
  ms_groups :: "bool gomap"
  ms_whitelist :: "bool gomap"

definition microsoft_New :: "oauth2_api \<Rightarrow> Auth \<Rightarrow> error + microsoft_Config" where
  "microsoft_New api c =
     (let whitelist = bool_map (UsersWhitelist c);
          tenant = map_get (ProviderOpts c) ''tenant''
      in if tenant = '''' \<and> length whitelist = 0
         then Inl (ENew ''either Office 365 tenant or users whitelist must be specified'')
         else
           (let groupMap = (case map_of (ProviderOpts c) ''groups'' of
                              None \<Rightarrow> []
                            | Some groups \<Rightarrow> bool_map (map TrimBlank (Split groups (CHR '',''))))
            in Inr
              \<lparr>ms_config =
                 \<lparr>ClientID = OauthClientID c, ClientSecret = OauthClientSecret c,
                  RedirectURL = OauthCallbackURL c, oauth2_Endpoint = AzureADEndpoint api tenant,
                  Scopes = [''user.Read.All'', ''Directory.Read.All'']\<rparr>,
               ms_tenant = tenant, ms_groups = groupMap, ms_whitelist = whitelist\<rparr>))"

text \<open>
  \<^verbatim>\<open>getDocument\<close> gives a nil map (here the empty one, which answers every lookup the same way) when anything fails or
  the answer is not an object. The three paths it is called with start with a slash, so that joining
  them to the base is concatenation. The status code is not looked at.
\<close>

definition graph_uri :: "string \<Rightarrow> string" where
  "graph_uri pathElement = ''https://graph.microsoft.com/v1.0'' @ pathElement"

definition document_of :: "error + int \<times> string \<Rightarrow> oauth2_api \<Rightarrow> (string \<times> json) list" where
  "document_of r api =
     (case r of
        Inl e \<Rightarrow> []
      | Inr (code, body) \<Rightarrow>
          (case json_parse api body of
             Inr (JObject fs) \<Rightarrow> fs
           | _ \<Rightarrow> []))"

definition getDocument :: "oauth2_api \<Rightarrow> microsoft_Config \<Rightarrow> Token \<Rightarrow> string \<Rightarrow> (string \<times> json) list io" where
  "getDocument api c t pathElement =
     bind_io (http_get api (ms_config c) t (graph_uri pathElement)) (\<lambda>r. ret (document_of r api))"

fun as_string :: "json option \<Rightarrow> string option" where
  "as_string (Some (JString s)) = Some s"
| "as_string _ = None"

fun as_array :: "json option \<Rightarrow> json list option" where
  "as_array (Some (JArray xs)) = Some xs"
| "as_array _ = None"

definition getMe :: "oauth2_api \<Rightarrow> microsoft_Config \<Rightarrow> Token \<Rightarrow> string \<Rightarrow> string io" where
  "getMe api c t item =
     bind_io (getDocument api c t ''/me'') (\<lambda>document.
       ret (case as_string (doc_get document item) of Some value \<Rightarrow> value | None \<Rightarrow> ''''))"

text \<open>The inner and the outer loop of \<^verbatim>\<open>verifyTenant\<close>; \<open>Return False\<close> goes on with the next entry.\<close>

fun domain_loop :: "string \<Rightarrow> json list \<Rightarrow> bool outcome" where
  "domain_loop tenant [] = Return False"
| "domain_loop tenant (val # rest) =
     (case val of
        JObject fs \<Rightarrow>
          (case as_string (doc_get fs ''name'') of
             None \<Rightarrow> Panic
           | Some domain \<Rightarrow> if domain = tenant then Return True else domain_loop tenant rest)
      | _ \<Rightarrow> Panic)"

fun tenant_loop :: "string \<Rightarrow> json list \<Rightarrow> bool outcome" where
  "tenant_loop tenant [] = Return False"
| "tenant_loop tenant (valueEntry # rest) =
     (case valueEntry of
        JObject fs \<Rightarrow>
          (case as_array (doc_get fs ''verifiedDomains'') of
             None \<Rightarrow> tenant_loop tenant rest
           | Some value \<Rightarrow>
               (case domain_loop tenant value of
                  Panic \<Rightarrow> Panic
                | Return True \<Rightarrow> Return True
                | Return False \<Rightarrow> tenant_loop tenant rest))
      | _ \<Rightarrow> Panic)"

definition lift_out :: "'a outcome \<Rightarrow> 'a io" where
  "lift_out r w = (r, w)"

definition verifyTenant :: "oauth2_api \<Rightarrow> microsoft_Config \<Rightarrow> Token \<Rightarrow> bool io" where
  "verifyTenant api c t =
     bind_io (getDocument api c t ''/organization'') (\<lambda>document.
       case as_array (doc_get document ''value'') of
         None \<Rightarrow> ret False
       | Some value \<Rightarrow> lift_out (tenant_loop (ms_tenant c) value))"

fun memberOf_loop :: "bool gomap \<Rightarrow> json list \<Rightarrow> bool outcome" where
  "memberOf_loop groups [] = Return False"
| "memberOf_loop groups (valueEntry # rest) =
     (case valueEntry of
        JObject fs \<Rightarrow>
          (case as_string (doc_get fs ''displayName'') of
             None \<Rightarrow> memberOf_loop groups rest
           | Some grp \<Rightarrow> if map_is groups grp then Return True else memberOf_loop groups rest)
      | _ \<Rightarrow> Panic)"

definition verifyGroups :: "oauth2_api \<Rightarrow> microsoft_Config \<Rightarrow> Token \<Rightarrow> bool io" where
  "verifyGroups api c t =
     bind_io (getDocument api c t ''/users/me/memberOf'') (\<lambda>document.
       case as_array (doc_get document ''value'') of
         None \<Rightarrow> ret False
       | Some value \<Rightarrow> lift_out (memberOf_loop (ms_groups c) value))"

definition microsoft_Name :: string where
  "microsoft_Name = ''microsoft''"

definition microsoft_Email :: "oauth2_api \<Rightarrow> microsoft_Config \<Rightarrow> Token \<Rightarrow> string io" where
  "microsoft_Email api c t = getMe api c t ''mail''"

definition microsoft_Username :: "oauth2_api \<Rightarrow> microsoft_Config \<Rightarrow> Token \<Rightarrow> string io" where
  "microsoft_Username api c t = bind_io (microsoft_Email api c t) (\<lambda>email. ret (before_at email))"

definition microsoft_Valid :: "oauth2_api \<Rightarrow> (nat \<Rightarrow> time) \<Rightarrow> microsoft_Config \<Rightarrow> Token \<Rightarrow> bool io" where
  "microsoft_Valid api clk c t =
     bind_io (not_whitelisted (ms_whitelist c) (microsoft_Email api c t)) (\<lambda>denied.
       if denied then ret False
       else bind_io (token_Valid api clk t) (\<lambda>ok.
         if \<not> ok then ret False
         else bind_io (incAuthValid ''microsoft'') (\<lambda>_.
           if ms_tenant c \<noteq> '''' then
             bind_io (verifyTenant api c t) (\<lambda>found.
               if found then
                 (if length (ms_groups c) > 0 then verifyGroups api c t else ret True)
               else ret False)
           else ret False)))"

definition microsoft_Revoke :: "Token \<Rightarrow> error option io" where
  "microsoft_Revoke t = ret None"

definition microsoft_StartSession :: "oauth2_api \<Rightarrow> microsoft_Config \<Rightarrow> string \<Rightarrow> string" where
  "microsoft_StartSession api c state =
     AuthCodeURL api (ms_config c) state [(''hd'', ms_tenant c), (''prompt'', ''login'')]"

definition microsoft_Exchange :: "oauth2_api \<Rightarrow> microsoft_Config \<Rightarrow> string \<Rightarrow> (error + Token) io" where
  "microsoft_Exchange api c code = counted_exchange api (ms_config c) ''microsoft'' code"

definition microsoft_provider :: "oauth2_api \<Rightarrow> (nat \<Rightarrow> time) \<Rightarrow> microsoft_Config \<Rightarrow> Provider" where
  "microsoft_provider api clk c =
     \<lparr>prov_Name = microsoft_Name, prov_StartSession = microsoft_StartSession api c,
      prov_Exchange = microsoft_Exchange api c, prov_Username = microsoft_Username api c,
      prov_Valid = microsoft_Valid api clk c, prov_Revoke = microsoft_Revoke\<rparr>"

section \<open>What the documents say\<close>

text \<open>The document that request number \<open>n\<close> gives.\<close>

definition document_at :: "oauth2_api \<Rightarrow> microsoft_Config \<Rightarrow> Token \<Rightarrow> string \<Rightarrow> nat \<Rightarrow> (string \<times> json) list" where
  "document_at api c t pathElement n =
     document_of (case http_NewRequest api (graph_uri pathElement) of
        Some e \<Rightarrow> Inl e | None \<Rightarrow> http_Do api n (ms_config c) t (graph_uri pathElement)) api"

lemma getDocument_eq:
  "getDocument api c t pathElement w = (Return (document_at api c t pathElement (calls w)), w\<lparr>calls := Suc (calls w)\<rparr>)"
  by (simp add: getDocument_def http_get_def document_at_def io_defs)

definition mail_at :: "oauth2_api \<Rightarrow> microsoft_Config \<Rightarrow> Token \<Rightarrow> nat \<Rightarrow> string" where
  "mail_at api c t n = (case as_string (doc_get (document_at api c t ''/me'' n) ''mail'') of Some m \<Rightarrow> m | None \<Rightarrow> '''')"

lemma microsoft_Email_eq:
  "microsoft_Email api c t w = (Return (mail_at api c t (calls w)), w\<lparr>calls := Suc (calls w)\<rparr>)"
  by (simp add: microsoft_Email_def getMe_def bind_io_def getDocument_eq ret_def mail_at_def)

text \<open>
  The reference reading of the two documents: the tenant is the name of a verified domain of some entry, the user is
  in some configured group. \<open>tenant_shape\<close> is what the code takes for granted of the first.
\<close>

definition verified_domain :: "json list \<Rightarrow> string \<Rightarrow> bool" where
  "verified_domain value tenant \<longleftrightarrow>
     (\<exists>fs ds gs. JObject fs \<in> set value \<and> doc_get fs ''verifiedDomains'' = Some (JArray ds) \<and>
        JObject gs \<in> set ds \<and> doc_get gs ''name'' = Some (JString tenant))"

definition member_of :: "json list \<Rightarrow> bool gomap \<Rightarrow> bool" where
  "member_of value groups \<longleftrightarrow>
     (\<exists>fs g. JObject fs \<in> set value \<and> doc_get fs ''displayName'' = Some (JString g) \<and> map_is groups g)"

definition domain_shape :: "json \<Rightarrow> bool" where
  "domain_shape d \<longleftrightarrow> (\<exists>gs n. d = JObject gs \<and> doc_get gs ''name'' = Some (JString n))"

definition tenant_shape :: "json list \<Rightarrow> bool" where
  "tenant_shape value \<longleftrightarrow>
     (\<forall>v \<in> set value. \<exists>fs. v = JObject fs \<and>
        (\<forall>ds. doc_get fs ''verifiedDomains'' = Some (JArray ds) \<longrightarrow> (\<forall>d \<in> set ds. domain_shape d)))"

lemma as_string_Some [simp]: "as_string j = Some s \<longleftrightarrow> j = Some (JString s)"
  by (cases j rule: as_string.cases) auto

lemma as_string_None: "as_string j = None \<longleftrightarrow> (\<forall>s. j \<noteq> Some (JString s))"
  by (cases j rule: as_string.cases) auto

lemma as_array_Some [simp]: "as_array j = Some xs \<longleftrightarrow> j = Some (JArray xs)"
  by (cases j rule: as_array.cases) auto

lemma as_array_None: "as_array j = None \<longleftrightarrow> (\<forall>xs. j \<noteq> Some (JArray xs))"
  by (cases j rule: as_array.cases) auto

lemma domain_loop_True:
  "domain_loop tenant ds = Return True \<Longrightarrow> \<exists>gs. JObject gs \<in> set ds \<and> doc_get gs ''name'' = Some (JString tenant)"
  by (induction ds) (auto split: json.splits option.splits if_splits)

lemma domain_loop_shape:
  assumes "\<forall>d \<in> set ds. domain_shape d"
  shows "domain_loop tenant ds = Return (\<exists>gs. JObject gs \<in> set ds \<and> doc_get gs ''name'' = Some (JString tenant))"
  using assms by (induction ds) (auto simp: domain_shape_def split: option.splits)

lemma tenant_loop_True:
  "tenant_loop tenant value = Return True \<Longrightarrow> verified_domain value tenant"
proof (induction tenant "value" rule: tenant_loop.induct)
  case (2 tenant v rest)
  have tail: "verified_domain rest tenant \<Longrightarrow> ?case" by (auto simp: verified_domain_def)
  from 2 tail show ?case
    by (auto split: json.splits option.splits outcome.splits bool.splits)
      (use domain_loop_True in \<open>fastforce simp: verified_domain_def\<close>)
qed simp

lemma memberOf_loop_True:
  "memberOf_loop groups value = Return True \<Longrightarrow> member_of value groups"
  by (induction "value") (fastforce simp: member_of_def split: json.splits option.splits if_splits)+

lemma tenant_loop_shape:
  assumes "tenant_shape value"
  shows "tenant_loop tenant value = Return (verified_domain value tenant)"
  using assms
proof (induction "value")
  case (Cons v rest)
  then obtain fs where v: "v = JObject fs"
    and ds: "\<And>ds d. doc_get fs ''verifiedDomains'' = Some (JArray ds) \<Longrightarrow> d \<in> set ds \<Longrightarrow> domain_shape d"
    and rest: "tenant_loop tenant rest = Return (verified_domain rest tenant)"
    by (auto simp: tenant_shape_def)
  show ?case
  proof (cases "as_array (doc_get fs ''verifiedDomains'')")
    case None
    then have "verified_domain (v # rest) tenant = verified_domain rest tenant"
      unfolding verified_domain_def v by (auto simp: as_array_None)
    with None v rest show ?thesis by simp
  next
    case (Some dl)
    then have "verified_domain (v # rest) tenant \<longleftrightarrow>
        (\<exists>gs. JObject gs \<in> set dl \<and> doc_get gs ''name'' = Some (JString tenant)) \<or> verified_domain rest tenant"
      unfolding verified_domain_def v by auto
    with Some v rest domain_loop_shape [of dl tenant] ds show ?thesis by (auto split: bool.split)
  qed
qed (simp add: verified_domain_def)

lemma member_of_Cons:
  "member_of (JObject fs # rest) groups \<longleftrightarrow>
     (\<exists>g. doc_get fs ''displayName'' = Some (JString g) \<and> map_is groups g) \<or> member_of rest groups"
  unfolding member_of_def by auto

lemma memberOf_loop_shape:
  assumes "\<forall>v \<in> set value. \<exists>fs. v = JObject fs"
  shows "memberOf_loop groups value = Return (member_of value groups)"
  using assms
proof (induction "value")
  case (Cons v rest)
  then obtain fs where "v = JObject fs" by auto
  moreover have "(\<exists>g. doc_get fs ''displayName'' = Some (JString g) \<and> map_is groups g) \<longleftrightarrow>
      (\<exists>g. as_string (doc_get fs ''displayName'') = Some g \<and> map_is groups g)"
    by simp
  ultimately show ?case using Cons by (auto simp: member_of_Cons simp del: as_string_Some split: option.split)
qed (simp add: member_of_def)

text \<open>What the request for a list says of the user: a predicate on the value array of the answer.\<close>

definition value_at :: "oauth2_api \<Rightarrow> microsoft_Config \<Rightarrow> Token \<Rightarrow> string \<Rightarrow> nat \<Rightarrow> json list option" where
  "value_at api c t pathElement n = as_array (doc_get (document_at api c t pathElement n) ''value'')"

lemma verifyTenant_eq:
  "verifyTenant api c t w =
     ((case value_at api c t ''/organization'' (calls w) of
         None \<Rightarrow> Return False | Some vs \<Rightarrow> tenant_loop (ms_tenant c) vs), w\<lparr>calls := Suc (calls w)\<rparr>)"
  by (simp add: verifyTenant_def bind_io_def getDocument_eq value_at_def lift_out_def ret_def split: option.split)

lemma verifyGroups_eq:
  "verifyGroups api c t w =
     ((case value_at api c t ''/users/me/memberOf'' (calls w) of
         None \<Rightarrow> Return False | Some vs \<Rightarrow> memberOf_loop (ms_groups c) vs), w\<lparr>calls := Suc (calls w)\<rparr>)"
  by (simp add: verifyGroups_def bind_io_def getDocument_eq value_at_def lift_out_def ret_def split: option.split)

lemma verify_quiet [simp]:
  "quiet (verifyTenant api c t)" "quiet (verifyGroups api c t)" "quiet (microsoft_Email api c t)"
  by (simp_all add: quiet_def verifyTenant_eq verifyGroups_eq microsoft_Email_eq)

lemma microsoft_Valid_True_iff:
  "fst (microsoft_Valid api clk c t w) = Return True \<longleftrightarrow>
     (let k = (if ms_whitelist c = [] then calls w else Suc (calls w))
      in (ms_whitelist c = [] \<or> map_is (ms_whitelist c) (mail_at api c t (calls w)))
         \<and> TokenValid api (clk (ticks w)) t \<and> ms_tenant c \<noteq> ''''
         \<and> (\<exists>vs. value_at api c t ''/organization'' k = Some vs \<and> tenant_loop (ms_tenant c) vs = Return True)
         \<and> (ms_groups c = [] \<or> (\<exists>vs. value_at api c t ''/users/me/memberOf'' (Suc k) = Some vs \<and>
               memberOf_loop (ms_groups c) vs = Return True)))"
  by (auto simp: microsoft_Valid_def not_whitelisted_def token_Valid_def microsoft_Email_eq verifyTenant_eq
      verifyGroups_eq bind_io_def ret_def Now_def incAuthValid_def Let_def split: option.splits outcome.splits)

lemma microsoft_Valid_TrueD:
  assumes "microsoft_Valid api clk c t w = (Return True, w')"
  shows "ticks w' = Suc (ticks w) \<and> AuthValid w' = (AuthValid w)(''microsoft'' := Suc (AuthValid w ''microsoft'')) \<and>
    AuthExchange w' = AuthExchange w"
  using assms
  by (auto simp: microsoft_Valid_def not_whitelisted_def token_Valid_def microsoft_Email_eq verifyTenant_eq
      verifyGroups_eq bind_io_def ret_def Now_def incAuthValid_def split: if_splits outcome.splits)

section \<open>The contract\<close>

interpretation microsoft: token_provider "microsoft_provider api clk c" api clk
  for api clk c
proof (unfold_locales, goal_cases)
  case (1 t)
  show ?case by (auto simp: microsoft_provider_def microsoft_Username_def)
next
  case (2 t)
  show ?case by (simp add: microsoft_provider_def microsoft_Revoke_def)
next
  case (3 t)
  show ?case by (auto simp: microsoft_provider_def microsoft_Valid_def quiet_later)
next
  case (4 code)
  show ?case by (simp add: microsoft_provider_def microsoft_Exchange_def)
next
  case (5 t w w')
  then have v: "microsoft_Valid api clk c t w = (Return True, w')" by (simp add: microsoft_provider_def)
  then have "TokenValid api (clk (ticks w)) t"
    using microsoft_Valid_True_iff [of api clk c t w] by (simp add: Let_def)
  with microsoft_Valid_TrueD [OF v] show ?case by (auto simp: microsoft_provider_def microsoft_Name_def)
next
  case (6 code w t w')
  then have "counted_exchange api (ms_config c) ''microsoft'' code w = (Return (Inr t), w')"
    by (simp add: microsoft_provider_def microsoft_Exchange_def)
  from counted_exchange_Inr [OF this] show ?case by (simp add: microsoft_provider_def microsoft_Name_def)
qed

section \<open>Properties\<close>

lemma microsoft_New_Inr:
  assumes "microsoft_New api c = Inr g"
  shows "ms_whitelist g = bool_map (UsersWhitelist c)" and "ms_tenant g = map_get (ProviderOpts c) ''tenant''"
    and "ms_groups g = [] \<longleftrightarrow> map_of (ProviderOpts c) ''groups'' = None"
  using assms by (auto simp: microsoft_New_def Let_def split: if_splits option.splits)

text \<open>
  Who is let in, over the answers: \<open>org_call\<close> is the number of the request for the organization, which comes after the
  one for the address if there is a whitelist.
\<close>

definition org_call :: "Auth \<Rightarrow> world \<Rightarrow> nat" where
  "org_call c w = (if UsersWhitelist c = [] then calls w else Suc (calls w))"

definition microsoft_allowed ::
  "oauth2_api \<Rightarrow> (nat \<Rightarrow> time) \<Rightarrow> Auth \<Rightarrow> microsoft_Config \<Rightarrow> Token \<Rightarrow> world \<Rightarrow> bool" where
  "microsoft_allowed api clk c g t w \<longleftrightarrow>
     (UsersWhitelist c = [] \<or> mail_at api g t (calls w) \<in> set (UsersWhitelist c)) \<and>
     TokenValid api (clk (ticks w)) t \<and> map_get (ProviderOpts c) ''tenant'' \<noteq> '''' \<and>
     (\<exists>vs. value_at api g t ''/organization'' (org_call c w) = Some vs \<and>
        verified_domain vs (map_get (ProviderOpts c) ''tenant'')) \<and>
     (map_of (ProviderOpts c) ''groups'' = None \<or>
        (\<exists>vs. value_at api g t ''/users/me/memberOf'' (Suc (org_call c w)) = Some vs \<and> member_of vs (ms_groups g)))"

definition wmsauth :: Auth where
  "wmsauth = \<lparr>OauthClientID = ''cid'', OauthClientSecret = ''sec'', OauthCallbackURL = ''https://ca/auth/callback'',
              auth_Provider = ''microsoft'', ProviderOpts = [(''tenant'', ''acme.org'')], UsersWhitelist = []\<rparr>"

definition wmsapi :: oauth2_api where
  "wmsapi = wapi\<lparr>json_parse := (\<lambda>s. Inr (JObject [(''value'', JArray [JObject [(''verifiedDomains'',
                     JArray [JObject [(''name'', JString ''acme.org'')]])]])]))\<rparr>"

lemma wms_value:
  "value_at wmsapi g wtoken p n =
     Some [JObject [(''verifiedDomains'', JArray [JObject [(''name'', JString ''acme.org'')]])]]"
  by (simp add: value_at_def document_at_def document_of_def wmsapi_def wapi_def doc_get_def)

text \<open>
  C29: a token that Valid accepts belongs, by Microsoft's answers, to a user of a configured whitelist, of the configured tenant and
  of one of the configured groups; conversely such a token is accepted when the two documents have the
  shape the code takes for granted.
\<close>

theorem microsoft_Valid_policy:
  assumes "microsoft_New api c = Inr g"
  shows "(fst (microsoft_Valid api clk g t w) = Return True \<longrightarrow> microsoft_allowed api clk c g t w)
    \<and> (microsoft_allowed api clk c g t w
       \<and> (\<forall>vs. value_at api g t ''/organization'' (org_call c w) = Some vs \<longrightarrow> tenant_shape vs)
       \<and> (\<forall>vs. value_at api g t ''/users/me/memberOf'' (Suc (org_call c w)) = Some vs \<longrightarrow> (\<forall>v \<in> set vs. \<exists>fs. v = JObject fs))
       \<longrightarrow> fst (microsoft_Valid api clk g t w) = Return True)"
proof -
  note g = microsoft_New_Inr [OF assms]
  have "microsoft_allowed api clk c g t w" if "fst (microsoft_Valid api clk g t w) = Return True"
    using that g tenant_loop_True memberOf_loop_True
    unfolding microsoft_Valid_True_iff Let_def microsoft_allowed_def org_call_def by auto
  moreover have "fst (microsoft_Valid api clk g t w) = Return True"
    if "microsoft_allowed api clk c g t w"
      and "\<forall>vs. value_at api g t ''/organization'' (org_call c w) = Some vs \<longrightarrow> tenant_shape vs"
      and "\<forall>vs. value_at api g t ''/users/me/memberOf'' (Suc (org_call c w)) = Some vs \<longrightarrow> (\<forall>v \<in> set vs. \<exists>fs. v = JObject fs)"
    using that g tenant_loop_shape memberOf_loop_shape
    unfolding microsoft_Valid_True_iff Let_def microsoft_allowed_def org_call_def by auto
  ultimately show ?thesis by blast
qed

theorem microsoft_Valid_policy_witness:
  "\<exists>g. microsoft_New wmsapi wmsauth = Inr g \<and> fst (microsoft_Valid wmsapi (\<lambda>_. 50) g wtoken world0) = Return True"
proof -
  obtain g where g: "microsoft_New wmsapi wmsauth = Inr g"
    by (simp add: microsoft_New_def wmsauth_def map_get_def Let_def)
  have "tenant_shape [JObject [(''verifiedDomains'', JArray [JObject [(''name'', JString ''acme.org'')]])]]"
    by (simp add: tenant_shape_def domain_shape_def doc_get_def)
  moreover have "verified_domain [JObject [(''verifiedDomains'', JArray [JObject [(''name'', JString ''acme.org'')]])]] ''acme.org''"
    by (auto simp: verified_domain_def doc_get_def)
  ultimately show ?thesis
    using microsoft_Valid_policy [OF g, of "\<lambda>_. 50" wtoken world0] g
    by (simp add: microsoft_allowed_def wms_value wmsauth_def map_get_def)
      (simp add: wmsapi_def wapi_def wtoken_def)
qed

text \<open>
  New accepts a whitelist without a tenant, but a provider without a tenant accepts no token at all, although it counts the
  token as valid.
\<close>

theorem microsoft_whitelist_only:
  assumes "microsoft_New api c = Inr g" and "map_get (ProviderOpts c) ''tenant'' = ''''"
  shows "fst (microsoft_Valid api clk g t w) = Return False"
  using microsoft_New_Inr [OF assms(1)] assms(2)
  by (simp add: microsoft_Valid_def not_whitelisted_def token_Valid_def microsoft_Email_eq io_defs)

theorem microsoft_whitelist_only_witness:
  "\<exists>g. microsoft_New wmsapi (wmsauth\<lparr>ProviderOpts := [], UsersWhitelist := [''alice@acme.org'']\<rparr>) = Inr g
     \<and> fst (microsoft_Valid wmsapi (\<lambda>_. 50) g wtoken world0) = Return False"
proof -
  let ?c = "wmsauth\<lparr>ProviderOpts := [], UsersWhitelist := [''alice@acme.org'']\<rparr>"
  obtain g where "microsoft_New wmsapi ?c = Inr g"
    by (simp add: microsoft_New_def wmsauth_def map_get_def bool_map_def Let_def)
  with microsoft_whitelist_only [OF this] show ?thesis by (simp add: map_get_def)
qed

text \<open>
  An organization document whose first entry is not an object makes Valid panic on an unchecked type assertion, for every valid token of a
  user that is not turned away by the whitelist.
\<close>

theorem microsoft_malformed_panics:
  assumes "ms_tenant g \<noteq> ''''" and "ms_whitelist g = []" and "TokenValid api (clk (ticks w)) t"
    and "value_at api g t ''/organization'' (calls w) = Some (v # vs)" and "\<forall>fs. v \<noteq> JObject fs"
  shows "fst (microsoft_Valid api clk g t w) = Panic"
  using assms
  by (cases v) (simp_all add: microsoft_Valid_def token_Valid_def verifyTenant_eq io_defs)

theorem microsoft_malformed_panics_witness:
  "fst (microsoft_Valid (wmsapi\<lparr>json_parse := (\<lambda>s. Inr (JObject [(''value'', JArray [JNull])]))\<rparr>) (\<lambda>_. 50)
     \<lparr>ms_config = \<lparr>ClientID = '''', ClientSecret = '''', RedirectURL = '''', oauth2_Endpoint = \<lparr>AuthURL = '''', TokenURL = ''''\<rparr>, Scopes = []\<rparr>,
      ms_tenant = ''acme.org'', ms_groups = [], ms_whitelist = []\<rparr> wtoken world0) = Panic"
  by (rule microsoft_malformed_panics [where v = JNull and vs = "[]"])
    (simp_all add: wmsapi_def wapi_def wtoken_def value_at_def document_at_def document_of_def doc_get_def)

end
