(* ===== verification/Server_Run.thy ===== *)
theory Server_Run
  imports Server_Guards Store_Any Auth_Google Auth_Gitlab Auth_Microsoft
begin

text \<open>
  The start of the server: \<^verbatim>\<open>Run\<close>, \<^verbatim>\<open>setupTLS\<close>, \<^verbatim>\<open>loadCerts\<close> and \<^verbatim>\<open>Shutdown\<close> of \<^verbatim>\<open>server/server.go\<close> and
  \<^verbatim>\<open>server/metrics/metrics.go\<close>. The network, the file systems, the privileges of the process and the metrics library are fields of
  \<open>host\<close>. The process keeps what it has done so far, in order, which the code has only as effects.
\<close>

section \<open>Metrics\<close>

record CounterVec =
  cv_Namespace :: string
  cv_Subsystem :: string
  cv_Name :: string
  cv_Help :: string
  cv_Labels :: "string list"

record Metrics =
  M_AuthValid :: CounterVec
  M_AuthExchange :: CounterVec
  M_Errs :: CounterVec

definition new_metrics :: Metrics where
  "new_metrics =
     \<lparr>M_AuthValid = \<lparr>cv_Namespace = ''cashier'', cv_Subsystem = ''auth'', cv_Name = ''valid_total'',
                     cv_Help = ''Auth Valid calls'', cv_Labels = [''module'']\<rparr>,
      M_AuthExchange = \<lparr>cv_Namespace = ''cashier'', cv_Subsystem = ''auth'', cv_Name = ''exchange_total'',
                        cv_Help = ''Auth Exchange calls'', cv_Labels = [''module'']\<rparr>,
      M_Errs = \<lparr>cv_Namespace = ''cashier'', cv_Subsystem = ''sys'', cv_Name = ''error_total'',
                cv_Help = ''Error counts by module'', cv_Labels = [''module'']\<rparr>\<rparr>"

section \<open>The process\<close>

datatype tls_certs =
    AutoCert string "string option"
  | KeyPair string string

datatype listener =
    TCPListener string
  | TLSListener listener tls_certs

datatype logfile = Stderr | LogFile string | NilFile

datatype event =
    Listened string
  | ReadFile string
  | Dropped string
  | Registered CounterVec
  | OpenedStore Database
  | OpenedLog string
  | Serving listener
  | S3Registered string string string
  | VaultRegistered vaultFS
  | WaitedForSignal
  | ClosedLog logfile
  | StoppedServing duration

record process =
  pr_did :: "event list"
  pr_registry :: "CounterVec list"
  pr_metrics :: "Metrics option"

definition start_process :: process where
  "start_process = \<lparr>pr_did = [], pr_registry = [], pr_metrics = None\<rparr>"

text \<open>
  \<open>prom_Register\<close> answers whether the registry, with the counters it has, takes one more. \<open>wkfs_ReadFile\<close> reads a file of any of the
  registered file systems.
\<close>

record ('k, 'ca) host =
  net_Listen :: "string \<Rightarrow> error option"
  wkfs_ReadFile :: "nat \<Rightarrow> string \<Rightarrow> error + string"
  X509KeyPair :: "string \<Rightarrow> string \<Rightarrow> error option"
  DropPrivileges :: "string \<Rightarrow> error option"
  prom_Register :: "CounterVec list \<Rightarrow> CounterVec \<Rightarrow> error option"
  h_oauth :: oauth2_api
  h_github :: github_api
  h_google :: google_api
  h_ssh :: "('k, 'ca) ssh_api"
  h_clk :: "nat \<Rightarrow> time"
  h_order :: "nat \<Rightarrow> nat \<Rightarrow> nat"
  h_ParseDuration :: "string \<Rightarrow> error + duration"
  h_sql_open :: sql_open
  h_sql_env :: sql_env
  os_OpenLog :: "string \<Rightarrow> error option"

type_synonym 'a run = "(process, 'a) store_op"

definition did :: "event \<Rightarrow> unit run" where
  "did e p w = (Return (), p\<lparr>pr_did := pr_did p @ [e]\<rparr>, w)"

definition MustRegister :: "('k, 'ca) host \<Rightarrow> CounterVec \<Rightarrow> unit run" where
  "MustRegister ho c p w =
     (case prom_Register ho (pr_registry p) c of
        Some e \<Rightarrow> (Panic, p, w)
      | None \<Rightarrow> (Return (), p\<lparr>pr_registry := pr_registry p @ [c], pr_did := pr_did p @ [Registered c]\<rparr>, w))"

text \<open>\<^verbatim>\<open>metrics.Register\<close> replaces the counters by new ones, which stand at zero, and registers them.\<close>

definition metrics_Register :: "('k, 'ca) host \<Rightarrow> unit run" where
  "metrics_Register ho =
     act_bind (\<lambda>p w. (Return (), p\<lparr>pr_metrics := Some new_metrics\<rparr>, w\<lparr>AuthValid := (\<lambda>_. 0), AuthExchange := (\<lambda>_. 0)\<rparr>)) (\<lambda>_.
     act_bind (MustRegister ho (M_Errs new_metrics)) (\<lambda>_.
     act_bind (MustRegister ho (M_AuthValid new_metrics)) (\<lambda>_.
     MustRegister ho (M_AuthExchange new_metrics))))"

section \<open>TLS\<close>

definition read_wkfs :: "('k, 'ca) host \<Rightarrow> string \<Rightarrow> (error + string) run" where
  "read_wkfs ho f = act_bind (did (ReadFile f)) (\<lambda>_. lift_io (remote (\<lambda>n. wkfs_ReadFile ho n f)))"

definition loadCerts :: "('k, 'ca) host \<Rightarrow> string \<Rightarrow> string \<Rightarrow> (error + tls_certs) run" where
  "loadCerts ho certFile keyFile =
     act_bind (read_wkfs ho keyFile) (\<lambda>r.
       case r of
         Inl e \<Rightarrow> act_ret (Inl (EWrap ''error reading TLS private key: '' e))
       | Inr key \<Rightarrow>
           act_bind (read_wkfs ho certFile) (\<lambda>r.
             case r of
               Inl e \<Rightarrow> act_ret (Inl (EWrap ''error reading TLS certificate: '' e))
             | Inr cert \<Rightarrow>
                 act_ret (case X509KeyPair ho cert key of Some e \<Rightarrow> Inl e | None \<Rightarrow> Inr (KeyPair cert key))))"

definition setupTLS :: "('k, 'ca) host \<Rightarrow> listener \<Rightarrow> Server \<Rightarrow> (error + listener) run" where
  "setupTLS ho l conf =
     (if LetsEncryptServername conf \<noteq> '''' then
        act_ret (Inr (TLSListener l (AutoCert (LetsEncryptServername conf)
          (if LetsEncryptCache conf \<noteq> '''' then Some (LetsEncryptCache conf) else None))))
      else if TLSCert conf = '''' \<or> TLSKey conf = '''' then
        act_ret (Inl (ENew ''TLS cert or key not specified in config''))
      else
        act_bind (loadCerts ho (TLSCert conf) (TLSKey conf)) (\<lambda>r.
          act_ret (case r of
            Inl e \<Rightarrow> Inl (EWrap ''unable to create TLS listener: '' e)
          | Inr pair \<Rightarrow> Inr (TLSListener l pair))))"

section \<open>Run\<close>

text \<open>The switch over the providers; \<open>None\<close> is its default branch.\<close>

definition new_provider :: "('k, 'ca) host \<Rightarrow> Auth \<Rightarrow> (error + Provider) option" where
  "new_provider ho c =
     (let api = h_oauth ho; clk = h_clk ho
      in if auth_Provider c = ''github'' then
           Some (map_sum (\<lambda>e. e) (github_provider api (h_github ho) clk) (github_New api (h_github ho) c))
         else if auth_Provider c = ''gitlab'' then
           Some (map_sum (\<lambda>e. e) (gitlab_provider api clk) (gitlab_New c))
         else if auth_Provider c = ''google'' then
           Some (map_sum (\<lambda>e. e) (google_provider api (h_google ho) clk) (google_New api (h_google ho) c))
         else if auth_Provider c = ''microsoft'' then
           Some (map_sum (\<lambda>e. e) (microsoft_provider api clk) (microsoft_New api c))
         else None)"

record cookie_options =
  co_MaxAge :: int
  co_Path :: string
  co_Secure :: bool
  co_HttpOnly :: bool

text \<open>
  What \<^verbatim>\<open>Run\<close> leaves running: the listener it serves, the application behind the router with the first state of its store,
  the key and the options of the cookies, the time limits and the log.
\<close>

record ('k, 'ca) running =
  srv_listener :: listener
  srv_app :: "('k, 'ca, any_store) application"
  srv_store :: any_store
  srv_CookieSecret :: string
  srv_cookies :: cookie_options
  srv_ReadTimeout :: duration
  srv_WriteTimeout :: duration
  srv_IdleTimeout :: duration
  srv_logfile :: logfile

definition laddr :: "Server \<Rightarrow> string" where
  "laddr s = Addr s @ '':'' @ show_int (Port s)"

text \<open>A step of \<^verbatim>\<open>Run\<close> that may fail: an error ends it, wrapped in the text of the step.\<close>

definition or_fail :: "(error \<Rightarrow> error) \<Rightarrow> (error + 'a) run \<Rightarrow> ('a \<Rightarrow> (error + 'b) run) \<Rightarrow> (error + 'b) run" where
  "or_fail wrap m f =
     act_bind m (\<lambda>r. case r of Inl e \<Rightarrow> act_ret (Inl (wrap e)) | Inr x \<Rightarrow> f x)"

definition listen :: "('k, 'ca) host \<Rightarrow> Server \<Rightarrow> (error + listener) run" where
  "listen ho s =
     (case net_Listen ho (laddr s) of
        Some e \<Rightarrow> act_ret (Inl (ENew (''unable to listen on '' @ laddr s)))
      | None \<Rightarrow> act_bind (did (Listened (laddr s))) (\<lambda>_. act_ret (Inr (TCPListener (laddr s)))))"

definition drop_to :: "('k, 'ca) host \<Rightarrow> string \<Rightarrow> (error + unit) run" where
  "drop_to ho u =
     (if u = '''' then act_ret (Inr ())
      else case DropPrivileges ho u of
        Some e \<Rightarrow> act_ret (Inl (EWrap (''unable to drop privileges to user '' @ Quote u @ '': '') e))
      | None \<Rightarrow> act_bind (did (Dropped u)) (\<lambda>_. act_ret (Inr ())))"

definition make_provider :: "('k, 'ca) host \<Rightarrow> Auth option \<Rightarrow> (error + Provider) run" where
  "make_provider ho au =
     (case au of
        None \<Rightarrow> lift_outcome Panic
      | Some c \<Rightarrow>
          act_ret (case new_provider ho c of
            None \<Rightarrow> Inl (ENew (''unknown provider '' @ Quote (auth_Provider c)))
          | Some (Inl e) \<Rightarrow> Inl (EWrap (''unable to configure provider '' @ Quote (auth_Provider c) @ '': '') e)
          | Some (Inr p) \<Rightarrow> Inr p))"

definition make_signer :: "('k, 'ca) host \<Rightarrow> SSH option \<Rightarrow> (error + 'ca KeySigner) run" where
  "make_signer ho sh =
     (case sh of
        None \<Rightarrow> lift_outcome Panic
      | Some c \<Rightarrow>
          act_bind (did (ReadFile (SigningKey c))) (\<lambda>_.
            lift_io (signer_New (h_ssh ho) (wkfs_ReadFile ho) (h_ParseDuration ho) c)))"

definition make_store :: "('k, 'ca) host \<Rightarrow> Database \<Rightarrow> (error + any_store) run" where
  "make_store ho d = act_bind (did (OpenedStore d)) (\<lambda>_. act_ret (store_New (h_sql_open ho) d))"

text \<open>The log; \<^verbatim>\<open>os.OpenFile\<close> gives a nil file with its error, which is what the server then logs to.\<close>

definition open_log :: "('k, 'ca) host \<Rightarrow> string \<Rightarrow> logfile run" where
  "open_log ho f =
     (if f = '''' then act_ret Stderr
      else case os_OpenLog ho f of
        Some e \<Rightarrow> act_ret NilFile
      | None \<Rightarrow> act_bind (did (OpenedLog f)) (\<lambda>_. act_ret (LogFile f)))"

definition privileged_section :: "('k, 'ca) host \<Rightarrow> Server \<Rightarrow> (error + listener) run" where
  "privileged_section ho s =
     or_fail (\<lambda>e. e) (listen ho s) (\<lambda>l.
     or_fail (EWrap ''unable to configure TLS: '') (if UseTLS s then setupTLS ho l s else act_ret (Inr l)) (\<lambda>l.
     or_fail (\<lambda>e. e) (drop_to ho (User s)) (\<lambda>_.
     act_ret (Inr l))))"

definition unprivileged_section :: "('k, 'ca) host \<Rightarrow> Config \<Rightarrow> Server \<Rightarrow> listener \<Rightarrow> (error + ('k, 'ca) running) run" where
  "unprivileged_section ho conf s l =
     act_bind (metrics_Register ho) (\<lambda>_.
     or_fail (\<lambda>e. e) (make_provider ho (cfg_Auth conf)) (\<lambda>authprovider.
     or_fail (EWrap ''unable to configure signer: '') (make_signer ho (cfg_SSH conf)) (\<lambda>keysigner.
     or_fail (EWrap ''unable to configure datastore: '') (make_store ho (server_Database s)) (\<lambda>certstore.
     act_bind (open_log ho (HTTPLogFile s)) (\<lambda>logfile.
     act_bind (did (Serving l)) (\<lambda>_.
     act_ret (Inr
       \<lparr>srv_listener = l,
        srv_app = \<lparr>app_provider = authprovider, app_certstore = anyStorer (h_clk ho) (h_order ho) (h_sql_env ho),
                   app_keysigner = keysigner, app_config = s, app_requireReason = RequireReason s\<rparr>,
        srv_store = certstore, srv_CookieSecret = CookieSecret s,
        srv_cookies = \<lparr>co_MaxAge = 900, co_Path = ''/'', co_Secure = UseTLS s, co_HttpOnly = True\<rparr>,
        srv_ReadTimeout = 60 * nano, srv_WriteTimeout = 60 * nano, srv_IdleTimeout = 120 * nano,
        srv_logfile = logfile\<rparr>)))))))"

definition Run :: "('k, 'ca) host \<Rightarrow> Config \<Rightarrow> (error + ('k, 'ca) running) run" where
  "Run ho conf =
     (case cfg_Server conf of
        None \<Rightarrow> lift_outcome Panic
      | Some s \<Rightarrow> or_fail (\<lambda>e. e) (privileged_section ho s) (unprivileged_section ho conf s))"

text \<open>
  \<^verbatim>\<open>Shutdown\<close> closes the log and then stops the server, whose answer \<open>http_Shutdown\<close> is for the time the context allows.
\<close>

definition Shutdown :: "(duration \<Rightarrow> error option) \<Rightarrow> ('k, 'ca) running \<Rightarrow> duration \<Rightarrow> error option run" where
  "Shutdown http_Shutdown sv timeout =
     act_bind (did (ClosedLog (srv_logfile sv))) (\<lambda>_.
     act_bind (did (StoppedServing timeout)) (\<lambda>_.
       act_ret (http_Shutdown timeout)))"

section \<open>What the steps leave behind\<close>

text \<open>
  \<open>run_post m Q\<close>: whatever \<open>m\<close> does, whether it returns or panics, is added behind what was done before, and \<open>Q\<close> holds of the outcome and
  what was added.
\<close>

definition run_post :: "'a run \<Rightarrow> ('a outcome \<Rightarrow> event list \<Rightarrow> bool) \<Rightarrow> bool" where
  "run_post m Q \<longleftrightarrow> (\<forall>p w. \<exists>tr. pr_did (fst (snd (m p w))) = pr_did p @ tr \<and> Q (fst (m p w)) tr)"

lemma run_postD:
  assumes "run_post m Q" and "m p w = (r, p', w')"
  obtains tr where "pr_did p' = pr_did p @ tr" and "Q r tr"
  using assms unfolding run_post_def by (metis fst_conv snd_conv)

lemma run_post_weaken: "run_post m Q \<Longrightarrow> (\<And>r tr. Q r tr \<Longrightarrow> Q' r tr) \<Longrightarrow> run_post m Q'"
  unfolding run_post_def by blast

lemma run_post_bind:
  assumes "run_post m Q1" and "\<And>x t1. Q1 (Return x) t1 \<Longrightarrow> run_post (f x) (\<lambda>r t2. Q r (t1 @ t2))"
    and "\<And>tr. Q1 Panic tr \<Longrightarrow> Q Panic tr"
  shows "run_post (act_bind m f) Q"
  unfolding run_post_def
proof (intro allI)
  fix p w
  obtain r p1 w1 where m: "m p w = (r, p1, w1)" by (cases "m p w")
  obtain t1 where t1: "pr_did p1 = pr_did p @ t1" "Q1 r t1" by (rule run_postD [OF assms(1) m])
  show "\<exists>tr. pr_did (fst (snd (act_bind m f p w))) = pr_did p @ tr \<and> Q (fst (act_bind m f p w)) tr"
  proof (cases r)
    case (Return x)
    with t1(2) assms(2) obtain t2 where "pr_did (fst (snd (f x p1 w1))) = pr_did p1 @ t2" "Q (fst (f x p1 w1)) (t1 @ t2)"
      unfolding run_post_def by blast
    with Return m t1 show ?thesis by (intro exI [of _ "t1 @ t2"]) (simp add: act_bind_def)
  next
    case Panic
    with m t1 assms(3) show ?thesis by (auto simp: act_bind_def)
  qed
qed

lemma run_post_fail:
  assumes "run_post m Q1" and "\<And>x t1. Q1 (Return (Inr x)) t1 \<Longrightarrow> run_post (f x) (\<lambda>r t2. Q r (t1 @ t2))"
    and "\<And>e tr. Q1 (Return (Inl e)) tr \<Longrightarrow> Q (Return (Inl (wrap e))) tr" and "\<And>tr. Q1 Panic tr \<Longrightarrow> Q Panic tr"
  shows "run_post (or_fail wrap m f) Q"
  unfolding or_fail_def
proof (rule run_post_bind [OF assms(1)])
  fix r t1
  assume "Q1 (Return r) t1"
  then show "run_post (case r of Inl e \<Rightarrow> act_ret (Inl (wrap e)) | Inr x \<Rightarrow> f x) (\<lambda>r t2. Q r (t1 @ t2))"
    using assms(2,3) by (cases r) (auto simp: run_post_def act_ret_def)
qed (use assms(4) in auto)

lemma run_post_prims [simp]:
  "run_post (act_ret x) Q \<longleftrightarrow> Q (Return x) []" "run_post (lift_outcome r) Q' \<longleftrightarrow> Q' r []"
  "run_post (did e) Q'' \<longleftrightarrow> Q'' (Return ()) [e]"
  by (simp_all add: run_post_def act_ret_def lift_outcome_def did_def)

text \<open>A step that adds events of a set only.\<close>

definition step_adds :: "'a run \<Rightarrow> event set \<Rightarrow> bool" where
  "step_adds m E \<longleftrightarrow> run_post m (\<lambda>_ tr. set tr \<subseteq> E)"

lemma step_adds_bind [intro]: "step_adds m E \<Longrightarrow> (\<And>x. step_adds (f x) E) \<Longrightarrow> step_adds (act_bind m f) E"
  unfolding step_adds_def by (rule run_post_bind) (auto elim: run_post_weaken)

lemma step_adds_prims [simp]:
  "step_adds (act_ret x) E" "step_adds (lift_io m) E" "step_adds (lift_outcome r) E" "step_adds (did e) E \<longleftrightarrow> e \<in> E"
  by (simp_all add: step_adds_def) (simp add: run_post_def lift_io_def split: prod.split)

text \<open>What may be done before the privileges are dropped: listening and reading the TLS files.\<close>

definition early :: "Server \<Rightarrow> event set" where
  "early s = {Listened (laddr s), ReadFile (TLSKey s), ReadFile (TLSCert s)}"

lemma listen_adds: "step_adds (listen ho s) (early s)"
  by (auto simp: listen_def early_def split: option.split)

lemma read_wkfs_adds: "ReadFile f \<in> E \<Longrightarrow> step_adds (read_wkfs ho f) E"
  by (auto simp: read_wkfs_def)

lemma loadCerts_adds: "step_adds (loadCerts ho (TLSCert s) (TLSKey s)) (early s)"
  unfolding loadCerts_def
  by (intro step_adds_bind read_wkfs_adds; simp add: early_def split: sum.split; intro allI impI step_adds_bind read_wkfs_adds;
      simp split: sum.split)

lemma setupTLS_adds: "step_adds (setupTLS ho l s) (early s)"
  using loadCerts_adds [of ho s] by (auto simp: setupTLS_def)

text \<open>What may be done afterwards, up to the start of the server.\<close>

definition late :: "event set" where
  "late = {e. \<forall>u l. e \<noteq> Dropped u \<and> e \<noteq> Serving l}"

lemma MustRegister_adds: "step_adds (MustRegister ho c) late"
  by (auto simp: step_adds_def run_post_def MustRegister_def late_def split: option.split)

lemma metrics_Register_adds: "step_adds (metrics_Register ho) late"
  unfolding metrics_Register_def
  by (intro step_adds_bind MustRegister_adds) (simp add: step_adds_def run_post_def)

lemma make_adds:
  "step_adds (make_provider ho au) late" "step_adds (make_signer ho sh) late" "step_adds (make_store ho d) late"
  "step_adds (open_log ho f) late"
  by (auto simp: make_provider_def make_signer_def make_store_def open_log_def late_def split: option.split)

definition dropped_to :: "Server \<Rightarrow> event list" where
  "dropped_to s = (if User s = '''' then [] else [Dropped (User s)])"

lemma drop_to_post:
  "run_post (drop_to ho (User s)) (\<lambda>r tr. case r of Return (Inr _) \<Rightarrow> tr = dropped_to s | _ \<Rightarrow> tr = [])"
  by (auto simp: drop_to_def dropped_to_def split: option.split intro!: run_post_bind [where ?Q1.0 = "\<lambda>r tr. r \<noteq> Panic \<and> tr = [Dropped (User s)]"])

lemma privileged_post:
  "run_post (privileged_section ho s) (\<lambda>r tr. case r of
     Return (Inr l) \<Rightarrow> \<exists>b. tr = b @ dropped_to s \<and> set b \<subseteq> early s
   | _ \<Rightarrow> set tr \<subseteq> early s)"
  unfolding privileged_section_def
proof (rule run_post_fail [OF listen_adds [unfolded step_adds_def]], goal_cases)
  case (1 l t1)
  have "step_adds (if UseTLS s then setupTLS ho l s else act_ret (Inr l)) (early s)" by (simp add: setupTLS_adds)
  then show ?case unfolding step_adds_def
  proof (rule run_post_fail, goal_cases)
    case (1 l2 t2)
    show ?case by (rule run_post_fail [OF drop_to_post]) (use 1 \<open>set t1 \<subseteq> early s\<close> in auto)
  qed (use 1 in auto)
qed auto

lemma unprivileged_post:
  "run_post (unprivileged_section ho conf s l) (\<lambda>r tr. case r of
     Return (Inr sv) \<Rightarrow> (\<exists>b. tr = b @ [Serving l] \<and> set b \<subseteq> late) \<and> srv_listener sv = l
   | _ \<Rightarrow> set tr \<subseteq> late)"
  unfolding unprivileged_section_def
proof (rule run_post_bind [OF metrics_Register_adds [unfolded step_adds_def]], goal_cases)
  case (1 u t1)
  show ?case
  proof (rule run_post_fail [OF make_adds(1) [unfolded step_adds_def]], goal_cases)
    case (1 p t2)
    show ?case
    proof (rule run_post_fail [OF make_adds(2) [unfolded step_adds_def]], goal_cases)
      case (1 k t3)
      show ?case
      proof (rule run_post_fail [OF make_adds(3) [unfolded step_adds_def]], goal_cases)
        case (1 st t4)
        show ?case
        proof (rule run_post_bind [OF make_adds(4) [unfolded step_adds_def]], goal_cases)
          case (1 lg t5)
          show ?case
            by (rule run_post_bind [where ?Q1.0 = "\<lambda>r tr. r \<noteq> Panic \<and> tr = [Serving l]"])
               (use \<open>set t1 \<subseteq> late\<close> \<open>set t2 \<subseteq> late\<close> \<open>set t3 \<subseteq> late\<close> \<open>set t4 \<subseteq> late\<close> \<open>set t5 \<subseteq> late\<close> in auto)
        qed (use \<open>set t1 \<subseteq> late\<close> \<open>set t2 \<subseteq> late\<close> \<open>set t3 \<subseteq> late\<close> \<open>set t4 \<subseteq> late\<close> in auto)
      qed (use \<open>set t1 \<subseteq> late\<close> \<open>set t2 \<subseteq> late\<close> \<open>set t3 \<subseteq> late\<close> in auto)
    qed (use \<open>set t1 \<subseteq> late\<close> \<open>set t2 \<subseteq> late\<close> in auto)
  qed (use \<open>set t1 \<subseteq> late\<close> in auto)
qed auto

end
