(* ===== verification/Config_Read.thy ===== *)
theory Config_Read
  imports Config
begin

text \<open>
  What a server may rely on once \<^verbatim>\<open>ReadConfig\<close> has returned: which sections are there and where each secret in
  them comes from.
\<close>

section \<open>Secrets\<close>

text \<open>
  \<open>resolved\<close>: a value under \<^verbatim>\<open>/vault/\<close> was replaced by a string that the Vault server answered for its path and key,
  any other value was kept.
\<close>

definition resolved :: "vault_api \<Rightarrow> Client \<Rightarrow> string \<Rightarrow> string \<Rightarrow> bool" where
  "resolved api cl old new \<longleftrightarrow>
     (if HasPrefix old vault_prefix
      then (\<exists>n data. LogicalRead api n cl (fst (parseName old)) = Inr (Some data) \<and>
              map_of data (snd (parseName old)) = Some (VString new))
      else new = old)"

text \<open>A value from the environment wins over the one of the file.\<close>

definition env_or :: "(string \<Rightarrow> string) \<Rightarrow> string \<Rightarrow> string \<Rightarrow> string" where
  "env_or env var v = (if env var \<noteq> '''' then env var else v)"

lemma Client_Read_no_error:
  assumes "Client_Read api (Some cl) v w = (Return (s, None), w')"
  obtains data where "LogicalRead api (calls w) cl (fst (parseName v)) = Inr (Some data)"
    and "map_of data (snd (parseName v)) = Some (VString s)"
  using assms
  by (auto simp: Client_Read_def io_defs case_prod_unfold Let_def split: sum.splits option.splits vvalue.splits)

lemma vault_get_resolved:
  assumes "vault_get api cl v errs w = (Return (s, []), w')"
  shows "errs = [] \<and> resolved api cl v s"
proof (cases "HasPrefix v vault_prefix")
  case True
  with assms obtain err w1 where r: "Client_Read api (Some cl) v w = (Return (s, err), w1)"
      and e: "(case err of None \<Rightarrow> errs | Some e \<Rightarrow> errs @ [e]) = []"
    by (auto simp: vault_get_def elim!: bind_io_ReturnE)
  then have n: "err = None" "errs = []" by (auto split: option.splits)
  from r n obtain data where "LogicalRead api (calls w) cl (fst (parseName v)) = Inr (Some data)"
      "map_of data (snd (parseName v)) = Some (VString s)"
    using Client_Read_no_error by blast
  with True n show ?thesis by (auto simp: resolved_def)
next
  case False
  with assms show ?thesis by (simp add: vault_get_def resolved_def)
qed

lemma set_vault_auth_resolved:
  assumes "set_vault_auth api cl auth errs w = (Return (auth', []), w')"
  obtains a x y where "auth = Some a" and "auth' = Some (a\<lparr>OauthClientID := x, OauthClientSecret := y\<rparr>)" and "errs = []"
    and "resolved api cl (OauthClientID a) x" and "resolved api cl (OauthClientSecret a) y"
  using assms
  by (auto simp: set_vault_auth_def split: option.splits elim!: bind_io_ReturnE dest!: vault_get_resolved)

lemma set_vault_server_resolved:
  assumes "set_vault_server api cl srv errs w = (Return (srv', []), w')"
  obtains s x y z where "srv = Some s" and "errs = []"
    and "srv' = Some (s\<lparr>CSRFSecret := x, CookieSecret := y, server_Database := (server_Database s)\<lparr>db_Password := z\<rparr>\<rparr>)"
    and "resolved api cl (CSRFSecret s) x" and "resolved api cl (CookieSecret s) y"
    and "resolved api cl (db_Password (server_Database s)) z"
  using assms
  by (auto simp: set_vault_server_def split: option.splits elim!: bind_io_ReturnE dest!: vault_get_resolved)

lemma set_vault_aws_errs:
  assumes "set_vault_aws api cl aws errs w = (Return (aws', []), w')"
  shows "errs = []"
  using assms by (auto simp: set_vault_aws_def split: option.splits elim!: bind_io_ReturnE dest!: vault_get_resolved)

text \<open>\<open>from_vault\<close>: what a successful \<^verbatim>\<open>setFromVault\<close> made of the sections \<open>a\<close> and \<open>s\<close>.\<close>

definition from_vault :: "vault_api \<Rightarrow> Client \<Rightarrow> Auth \<Rightarrow> Server \<Rightarrow> Auth \<Rightarrow> Server \<Rightarrow> bool" where
  "from_vault api cl a s a' s' \<longleftrightarrow>
     (\<exists>x y. a' = a\<lparr>OauthClientID := x, OauthClientSecret := y\<rparr> \<and>
        resolved api cl (OauthClientID a) x \<and> resolved api cl (OauthClientSecret a) y) \<and>
     (\<exists>x y z. s' = s\<lparr>CSRFSecret := x, CookieSecret := y, server_Database := (server_Database s)\<lparr>db_Password := z\<rparr>\<rparr> \<and>
        resolved api cl (CSRFSecret s) x \<and> resolved api cl (CookieSecret s) y \<and> resolved api cl (db_Password (server_Database s)) z)"

definition uses_vault :: "Config \<Rightarrow> bool" where
  "uses_vault c \<longleftrightarrow> (case cfg_Vault c of None \<Rightarrow> False | Some vc \<Rightarrow> vault_Token vc \<noteq> '''' \<and> vault_Address vc \<noteq> '''')"

definition vault_client_of :: "Config \<Rightarrow> Client" where
  "vault_client_of c = \<lparr>vc_address = vault_Address (the (cfg_Vault c)), vc_token = vault_Token (the (cfg_Vault c))\<rparr>"

lemma setFromVault_uses:
  assumes "setFromVault api c w = (Return (Inr c'), w')" and "uses_vault c"
  obtains a s a' s' where "cfg_Auth c = Some a" "cfg_Server c = Some s" "cfg_Auth c' = Some a'" "cfg_Server c' = Some s'"
    "cfg_SSH c' = cfg_SSH c" "from_vault api (vault_client_of c) a s a' s'"
proof -
  let ?cl = "vault_client_of c"
  obtain vc where vc: "cfg_Vault c = Some vc" "vault_Token vc \<noteq> ''''" "vault_Address vc \<noteq> ''''"
    using assms(2) by (auto simp: uses_vault_def split: option.splits)
  with assms(1) obtain auth e1 w1 srv e2 w2 aws w3 where
      a: "set_vault_auth api ?cl (cfg_Auth c) [] w = (Return (auth, e1), w1)"
    and s: "set_vault_server api ?cl (cfg_Server c) e1 w1 = (Return (srv, e2), w2)"
    and x: "set_vault_aws api ?cl (cfg_AWS c) e2 w2 = (Return (aws, []), w3)"
    and c': "c' = c\<lparr>cfg_Auth := auth, cfg_Server := srv, cfg_AWS := aws\<rparr>"
    by (auto simp: setFromVault_def vault_NewClient_def vault_client_of_def split: option.splits if_splits elim!: bind_io_ReturnE)
  from set_vault_aws_errs [OF x] s have s: "set_vault_server api ?cl (cfg_Server c) e1 w1 = (Return (srv, []), w2)" by simp
  obtain s0 x y z where srv: "cfg_Server c = Some s0" "e1 = []"
      "srv = Some (s0\<lparr>CSRFSecret := x, CookieSecret := y, server_Database := (server_Database s0)\<lparr>db_Password := z\<rparr>\<rparr>)"
      "resolved api ?cl (CSRFSecret s0) x" "resolved api ?cl (CookieSecret s0) y" "resolved api ?cl (db_Password (server_Database s0)) z"
    by (rule set_vault_server_resolved [OF s])
  obtain a0 x' y' where auth: "cfg_Auth c = Some a0" "auth = Some (a0\<lparr>OauthClientID := x', OauthClientSecret := y'\<rparr>)"
      "resolved api ?cl (OauthClientID a0) x'" "resolved api ?cl (OauthClientSecret a0) y'"
    by (rule set_vault_auth_resolved [OF a [unfolded srv(2)]])
  show thesis
    by (rule that [OF auth(1) srv(1)])
       (use c' auth srv in \<open>auto simp: from_vault_def\<close>)
qed

lemma setFromVault_unused:
  assumes "\<not> uses_vault c"
  shows "setFromVault api c = ret (Inr c)"
  using assms by (auto simp: setFromVault_def uses_vault_def split: option.splits)

section \<open>The environment\<close>

definition env_server :: "(string \<Rightarrow> string) \<Rightarrow> Server \<Rightarrow> Server" where
  "env_server env s =
     s\<lparr>Port := (case Atoi (env ''PORT'') of Some p \<Rightarrow> p | None \<Rightarrow> Port s),
       CSRFSecret := env_or env ''CSRF_SECRET'' (CSRFSecret s),
       CookieSecret := env_or env ''COOKIE_SECRET'' (CookieSecret s)\<rparr>"

definition env_auth :: "(string \<Rightarrow> string) \<Rightarrow> Auth \<Rightarrow> Auth" where
  "env_auth env a =
     a\<lparr>OauthClientID := env_or env ''OAUTH_CLIENT_ID'' (OauthClientID a),
       OauthClientSecret := env_or env ''OAUTH_CLIENT_SECRET'' (OauthClientSecret a)\<rparr>"

lemma setFromEnvironment_eq:
  assumes "cfg_Server c = Some s" and "cfg_Auth c = Some a"
  shows "setFromEnvironment env c = Return (c\<lparr>cfg_Server := Some (env_server env s), cfg_Auth := Some (env_auth env a)\<rparr>)"
  using assms
  by (cases c; cases s; cases a; cases "Atoi (env ''PORT'')")
     (simp_all add: setFromEnvironment_def set_server_def set_auth_def env_server_def env_auth_def env_or_def)

lemma setFromEnvironment_sections:
  assumes "setFromEnvironment env c = Return c'"
  shows "(cfg_Server c' = None) = (cfg_Server c = None)" and "(cfg_Auth c' = None) = (cfg_Auth c = None)"
    and "cfg_SSH c' = cfg_SSH c"
  using assms
  by (auto simp: setFromEnvironment_def set_server_def set_auth_def split: option.splits if_splits)

lemma verifyConfig_None:
  "verifyConfig c = None \<longleftrightarrow> cfg_SSH c \<noteq> None \<and> cfg_Auth c \<noteq> None \<and> cfg_Server c \<noteq> None"
  by (simp add: verifyConfig_def missing_def Let_def)

lemma ReadConfig_parsed:
  assumes "read_file env f = Inr bs" and "hcl_Unmarshal env bs = Inr c0"
  shows "ReadConfig env f =
    bind_io (setFromVault (vault_client env) c0) (\<lambda>r.
      case r of
        Inl e \<Rightarrow> ret (Inl e)
      | Inr c \<Rightarrow>
          (case setFromEnvironment (Getenv env) c of
             Panic \<Rightarrow> throw
           | Return c \<Rightarrow>
               (case verifyConfig c of
                  Some e \<Rightarrow> ret (Inl (EWrap ''unabe to verify config: '' e))
                | None \<Rightarrow> ret (Inr c))))"
  using assms by (simp add: ReadConfig_def)

lemma ReadConfig_result:
  assumes "read_file env f = Inr bs" and "hcl_Unmarshal env bs = Inr c0" and "ReadConfig env f w = (Return (Inr c), w')"
  obtains c1 w1 where "setFromVault (vault_client env) c0 w = (Return (Inr c1), w1)"
    and "setFromEnvironment (Getenv env) c1 = Return c" and "verifyConfig c = None"
  using assms(3) unfolding ReadConfig_parsed [OF assms(1,2)]
  by (auto split: sum.splits outcome.splits option.splits elim!: bind_io_ReturnE)

section \<open>Properties\<close>

definition wvault :: vault_api where
  "wvault = \<lparr>api_NewClient = (\<lambda>_. None), LogicalRead = (\<lambda>_ _ _. Inr (Some [(''csrf'', VString ''s3cret'')])), LogicalDelete = (\<lambda>_ _ _. None)\<rparr>"

definition wserver_section :: Server where
  "wserver_section = \<lparr>UseTLS = False, TLSKey = '''', TLSCert = '''', LetsEncryptServername = '''', LetsEncryptCache = '''', Addr = '''',
     Port = 10000, User = '''', CookieSecret = ''cookie'', CSRFSecret = ''/vault/secret/csrf'', HTTPLogFile = '''',
     server_Database = \<lparr>db_Type = ''mem'', db_DBName = '''', db_Address = '''', db_Username = '''', db_Password = '''', db_Filename = ''''\<rparr>,
     RequireReason = False, ShutdownTimeout = ''10s''\<rparr>"

definition wfile :: Config where
  "wfile = \<lparr>cfg_Server = Some wserver_section,
     cfg_Auth = Some \<lparr>OauthClientID = ''cid'', OauthClientSecret = ''csecret'', OauthCallbackURL = '''', auth_Provider = ''github'',
                      ProviderOpts = [], UsersWhitelist = [''alice'']\<rparr>,
     cfg_SSH = Some \<lparr>SigningKey = ''key'', AdditionalPrincipals = [], MaxAge = ''24h'', Permissions = []\<rparr>,
     cfg_AWS = None, cfg_Vault = Some \<lparr>vault_Address = ''https://vault'', vault_Token = ''t''\<rparr>\<rparr>"

definition wconfig :: "Config \<Rightarrow> config_env" where
  "wconfig c = \<lparr>read_file = (\<lambda>_. Inr ''text''), hcl_Unmarshal = (\<lambda>_. Inr c),
     Getenv = (\<lambda>v. if v = ''COOKIE_SECRET'' then ''from env'' else ''''), vault_client = wvault\<rparr>"

text \<open>
  C35: a configuration that ReadConfig returns has the server, auth and ssh sections of the file. Its secrets come from the environment where that has
  them; otherwise a value under /vault/ is a string that the configured Vault server answered for that path and key, and any other value is the one of the file.
\<close>

theorem ReadConfig_secrets:
  assumes "read_file env f = Inr bs" and "hcl_Unmarshal env bs = Inr c0" and "ReadConfig env f w = (Return (Inr c), w')"
  shows "\<exists>a s a1 s1. cfg_Auth c0 = Some a \<and> cfg_Server c0 = Some s \<and> cfg_SSH c0 \<noteq> None \<and> cfg_SSH c = cfg_SSH c0 \<and>
    (if uses_vault c0 then from_vault (vault_client env) (vault_client_of c0) a s a1 s1 else a1 = a \<and> s1 = s) \<and>
    cfg_Auth c = Some (env_auth (Getenv env) a1) \<and> cfg_Server c = Some (env_server (Getenv env) s1)"
proof -
  obtain c1 w1 where c1: "setFromVault (vault_client env) c0 w = (Return (Inr c1), w1)"
      "setFromEnvironment (Getenv env) c1 = Return c" "verifyConfig c = None"
    by (rule ReadConfig_result [OF assms])
  note sect = setFromEnvironment_sections [OF c1(2)]
  from c1(3) sect obtain a1 s1 where c1s: "cfg_Auth c1 = Some a1" "cfg_Server c1 = Some s1" and ssh: "cfg_SSH c1 \<noteq> None" "cfg_SSH c = cfg_SSH c1"
    by (auto simp: verifyConfig_None)
  from setFromEnvironment_eq [OF c1s(2,1), of "Getenv env"] c1(2)
  have c: "cfg_Auth c = Some (env_auth (Getenv env) a1)" "cfg_Server c = Some (env_server (Getenv env) s1)" by auto
  show ?thesis
  proof (cases "uses_vault c0")
    case True
    then show ?thesis using setFromVault_uses [OF c1(1) True] c1s c ssh by (metis option.inject)
  next
    case False
    with c1(1) have "c1 = c0" by (simp add: setFromVault_unused)
    with False c1s c ssh show ?thesis by auto
  qed
qed

theorem ReadConfig_secrets_witness:
  "\<exists>c w' s. ReadConfig (wconfig wfile) ''cashierd.conf'' world0 = (Return (Inr c), w') \<and> cfg_Server c = Some s \<and> CookieSecret s = ''from env''"
proof -
  let ?env = "wconfig wfile"
  have "case fst (ReadConfig ?env ''cashierd.conf'' world0) of Return (Inr c) \<Rightarrow> True | _ \<Rightarrow> False" by code_simp
  then obtain c w' where c: "ReadConfig ?env ''cashierd.conf'' world0 = (Return (Inr c), w')"
    by (cases "ReadConfig ?env ''cashierd.conf'' world0") (auto split: outcome.splits sum.splits)
  from ReadConfig_secrets [OF _ _ c, of "''text''" wfile] obtain s1 where "cfg_Server c = Some (env_server (Getenv ?env) s1)"
    by (auto simp: wconfig_def)
  then have "\<exists>s. cfg_Server c = Some s \<and> CookieSecret s = ''from env''" by (simp add: env_server_def env_or_def wconfig_def)
  with c show ?thesis by blast
qed

text \<open>
  A configuration file without a server section is reported as an error only if the environment sets none of PORT, CSRF_SECRET and
  COOKIE_SECRET; with one of them the program panics before it checks for missing sections.
\<close>

theorem ReadConfig_missing_server:
  assumes "read_file env f = Inr bs" and "hcl_Unmarshal env bs = Inr c0" and "\<not> uses_vault c0"
    and "cfg_Server c0 = None" and "cfg_Auth c0 \<noteq> None" and "cfg_SSH c0 \<noteq> None"
  shows "ReadConfig env f w =
    (if Atoi (Getenv env ''PORT'') \<noteq> None \<or> Getenv env ''CSRF_SECRET'' \<noteq> '''' \<or> Getenv env ''COOKIE_SECRET'' \<noteq> '''' then (Panic, w)
     else (Return (Inl (EWrap ''unabe to verify config: '' (EMulti [ENew ''missing server config section'']))), w))"
proof -
  from assms(5) obtain a where a: "cfg_Auth c0 = Some a" by auto
  have "setFromEnvironment (Getenv env) c0 =
      (if Atoi (Getenv env ''PORT'') \<noteq> None \<or> Getenv env ''CSRF_SECRET'' \<noteq> '''' \<or> Getenv env ''COOKIE_SECRET'' \<noteq> '''' then Panic
       else Return (c0\<lparr>cfg_Auth := Some (env_auth (Getenv env) a)\<rparr>))"
    using assms(4) a
    by (cases c0; cases a) (auto simp: setFromEnvironment_def set_server_def set_auth_def env_auth_def env_or_def split: option.split)
  then show ?thesis
    using assms(3,4,6) by (simp add: ReadConfig_parsed [OF assms(1,2)] setFromVault_unused verifyConfig_def missing_def throw_def ret_def)
qed

theorem ReadConfig_missing_server_witness:
  "fst (ReadConfig (wconfig (wfile\<lparr>cfg_Server := None, cfg_Vault := None\<rparr>)) ''cashierd.conf'' world0) = Panic"
  using ReadConfig_missing_server [of "wconfig (wfile\<lparr>cfg_Server := None, cfg_Vault := None\<rparr>)" "''cashierd.conf''" "''text''"
      "wfile\<lparr>cfg_Server := None, cfg_Vault := None\<rparr>" world0]
  by (simp add: wconfig_def wfile_def uses_vault_def)

end
