(* ===== verification/Server_Start.thy ===== *)
theory Server_Start
  imports Server_Run Config_Read
begin

text \<open>
  What a server that \<^verbatim>\<open>Run\<close> has started is: which provider it asks, in which order it was brought up, and what guards its store.
\<close>

section \<open>The provider and the store of a server\<close>

lemma new_provider_contract:
  assumes "new_provider ho c = Some (Inr pv)"
  shows "token_provider pv (h_oauth ho) (h_clk ho)"
  using assms github.token_provider_axioms gitlab.token_provider_axioms google.token_provider_axioms microsoft.token_provider_axioms
  by (auto simp: new_provider_def Let_def map_sum_def split: if_splits sum.splits)

lemma or_fail_InrE:
  assumes "or_fail wrap m f p w = (Return (Inr y), p'', w'')"
  obtains x p' w' where "m p w = (Return (Inr x), p', w')" and "f x p' w' = (Return (Inr y), p'', w'')"
  using assms by (auto simp: or_fail_def act_ret_def elim!: act_bind_ReturnE split: sum.splits)

lemma make_provider_InrE:
  assumes "make_provider ho au p w = (Return (Inr pv), p', w')"
  obtains c where "au = Some c" and "new_provider ho c = Some (Inr pv)"
  using assms by (auto simp: make_provider_def act_ret_def lift_outcome_def split: option.splits sum.splits)

lemma make_signer_InrE:
  assumes "make_signer ho sh p w = (Return (Inr ks), p', w')"
  obtains c data key validity where "sh = Some c" and "wkfs_ReadFile ho (calls w) (SigningKey c) = Inr data"
    and "ParsePrivateKey (h_ssh ho) data = Inr key" and "h_ParseDuration ho (MaxAge c) = Inr validity"
    and "ks = \<lparr>ks_ca = key, ks_validity = validity, ks_principals = AdditionalPrincipals c, ks_permissions = Permissions c\<rparr>"
  using assms
  by (auto simp: make_signer_def did_def act_bind_def lift_io_def signer_New_def io_defs lift_outcome_def split: option.splits sum.splits)

text \<open>
  \<open>configured ho conf sv\<close>: the server has the provider, the signer, the store and the settings that the configuration names.
\<close>

definition configured :: "('k, 'ca) host \<Rightarrow> Config \<Rightarrow> ('k, 'ca) running \<Rightarrow> bool" where
  "configured ho conf sv \<longleftrightarrow>
     (\<exists>s c sh n data. cfg_Server conf = Some s \<and> cfg_Auth conf = Some c \<and> cfg_SSH conf = Some sh \<and>
        new_provider ho c = Some (Inr (app_provider (srv_app sv))) \<and>
        wkfs_ReadFile ho n (SigningKey sh) = Inr data \<and> ParsePrivateKey (h_ssh ho) data = Inr (ks_ca (app_keysigner (srv_app sv))) \<and>
        h_ParseDuration ho (MaxAge sh) = Inr (ks_validity (app_keysigner (srv_app sv))) \<and>
        ks_principals (app_keysigner (srv_app sv)) = AdditionalPrincipals sh \<and>
        ks_permissions (app_keysigner (srv_app sv)) = Permissions sh \<and>
        app_certstore (srv_app sv) = anyStorer (h_clk ho) (h_order ho) (h_sql_env ho) \<and>
        store_New (h_sql_open ho) (server_Database s) = Inr (srv_store sv) \<and>
        app_requireReason (srv_app sv) = RequireReason s \<and> app_config (srv_app sv) = s)"

lemma Run_configured:
  assumes "Run ho conf p w = (Return (Inr sv), p', w')"
  shows "configured ho conf sv"
proof -
  from assms obtain s where s: "cfg_Server conf = Some s" and
      "or_fail (\<lambda>e. e) (privileged_section ho s) (unprivileged_section ho conf s) p w = (Return (Inr sv), p', w')"
    by (auto simp: Run_def lift_outcome_def split: option.splits)
  then obtain l p1 w1 where "unprivileged_section ho conf s l p1 w1 = (Return (Inr sv), p', w')"
    by (blast elim: or_fail_InrE)
  then obtain pv p2 w2 p3 w3 ks p4 w4 st p5 w5 lg p6 w6 where
      pv: "make_provider ho (cfg_Auth conf) p2 w2 = (Return (Inr pv), p3, w3)"
    and ks: "make_signer ho (cfg_SSH conf) p3 w3 = (Return (Inr ks), p4, w4)"
    and st: "make_store ho (server_Database s) p4 w4 = (Return (Inr st), p5, w5)"
    and sv: "app_provider (srv_app sv) = pv" "app_keysigner (srv_app sv) = ks" "srv_store sv = st"
      "app_certstore (srv_app sv) = anyStorer (h_clk ho) (h_order ho) (h_sql_env ho)"
      "app_requireReason (srv_app sv) = RequireReason s" "app_config (srv_app sv) = s"
    unfolding unprivileged_section_def
    by (elim act_bind_ReturnE or_fail_InrE) (auto simp: act_ret_def)
  from st have "store_New (h_sql_open ho) (server_Database s) = Inr st"
    by (simp add: make_store_def did_def act_bind_def act_ret_def)
  with s sv make_provider_InrE [OF pv] make_signer_InrE [OF ks] show ?thesis
    unfolding configured_def by (metis KeySigner.select_convs)
qed

lemma anyStorer_reads_keep: "reads_keep (anyStorer clk order env)"
  using memoryStorer_reads_keep [of clk order] sqlStorer_reads_keep [of env clk]
  unfolding reads_keep_def by (auto simp: dispatch_def case_prod_unfold split: sum.split)

text \<open>A token a provider of the server accepts is valid at a reading of the clock during the question.\<close>

lemma configured_accepts:
  assumes "configured ho conf sv" and "prov_Valid (app_provider (srv_app sv)) t w = (Return True, w')"
  obtains i where "ticks w \<le> i" and "i < ticks w'" and "TokenValid (h_oauth ho) (h_clk ho i) t"
  using assms token_provider.valid_law [OF new_provider_contract] unfolding configured_def by blast

section \<open>A host for the witnesses\<close>

definition wsql_open :: sql_open where
  "wsql_open = \<lparr>FormatDSN = my_Addr, Connect = (\<lambda>driver dsn. Inr wdb), migrate_Exec = (\<lambda>driver dir d. (None, d)), Preparex = (\<lambda>_. None)\<rparr>"

definition whost :: "(string, unit) host" where
  "whost = \<lparr>net_Listen = (\<lambda>_. None), wkfs_ReadFile = (\<lambda>n f. Inr ''pem''), X509KeyPair = (\<lambda>c k. None), DropPrivileges = (\<lambda>_. None),
     prom_Register = (\<lambda>cs c. if c \<in> set cs then Some (ENew ''duplicate metrics collector registration attempted'') else None),
     h_oauth = wapi, h_github = wgh, h_google = wgo, h_ssh = wssh, h_clk = (\<lambda>_. 50), h_order = (\<lambda>_ _. 0),
     h_ParseDuration = (\<lambda>_. Inr (12 * Hour)), h_sql_open = wsql_open, h_sql_env = wenv, os_OpenLog = (\<lambda>_. None)\<rparr>"

definition wstart :: Config where
  "wstart = wfile\<lparr>cfg_Auth := Some wauth, cfg_Server := Some (wserver_section\<lparr>User := ''www'', UseTLS := True, TLSKey := ''tls.key'', TLSCert := ''tls.crt''\<rparr>)\<rparr>"

lemmas wrun_defs = Run_def privileged_section_def unprivileged_section_def or_fail_def act_bind_def act_ret_def lift_io_def did_def listen_def
  setupTLS_def loadCerts_def read_wkfs_def drop_to_def metrics_Register_def MustRegister_def make_provider_def new_provider_def make_signer_def
  signer_New_def make_store_def store_New_def open_log_def remote_def bind_io_def ret_def whost_def wstart_def wfile_def wserver_section_def
  wauth_def wssh_def new_metrics_def start_process_def github_New_def map_get_def Let_def

lemma wrun:
  obtains sv p' w' g where "Run whost wstart start_process world0 = (Return (Inr sv), p', w')"
    and "github_New wapi wgh wauth = Inr g" and "app_provider (srv_app sv) = github_provider wapi wgh (\<lambda>_. 50) g"
    and "app_certstore (srv_app sv) = anyStorer (\<lambda>_. 50) (\<lambda>_ _. 0) wenv"
  by (simp add: wrun_defs)

lemma wgithub_Valid:
  assumes "github_New wapi wgh wauth = Inr g" and "TokenValid wapi 50 t"
  shows "\<exists>w1. github_Valid wapi wgh (\<lambda>_. 50) g t w = (Return True, w1)"
proof -
  from assms(1) have g: "gh_organization g = ''acme''" "gh_whitelist g = bool_map [''alice'', ''bob'']"
    by (auto simp: github_New_def wauth_def map_get_def Let_def split: if_splits)
  have "not_whitelisted (gh_whitelist g) (github_Username wgh g t) v = (Return False, v\<lparr>calls := Suc (calls v)\<rparr>)" for v
    by (simp add: not_whitelisted_def g github_Username_eq login_at_def wgh_def io_defs)
  with g assms(2) show ?thesis
    by (simp add: github_Valid_def token_Valid_def io_defs github_Username_eq login_at_def) (simp add: wgh_def io_defs)
qed

section \<open>Properties\<close>



text \<open>
  C3: Run drops its privileges before it reads the signing key, opens the store or the log, or serves a request: what it does before that is to listen and to
  read the TLS files, and it never changes the user again. It serves only when every step succeeded, and as the last thing it does.
\<close>

theorem Run_order:
  assumes "cfg_Server conf = Some s" and "User s \<noteq> ''''" and "Run ho conf p w = (res, p', w')"
  shows "\<exists>tr. pr_did p' = pr_did p @ tr \<and>
    (set tr \<subseteq> early s \<or> (\<exists>b a. tr = b @ Dropped (User s) # a \<and> set b \<subseteq> early s \<and> (\<forall>u. Dropped u \<notin> set a))) \<and>
    (case res of
       Return (Inr sv) \<Rightarrow> (\<exists>b. tr = b @ [Serving (srv_listener sv)] \<and> (\<forall>l. Serving l \<notin> set b))
     | _ \<Rightarrow> (\<forall>l. Serving l \<notin> set tr))"
proof -
  have "run_post (or_fail (\<lambda>e. e) (privileged_section ho s) (unprivileged_section ho conf s)) (\<lambda>res tr.
    (set tr \<subseteq> early s \<or> (\<exists>b a. tr = b @ Dropped (User s) # a \<and> set b \<subseteq> early s \<and> (\<forall>u. Dropped u \<notin> set a))) \<and>
    (case res of
       Return (Inr sv) \<Rightarrow> (\<exists>b. tr = b @ [Serving (srv_listener sv)] \<and> (\<forall>l. Serving l \<notin> set b))
     | _ \<Rightarrow> (\<forall>l. Serving l \<notin> set tr)))" (is "run_post _ ?Q")
  proof (rule run_post_fail [OF privileged_post], goal_cases)
    case (1 l t1)
    then obtain b where t1: "t1 = b @ [Dropped (User s)]" and b: "set b \<subseteq> early s" using assms(2) by (auto simp: dropped_to_def)
    then have nb: "Serving l' \<notin> set b" for l' by (auto simp: early_def)
    show ?case
    proof (rule run_post_weaken [OF unprivileged_post], goal_cases)
      case (1 r t2)
      have nd: "Dropped u \<notin> set t2" for u using 1 by (auto simp: late_def split: outcome.splits sum.splits)
      have serving_late: "Serving l' \<notin> set tr" if "set tr \<subseteq> late" for l' tr using that by (auto simp: late_def)
      have "t1 @ t2 = b @ Dropped (User s) # t2" by (simp add: t1)
      with b nd have "\<exists>b a. t1 @ t2 = b @ Dropped (User s) # a \<and> set b \<subseteq> early s \<and> (\<forall>u. Dropped u \<notin> set a)" by blast
      moreover have "case r of Return (Inr sv) \<Rightarrow> (\<exists>b. t1 @ t2 = b @ [Serving (srv_listener sv)] \<and> (\<forall>l. Serving l \<notin> set b))
          | _ \<Rightarrow> (\<forall>l. Serving l \<notin> set (t1 @ t2))"
        using 1 nb serving_late by (fastforce simp: t1 split: outcome.splits sum.splits)
      ultimately show ?case by blast
    qed
  qed (auto simp: early_def)
  moreover have "or_fail (\<lambda>e. e) (privileged_section ho s) (unprivileged_section ho conf s) p w = (res, p', w')"
    using assms(1,3) by (simp add: Run_def)
  ultimately obtain tr where "pr_did p' = pr_did p @ tr" "?Q res tr" by (rule run_postD)
  then show ?thesis by blast
qed

theorem Run_order_witness:
  "\<exists>sv p' w' b a. Run whost wstart start_process world0 = (Return (Inr sv), p', w') \<and>
     pr_did p' = b @ Dropped ''www'' # a \<and> ReadFile ''key'' \<notin> set b \<and> Serving (srv_listener sv) \<in> set a"
proof -
  obtain sv p' w' where run: "Run whost wstart start_process world0 = (Return (Inr sv), p', w')" by (rule wrun)
  define s where "s = wserver_section\<lparr>User := ''www'', UseTLS := True, TLSKey := ''tls.key'', TLSCert := ''tls.crt''\<rparr>"
  have s: "cfg_Server wstart = Some s" "User s = ''www''" "User s \<noteq> ''''" by (simp_all add: wstart_def s_def)
  from Run_order [OF s(1,3) run] obtain tr where "pr_did p' = tr"
    and o: "set tr \<subseteq> early s \<or> (\<exists>b a. tr = b @ Dropped ''www'' # a \<and> set b \<subseteq> early s \<and> (\<forall>u. Dropped u \<notin> set a))"
    and "\<exists>b. tr = b @ [Serving (srv_listener sv)] \<and> (\<forall>l. Serving l \<notin> set b)"
    by (simp add: start_process_def s(2))
  then obtain b where tr: "pr_did p' = tr" "tr = b @ [Serving (srv_listener sv)]" by blast
  have e: "Serving l \<notin> early s" "ReadFile ''key'' \<notin> early s" for l by (simp_all add: early_def s_def)
  with o tr obtain b' a where d: "tr = b' @ Dropped ''www'' # a" "set b' \<subseteq> early s" by auto
  from tr d have "Serving (srv_listener sv) \<in> set (b' @ Dropped ''www'' # a)" by simp
  with d e have "Serving (srv_listener sv) \<in> set a" "ReadFile ''key'' \<notin> set b'" by auto
  with run tr d show ?thesis by blast
qed

end
