(* ===== verification/Cashierd.thy ===== *)
theory Cashierd
  imports Server_Start
begin

text \<open>
  \<^verbatim>\<open>cmd/cashierd/main.go\<close>: the server command, from its configuration to its end. The signal it waits for always comes; the
  answer of stopping the HTTP server within a time is the parameter \<open>http_Shutdown\<close>.
\<close>

section \<open>The command\<close>

definition empty_AWS :: AWS where
  "empty_AWS = \<lparr>Region = '''', AccessKey = '''', SecretKey = ''''\<rparr>"

definition aws_of :: "Config \<Rightarrow> AWS" where
  "aws_of conf = (case cfg_AWS conf of None \<Rightarrow> empty_AWS | Some a \<Rightarrow> a)"

text \<open>\<^verbatim>\<open>time.ParseDuration\<close> gives zero with its error, which is only logged.\<close>

definition gracePeriod :: "('k, 'ca) host \<Rightarrow> Server \<Rightarrow> duration" where
  "gracePeriod ho s = (case h_ParseDuration ho (ShutdownTimeout s) of Inl e \<Rightarrow> 0 | Inr d \<Rightarrow> d)"

definition cashierd_run ::
  "('k, 'ca) host \<Rightarrow> vault_api \<Rightarrow> (duration \<Rightarrow> error option) \<Rightarrow> Config \<Rightarrow> error option run" where
  "cashierd_run ho api http_Shutdown conf =
     (let aws = aws_of conf; conf = conf\<lparr>cfg_AWS := Some aws\<rparr>
      in act_bind (did (S3Registered (Region aws) (AccessKey aws) (SecretKey aws))) (\<lambda>_.
         act_bind (did (VaultRegistered (vaultfs_Register api (cfg_Vault conf)))) (\<lambda>_.
         case cfg_Server conf of
           None \<Rightarrow> lift_outcome Panic
         | Some s \<Rightarrow>
             act_bind (Run ho conf) (\<lambda>r.
               case r of
                 Inl e \<Rightarrow> act_ret (Some (EWrap ''failed to start server: '' e))
               | Inr sv \<Rightarrow>
                   act_bind (did WaitedForSignal) (\<lambda>_.
                   act_bind (Shutdown http_Shutdown sv (gracePeriod ho s)) (\<lambda>err.
                     act_ret (map_option (EWrap ''error when shutting down: '') err)))))))"

text \<open>\<^verbatim>\<open>main\<close> ends with the status 0, or with 1 after \<^verbatim>\<open>log.Fatalln\<close>.\<close>

definition cashierd_main ::
  "('k, 'ca) host \<Rightarrow> config_env \<Rightarrow> (duration \<Rightarrow> error option) \<Rightarrow> bool \<Rightarrow> string \<Rightarrow> int run" where
  "cashierd_main ho env http_Shutdown version cfg =
     (if version then act_ret 0
      else act_bind (lift_io (ReadConfig env cfg)) (\<lambda>r.
        case r of
          Inl e \<Rightarrow> act_ret 1
        | Inr conf \<Rightarrow>
            act_bind (cashierd_run ho (vault_client env) http_Shutdown conf) (\<lambda>err.
              act_ret (if err = None then 0 else 1))))"

section \<open>Lemmas\<close>

lemma Run_serving_last:
  assumes "Run ho conf p w = (Return (Inr sv), p', w')"
  obtains b where "pr_did p' = b @ [Serving (srv_listener sv)]"
proof -
  from assms obtain s l p1 w1 where "unprivileged_section ho conf s l p1 w1 = (Return (Inr sv), p', w')"
    by (auto simp: Run_def lift_outcome_def split: option.splits elim!: or_fail_InrE)
  with run_postD [OF unprivileged_post this] that show thesis by fastforce
qed

lemma cashierd_runE:
  assumes "cashierd_run ho api http_Shutdown conf p w = (Return err, p', w')"
  obtains s p1 e w1 where "Run ho (conf\<lparr>cfg_AWS := Some (aws_of conf)\<rparr>) p1 w = (Return (Inl e), p', w1)" and "err \<noteq> None"
  | s p1 sv p2 w1 where "cfg_Server conf = Some s" and "Run ho (conf\<lparr>cfg_AWS := Some (aws_of conf)\<rparr>) p1 w = (Return (Inr sv), p2, w1)"
    and "pr_did p' = pr_did p2 @ [WaitedForSignal, ClosedLog (srv_logfile sv), StoppedServing (gracePeriod ho s)]"
    and "err = map_option (EWrap ''error when shutting down: '') (http_Shutdown (gracePeriod ho s))"
  using assms unfolding cashierd_run_def Let_def
  by (auto simp: did_def Shutdown_def act_ret_def lift_outcome_def elim!: act_bind_ReturnE split: option.splits sum.splits)

section \<open>Properties\<close>

text \<open>
  C33: the server command ends with status 0 only after a whole life: it read a complete configuration, started the server that the
  configuration describes, served until a signal came, closed the log, and stopped serving within the grace period, which is zero if shutdown_timeout cannot be
  parsed.
\<close>

theorem cashierd_life:
  assumes "cashierd_main ho env http_Shutdown False cfg start_process w = (Return 0, p', w')"
  shows "\<exists>conf s sv b w1. ReadConfig env cfg w = (Return (Inr conf), w1) \<and> cfg_Server conf = Some s \<and>
    configured ho (conf\<lparr>cfg_AWS := Some (aws_of conf)\<rparr>) sv \<and>
    pr_did p' = b @ [Serving (srv_listener sv), WaitedForSignal, ClosedLog (srv_logfile sv), StoppedServing (gracePeriod ho s)] \<and>
    http_Shutdown (gracePeriod ho s) = None \<and>
    (\<forall>e. h_ParseDuration ho (ShutdownTimeout s) = Inl e \<longrightarrow> gracePeriod ho s = 0)"
proof -
  from assms obtain conf w1 where c: "ReadConfig env cfg w = (Return (Inr conf), w1)"
    and r: "cashierd_run ho (vault_client env) http_Shutdown conf start_process w1 = (Return None, p', w')"
    by (auto simp: cashierd_main_def act_ret_def elim!: act_bind_ReturnE split: sum.splits if_splits)
  from r show ?thesis
  proof (cases rule: cashierd_runE)
    case (2 s p1 sv p2 w2)
    obtain b where "pr_did p2 = b @ [Serving (srv_listener sv)]" by (rule Run_serving_last [OF 2(2)])
    with 2 c Run_configured [OF 2(2)] show ?thesis by (auto simp: gracePeriod_def)
  qed simp
qed

definition wconfig_env :: config_env where
  "wconfig_env = \<lparr>read_file = (\<lambda>_. Inr ''text''), hcl_Unmarshal = (\<lambda>_. Inr (wstart\<lparr>cfg_Vault := None\<rparr>)), Getenv = (\<lambda>_. ''''), vault_client = wvault\<rparr>"

theorem cashierd_life_witness:
  "\<exists>p' w' b l lf g. cashierd_main whost wconfig_env (\<lambda>_. None) False ''cashierd.conf'' start_process world0 = (Return 0, p', w') \<and>
     pr_did p' = b @ [Serving l, WaitedForSignal, ClosedLog lf, StoppedServing g]"
proof -
  have "Atoi '''' = None" by code_simp
  then have rc: "ReadConfig wconfig_env ''cashierd.conf'' w = (Return (Inr (wstart\<lparr>cfg_Vault := None\<rparr>)), w)" for w
    by (simp add: ReadConfig_def wconfig_env_def setFromVault_def setFromEnvironment_def verifyConfig_def missing_def wstart_def wfile_def ret_def)
  obtain p' w' where m: "cashierd_main whost wconfig_env (\<lambda>_. None) False ''cashierd.conf'' start_process world0 = (Return 0, p', w')"
    by (simp add: cashierd_main_def rc lift_io_def act_bind_def cashierd_run_def Let_def Shutdown_def did_def)
       (simp add: wrun_defs Shutdown_def)
  from cashierd_life [OF m] m show ?thesis by blast
qed

end
