(* ===== verification/SSH_Client.thy ===== *)
theory SSH_Client
  imports Server Token_Text
begin

text \<open>
  \<^verbatim>\<open>client/keys.go\<close>, \<^verbatim>\<open>client/client.go\<close> and \<^verbatim>\<open>client/config.go\<close>: the library of the command-line client. Key
  generation, the file system, the connection to the CA, the agent and the configuration package are
  parameters, numbered by call like every other service.
\<close>

section \<open>Keys\<close>

datatype privkey = RSAKey string | ECDSAKey string | Ed25519Key string

datatype curve = P256 | P384 | P521

record options =
  opt_keytype :: string
  opt_size :: int

record 'k key_api =
  rsa_GenerateKey :: "nat \<Rightarrow> int \<Rightarrow> error + string"
  ecdsa_GenerateKey :: "nat \<Rightarrow> curve \<Rightarrow> error + string"
  ed25519_GenerateKey :: "nat \<Rightarrow> error + string"
  NewPublicKey :: "privkey \<Rightarrow> error + 'k"
  MarshalPKCS1PrivateKey :: "string \<Rightarrow> string"
  MarshalECPrivateKey :: "string \<Rightarrow> error + string"
  MarshalED25519PrivateKey :: "string \<Rightarrow> string"

definition defaultOptions :: options where
  "defaultOptions = \<lparr>opt_keytype = ''rsa'', opt_size = 0\<rparr>"

definition KeyType :: "string \<Rightarrow> options \<Rightarrow> options" where
  "KeyType keyType c = (if keyType \<noteq> '''' then c\<lparr>opt_keytype := keyType\<rparr> else c)"

definition KeySize :: "int \<Rightarrow> options \<Rightarrow> options" where
  "KeySize sz c = c\<lparr>opt_size := sz\<rparr>"

text \<open>A PEM block is its type and its bytes.\<close>

definition pemBlockForKey :: "'k key_api \<Rightarrow> privkey \<Rightarrow> error + string \<times> string" where
  "pemBlockForKey kapi priv =
     (case priv of
        RSAKey k \<Rightarrow> Inr (''RSA PRIVATE KEY'', MarshalPKCS1PrivateKey kapi k)
      | ECDSAKey k \<Rightarrow>
          (case MarshalECPrivateKey kapi k of
             Inl e \<Rightarrow> Inl e
           | Inr b \<Rightarrow> Inr (''EC PRIVATE KEY'', b))
      | Ed25519Key k \<Rightarrow> Inr (''OPENSSH PRIVATE KEY'', MarshalED25519PrivateKey kapi k))"

definition generateED25519Key :: "'k key_api \<Rightarrow> (error + privkey) io" where
  "generateED25519Key kapi = bind_io (draw (ed25519_GenerateKey kapi)) (\<lambda>r. ret (map_sum (\<lambda>e. e) Ed25519Key r))"

definition generateRSAKey :: "'k key_api \<Rightarrow> int \<Rightarrow> (error + privkey) io" where
  "generateRSAKey kapi sz = bind_io (draw (\<lambda>n. rsa_GenerateKey kapi n sz)) (\<lambda>r. ret (map_sum (\<lambda>e. e) RSAKey r))"

definition generateECDSAKey :: "'k key_api \<Rightarrow> int \<Rightarrow> (error + privkey) io" where
  "generateECDSAKey kapi sz =
     (let gen = (\<lambda>curve. bind_io (draw (\<lambda>n. ecdsa_GenerateKey kapi n curve)) (\<lambda>r. ret (map_sum (\<lambda>e. e) ECDSAKey r)))
      in if sz = 256 then gen P256
         else if sz = 384 then gen P384
         else if sz = 521 then gen P521
         else ret (Inl (ENew (''unsupported ECDSA key size: '' @ show_int sz @ ''. Valid sizes are '' @
                [CHR 0x27] @ ''256'' @ [CHR 0x27] @ '', '' @ [CHR 0x27] @ ''384'' @ [CHR 0x27] @ '', '' @
                [CHR 0x27] @ ''521'' @ [CHR 0x27]))))"

definition GenerateKey :: "'k key_api \<Rightarrow> (options \<Rightarrow> options) list \<Rightarrow> (error + privkey \<times> 'k) io" where
  "GenerateKey kapi opts =
     (let config = fold (\<lambda>f c. f c) opts defaultOptions;
          sized = (\<lambda>d. if opt_size config = 0 then d else opt_size config)
      in bind_io
           (if opt_keytype config = ''rsa'' then generateRSAKey kapi (sized 2048)
            else if opt_keytype config = ''ecdsa'' then generateECDSAKey kapi (sized 256)
            else if opt_keytype config = ''ed25519'' then generateED25519Key kapi
            else generateRSAKey kapi (opt_size config)) (\<lambda>r.
         case r of
           Inl e \<Rightarrow> ret (Inl (EWrap (''unable to generate '' @ Quote (opt_keytype config) @ '' key-pair: '') e))
         | Inr privkey \<Rightarrow>
             (case NewPublicKey kapi privkey of
                Inl e \<Rightarrow> ret (Inl (EWrap ''error parsing public key: '' e))
              | Inr pubkey \<Rightarrow> ret (Inr (privkey, pubkey)))))"

section \<open>Files\<close>

text \<open>
  \<^verbatim>\<open>os.WriteFile\<close>: a new file gets the permissions asked for (the umask of the process may take more away), an
  existing one keeps its own and loses its contents when it is opened. \<open>write_fault\<close> answers whether the file cannot be opened, which leaves it as it was, or the write
  fails after a number of bytes.
\<close>

datatype file_fault = NotOpened error | CutShort error nat

type_synonym files = "string \<rightharpoonup> string \<times> nat"

record client_fs =
  write_fault :: "string \<Rightarrow> file_fault option"
  pem_Encode :: "string \<times> string \<Rightarrow> string"

definition WriteFile :: "client_fs \<Rightarrow> string \<Rightarrow> string \<Rightarrow> nat \<Rightarrow> files \<Rightarrow> error option \<times> files" where
  "WriteFile fs name data perm m =
     (let mode = (case m name of Some (_, p) \<Rightarrow> p | None \<Rightarrow> perm)
      in case write_fault fs name of
           Some (NotOpened e) \<Rightarrow> (Some e, m)
         | Some (CutShort e n) \<Rightarrow> (Some e, m(name \<mapsto> (take n data, mode)))
         | None \<Rightarrow> (None, m(name \<mapsto> (data, mode))))"

text \<open>\<^verbatim>\<open>multierror.Append\<close> skips nil errors, and \<^verbatim>\<open>ErrorOrNil\<close> is nil for none.\<close>

definition multi :: "error option list \<Rightarrow> error option" where
  "multi errs = (let es = [e. Some e \<leftarrow> errs] in if es = [] then None else Some (EMulti es))"

definition id_file :: "string \<Rightarrow> 'k Certificate \<Rightarrow> string" where
  "id_file pfx cert = pfx @ ''/id_'' @ cert_KeyId cert"

definition SavePublicFiles ::
  "('k, 'ca) ssh_api \<Rightarrow> client_fs \<Rightarrow> ('k Certificate \<Rightarrow> string \<times> string) \<Rightarrow> string \<Rightarrow> 'k Certificate \<Rightarrow> 'k \<Rightarrow> files
     \<Rightarrow> error option \<times> files" where
  "SavePublicFiles ssh fs wire pfx cert pub m =
     (if pfx = '''' then (None, m)
      else
        (let pubTxt = MarshalAuthorizedKey ssh pub;
             certPubTxt = fst (wire cert) @ '' '' @ base64_EncodeToString (snd (wire cert));
             name = id_file pfx cert;
             (e1, m) = WriteFile fs (name @ ''.pub'') pubTxt 420 m;
             (e2, m) = WriteFile fs (name @ ''-cert.pub'') certPubTxt 420 m
         in (multi [e1, e2], m)))"

definition SavePrivateFiles ::
  "'k key_api \<Rightarrow> client_fs \<Rightarrow> string \<Rightarrow> 'k Certificate \<Rightarrow> privkey \<Rightarrow> files \<Rightarrow> error option \<times> files" where
  "SavePrivateFiles kapi fs pfx cert key m =
     (if pfx = '''' then (None, m)
      else case pemBlockForKey kapi key of
        Inl e \<Rightarrow> (Some e, m)
      | Inr block \<Rightarrow> WriteFile fs (id_file pfx cert) (pem_Encode fs block) 384 m)"

section \<open>The agent\<close>

record 'k AddedKey =
  ak_PrivateKey :: privkey
  ak_Certificate :: "'k Certificate option"
  ak_Comment :: string
  ak_LifetimeSecs :: "32 word"

text \<open>
  \<open>agent_Add\<close> answers whether the agent takes a key; \<open>to_uint32\<close> is the conversion of a number of seconds as a floating-point
  number to \<^verbatim>\<open>uint32\<close>, which Go leaves open outside its range, and \<open>time_String\<close> the text form of a time.
\<close>

record 'k agent_api =
  agent_Add :: "nat \<Rightarrow> 'k AddedKey \<Rightarrow> error option"
  to_uint32 :: "duration \<Rightarrow> 32 word"
  time_String :: "time \<Rightarrow> string"

text \<open>\<^verbatim>\<open>time.Until\<close> gives the nearest duration that fits into 64 bits.\<close>

definition Until :: "time \<Rightarrow> time \<Rightarrow> duration" where
  "Until t now = max (- (2 ^ 63)) (min (2 ^ 63 - 1) (t - now))"

definition comment_String :: "'k agent_api \<Rightarrow> string \<Rightarrow> time \<Rightarrow> string \<Rightarrow> string" where
  "comment_String ag keyID expiry ca =
     ''[id='' @ keyID @ '' expiry='' @ time_String ag expiry @ '' issuer='' @ ca @ '']''"

definition InstallCert ::
  "'k agent_api \<Rightarrow> (nat \<Rightarrow> time) \<Rightarrow> 'k Certificate \<Rightarrow> privkey \<Rightarrow> string \<Rightarrow> 'k AddedKey list
     \<Rightarrow> world \<Rightarrow> (error option \<times> 'k AddedKey list) outcome \<times> world" where
  "InstallCert ag clk cert key issuer held =
     (let t = time_Unix (int64 (cert_ValidBefore cert))
      in bind_io (Now clk) (\<lambda>now.
         let lifetime = to_uint32 ag (Until t now);
             keycomment = comment_String ag (cert_KeyId cert) t issuer;
             pubcert = \<lparr>ak_PrivateKey = key, ak_Certificate = Some cert, ak_Comment = keycomment, ak_LifetimeSecs = lifetime\<rparr>;
             privkey = \<lparr>ak_PrivateKey = key, ak_Certificate = None, ak_Comment = keycomment, ak_LifetimeSecs = lifetime\<rparr>
         in bind_io (remote (\<lambda>n. agent_Add ag n pubcert)) (\<lambda>err.
              case err of
                Some e \<Rightarrow> ret (Some (EWrap ''unable to add cert to ssh agent: '' e), held)
              | None \<Rightarrow>
                  bind_io (remote (\<lambda>n. agent_Add ag n privkey)) (\<lambda>err.
                    case err of
                      Some e \<Rightarrow> ret (Some (EWrap ''unable to add private key to ssh agent: '' e), held @ [pubcert])
                    | None \<Rightarrow> ret (None, held @ [pubcert, privkey])))))"

section \<open>Requests to the CA\<close>

record ClientConfig =
  cc_CA :: string
  cc_Keytype :: string
  cc_Keysize :: int
  cc_Validity :: string
  cc_ValidateTLSCertificate :: bool
  cc_PublicFilePrefix :: string

text \<open>
  \<open>sign_url\<close> is the address of the CA with its path extended by \<^verbatim>\<open>/sign\<close>; \<open>ca_Post\<close> sends a request with the given
  authorization header, checking the certificate of the CA or not, and answers status, the header \<^verbatim>\<open>X-Need-Reason\<close> and
  the body.
\<close>

record ca_answer =
  ans_StatusCode :: int
  ans_NeedReason :: string
  ans_Body :: string

record ('k, 'ca) client_api =
  cl_ssh :: "('k, 'ca) ssh_api"
  marshal_fault :: "SignRequest \<Rightarrow> error option"
  sign_url :: "string \<Rightarrow> error + string"
  post_fault :: "string \<Rightarrow> error option"
  ca_Post :: "nat \<Rightarrow> bool \<Rightarrow> string \<Rightarrow> string \<Rightarrow> SignRequest \<Rightarrow> error + ca_answer"
  cl_json :: "string \<Rightarrow> error + json"
  prompt :: "nat \<Rightarrow> string"
  cl_ParseDuration :: "string \<Rightarrow> error + duration"
  cl_Version :: string

definition response_field :: "string \<times> json \<Rightarrow> SignResponse \<times> bool \<Rightarrow> SignResponse \<times> bool" where
  "response_field = (\<lambda>(k, v) (q, bad).
     if equal_fold k ''status'' then
       (case decode_string v (resp_Status q) of (x, e) \<Rightarrow> (q\<lparr>resp_Status := x\<rparr>, bad \<or> e))
     else if equal_fold k ''response'' then
       (case decode_string v (resp_Response q) of (x, e) \<Rightarrow> (q\<lparr>resp_Response := x\<rparr>, bad \<or> e))
     else if equal_fold k ''version'' then
       (case decode_string v (resp_Version q) of (x, e) \<Rightarrow> (q\<lparr>resp_Version := x\<rparr>, bad \<or> e))
     else (q, bad))"

definition decode_response :: "('k, 'ca) client_api \<Rightarrow> string \<Rightarrow> error + SignResponse" where
  "decode_response api body =
     (case cl_json api body of
        Inl e \<Rightarrow> Inl e
      | Inr j \<Rightarrow> decode_struct response_field \<lparr>resp_Status = '''', resp_Response = '''', resp_Version = ''''\<rparr> j)"

definition send :: "('k, 'ca) client_api \<Rightarrow> SignRequest \<Rightarrow> string \<Rightarrow> string \<Rightarrow> bool \<Rightarrow> (error + SignResponse) io" where
  "send api sr token ca ValidateTLSCertificate =
     (case marshal_fault api sr of
        Some e \<Rightarrow> ret (Inl (EWrap ''unable to create sign request: '' e))
      | None \<Rightarrow>
          (case sign_url api ca of
             Inl e \<Rightarrow> ret (Inl (EWrap ''unable to parse CA url: '' e))
           | Inr u \<Rightarrow>
               (case post_fault api u of
                  Some e \<Rightarrow> ret (Inl e)
                | None \<Rightarrow>
                    bind_io (remote (\<lambda>n. ca_Post api n (\<not> ValidateTLSCertificate) u (''Bearer '' @ token) sr)) (\<lambda>resp.
                      case resp of
                        Inl e \<Rightarrow> ret (Inl e)
                      | Inr ans \<Rightarrow>
                          if ans_StatusCode ans = 403 \<and> HasPrefix (ans_NeedReason ans) ''required''
                          then ret (Inl ErrNeedsReason)
                          else (case decode_response api (ans_Body ans) of
                                  Inl e \<Rightarrow> ret (Inl (EWrap ''unable to decode server response: '' e))
                                | Inr r \<Rightarrow> ret (Inr r))))))"

definition promptForReason :: "('k, 'ca) client_api \<Rightarrow> string io" where
  "promptForReason api = draw (prompt api)"

text \<open>
  The loop of \<^verbatim>\<open>Sign\<close>: it asks again as long as the CA wants a reason, so \<open>None\<close> is a loop that never ends.
\<close>

partial_function (option) send_loop ::
  "('k, 'ca) client_api \<Rightarrow> string \<Rightarrow> ClientConfig \<Rightarrow> SignRequest \<Rightarrow> world \<Rightarrow> ((error + SignResponse) outcome \<times> world) option" where
  "send_loop api token conf s w =
     (case send api s token (cc_CA conf) (cc_ValidateTLSCertificate conf) w of
        (Return (Inr resp), w') \<Rightarrow> Some (Return (Inr resp), w')
      | (Return (Inl err), w') \<Rightarrow>
          if is_needs_reason err
          then (case promptForReason api w' of
                  (Return message, w'') \<Rightarrow> send_loop api token conf (s\<lparr>req_Message := message\<rparr>) w''
                | (Panic, w'') \<Rightarrow> Some (Panic, w''))
          else Some (Return (Inl (EWrap ''error sending request to CA: '' err)), w')
      | (Panic, w') \<Rightarrow> Some (Panic, w'))"

text \<open>What \<^verbatim>\<open>Sign\<close> makes of the CA's answer.\<close>

definition read_response :: "('k, 'ca) client_api \<Rightarrow> SignResponse \<Rightarrow> error + 'k Certificate" where
  "read_response api resp =
     (if resp_Status resp \<noteq> ''ok'' then Inl (ENew (''bad response from CA: '' @ resp_Response resp))
      else case ParseAuthorizedKey (cl_ssh api) (resp_Response resp) of
        Inl e \<Rightarrow> Inl (EWrap ''unable to parse response: '' e)
      | Inr k \<Rightarrow>
          (case AsCertificate (cl_ssh api) k of
             None \<Rightarrow> Inl (ENew ''did not receive a valid certificate from server'')
           | Some cert \<Rightarrow> Inr cert))"

definition Sign ::
  "('k, 'ca) client_api \<Rightarrow> (nat \<Rightarrow> time) \<Rightarrow> 'k \<Rightarrow> string \<Rightarrow> ClientConfig \<Rightarrow> world
     \<Rightarrow> ((error + 'k Certificate) outcome \<times> world) option" where
  "Sign api clk pub token conf w =
     (case cl_ParseDuration api (cc_Validity conf) of
        Inl e \<Rightarrow> Some (Return (Inl e), w)
      | Inr validity \<Rightarrow>
          (case GetPublicKey (cl_ssh api) pub of
             Panic \<Rightarrow> Some (Panic, w)
           | Return key \<Rightarrow>
               (let s = \<lparr>req_Key = key, req_ValidUntil = Add (clk (ticks w)) validity, req_Message = '''', req_Version = cl_Version api\<rparr>
                in case send_loop api token conf s (w\<lparr>ticks := Suc (ticks w)\<rparr>) of
                     None \<Rightarrow> None
                   | Some (Panic, w') \<Rightarrow> Some (Panic, w')
                   | Some (Return (Inl e), w') \<Rightarrow> Some (Return (Inl e), w')
                   | Some (Return (Inr resp), w') \<Rightarrow> Some (Return (read_response api resp), w'))))"

section \<open>The client's configuration\<close>

text \<open>
  What the code tells \<^verbatim>\<open>viper\<close>: the flags it binds, the default it sets and the file it names. \<open>viper_Unmarshal\<close> makes a
  configuration of that; \<open>file_keys\<close> are the keys of a file.
\<close>

record viper =
  v_flags :: "string list"
  v_defaults :: "(string \<times> bool) list"
  v_file :: "string option"

record viper_api =
  file_exists :: "string \<Rightarrow> bool"
  ReadInConfig :: "string \<Rightarrow> error option"
  viper_Unmarshal :: "viper \<Rightarrow> error + ClientConfig"
  homedir_Expand :: "string \<Rightarrow> error + string"
  file_keys :: "string \<Rightarrow> string list"

definition setDefaults :: viper where
  "setDefaults = \<lparr>v_flags = [''ca'', ''key_type'', ''key_size'', ''validity'', ''key_file_prefix''],
                  v_defaults = [(''validateTLSCertificate'', True)], v_file = None\<rparr>"

definition client_ReadConfig :: "viper_api \<Rightarrow> string \<Rightarrow> error + ClientConfig" where
  "client_ReadConfig vp path =
     (case (if file_exists vp path
            then (case ReadInConfig vp path of Some e \<Rightarrow> Inl e | None \<Rightarrow> Inr (setDefaults\<lparr>v_file := Some path\<rparr>))
            else Inr setDefaults) of
        Inl e \<Rightarrow> Inl e
      | Inr v \<Rightarrow>
          (case viper_Unmarshal vp v of
             Inl e \<Rightarrow> Inl e
           | Inr c \<Rightarrow>
               (case homedir_Expand vp (cc_PublicFilePrefix c) of
                  Inl e \<Rightarrow> Inl e
                | Inr p \<Rightarrow> Inr (c\<lparr>cc_PublicFilePrefix := p\<rparr>))))"

text \<open>
  What the package documents: keys are compared without regard to case, and a switch that no flag, no default and no
  key of the file names stays off.
\<close>

definition names_key :: "viper_api \<Rightarrow> viper \<Rightarrow> string \<Rightarrow> bool" where
  "names_key vp v tag \<longleftrightarrow>
     list_ex (equal_fold tag) (v_flags v) \<or> list_ex (equal_fold tag) (map fst (v_defaults v)) \<or>
     (case v_file v of None \<Rightarrow> False | Some f \<Rightarrow> list_ex (equal_fold tag) (file_keys vp f))"

definition viper_ok :: "viper_api \<Rightarrow> bool" where
  "viper_ok vp \<longleftrightarrow>
     (\<forall>v c. viper_Unmarshal vp v = Inr c \<and> \<not> names_key vp v ''validate_tls_certificate'' \<longrightarrow>
        \<not> cc_ValidateTLSCertificate c)"

section \<open>Lemmas\<close>

lemma send_returns: "\<exists>r w'. send api sr token ca v w = (Return r, w')"
  by (auto simp: send_def io_defs split: option.split sum.split)

lemma send_loop_step:
  "send_loop api token conf s w =
     (case send api s token (cc_CA conf) (cc_ValidateTLSCertificate conf) w of
        (Return (Inr resp), w') \<Rightarrow> Some (Return (Inr resp), w')
      | (Return (Inl err), w') \<Rightarrow>
          if is_needs_reason err
          then send_loop api token conf (s\<lparr>req_Message := prompt api (rands w')\<rparr>) (w'\<lparr>rands := Suc (rands w')\<rparr>)
          else Some (Return (Inl (EWrap ''error sending request to CA: '' err)), w')
      | (Panic, w') \<Rightarrow> Some (Panic, w'))"
  by (subst send_loop.simps) (auto simp: promptForReason_def draw_def split: prod.split outcome.split sum.split)

text \<open>What a request that got an answer was: sent to the address of the CA with the token, and how the answer was read.\<close>

definition answered :: "('k, 'ca) client_api \<Rightarrow> string \<Rightarrow> ClientConfig \<Rightarrow> SignRequest \<Rightarrow> nat \<Rightarrow> ca_answer \<Rightarrow> bool" where
  "answered api token conf sr n ans \<longleftrightarrow> marshal_fault api sr = None \<and>
     (\<exists>u. sign_url api (cc_CA conf) = Inr u \<and>
        ca_Post api n (\<not> cc_ValidateTLSCertificate conf) u (''Bearer '' @ token) sr = Inr ans)"

lemma send_Inr:
  assumes "send api sr token (cc_CA conf) (cc_ValidateTLSCertificate conf) w = (Return (Inr resp), w')"
  shows "\<exists>ans. answered api token conf sr (calls w) ans \<and> decode_response api (ans_Body ans) = Inr resp"
  using assms by (auto simp: send_def answered_def io_defs split: option.splits sum.splits if_splits)

lemma send_loop_response:
  assumes "send_loop api token conf s w = Some (Return (Inr resp), w')"
  shows "\<exists>sr n ans. req_Key sr = req_Key s \<and> req_ValidUntil sr = req_ValidUntil s \<and> req_Version sr = req_Version s \<and>
    answered api token conf sr n ans \<and> decode_response api (ans_Body ans) = Inr resp"
proof -
  let ?Q = "\<lambda>(s :: SignRequest) (y :: (error + SignResponse) outcome \<times> world). \<forall>resp w'. y = (Return (Inr resp), w') \<longrightarrow>
      (\<exists>sr n ans. req_Key sr = req_Key s \<and> req_ValidUntil sr = req_ValidUntil s \<and> req_Version sr = req_Version s \<and>
        answered api token conf sr n ans \<and> decode_response api (ans_Body ans) = Inr resp)"
  have "api = api \<and> token = token \<and> conf = conf \<longrightarrow> ?Q s (Return (Inr resp), w')"
  proof (rule send_loop.raw_induct [where P = "\<lambda>api' token' conf' s w y. api' = api \<and> token' = token \<and> conf' = conf \<longrightarrow> ?Q s y",
        OF _ assms], goal_cases)
    case (1 f api' token' conf' s w y)
    show ?case
    proof (intro impI allI)
      fix resp w'
      assume same: "api' = api \<and> token' = token \<and> conf' = conf" and y: "y = (Return (Inr resp), w')"
      obtain r w1 where snd1: "send api s token (cc_CA conf) (cc_ValidateTLSCertificate conf) w = (Return r, w1)"
        using send_returns by blast
      show "\<exists>sr n ans. req_Key sr = req_Key s \<and> req_ValidUntil sr = req_ValidUntil s \<and> req_Version sr = req_Version s \<and>
          answered api token conf sr n ans \<and> decode_response api (ans_Body ans) = Inr resp"
      proof (cases r)
        case (Inr resp')
        with 1(2) same snd1 y have "resp' = resp" by simp
        with send_Inr snd1 Inr show ?thesis by blast
      next
        case (Inl e)
        let ?s = "s\<lparr>req_Message := prompt api (rands w1)\<rparr>"
        from 1(2) same snd1 y Inl have "f api token conf ?s (w1\<lparr>rands := Suc (rands w1)\<rparr>) = Some y"
          by (auto simp: promptForReason_def draw_def split: if_splits)
        with 1(1) same y show ?thesis by fastforce
      qed
    qed
  qed
  then show ?thesis by blast
qed

text \<open>Whether the CA's answer to a request asks for a reason, and that nothing else is mistaken for it.\<close>

definition asks_reason :: "ca_answer \<Rightarrow> bool" where
  "asks_reason ans \<longleftrightarrow> ans_StatusCode ans = 403 \<and> HasPrefix (ans_NeedReason ans) ''required''"

text \<open>Errors of the connection are never the sentinel, which only this package knows.\<close>

definition plain_errors :: "('k, 'ca) client_api \<Rightarrow> bool" where
  "plain_errors api \<longleftrightarrow>
     (\<forall>sr e. marshal_fault api sr = Some e \<longrightarrow> \<not> is_needs_reason e) \<and>
     (\<forall>ca e. sign_url api ca = Inl e \<longrightarrow> \<not> is_needs_reason e) \<and>
     (\<forall>u e. post_fault api u = Some e \<longrightarrow> \<not> is_needs_reason e) \<and>
     (\<forall>n b u t sr e. ca_Post api n b u t sr = Inl e \<longrightarrow> \<not> is_needs_reason e) \<and>
     (\<forall>body e. decode_response api body = Inl e \<longrightarrow> \<not> is_needs_reason e)"

lemma send_asks:
  assumes "plain_errors api" and "send api sr token (cc_CA conf) (cc_ValidateTLSCertificate conf) w = (Return (Inl e), w')"
    and "is_needs_reason e"
  shows "(\<exists>ans. answered api token conf sr (calls w) ans \<and> asks_reason ans) \<and> rands w' = rands w"
  using assms(2,3) assms(1) [unfolded plain_errors_def]
  by (auto simp: send_def answered_def asks_reason_def io_defs split: option.splits sum.splits if_splits)

lemma send_loop_with_reason:
  assumes "plain_errors api" and "\<And>n sr ans. answered api token conf sr n ans \<Longrightarrow> req_Message sr \<noteq> '''' \<Longrightarrow> \<not> asks_reason ans"
    and "req_Message s \<noteq> ''''"
  shows "\<exists>r. send_loop api token conf s w = Some r"
proof -
  obtain r w' where r: "send api s token (cc_CA conf) (cc_ValidateTLSCertificate conf) w = (Return r, w')"
    using send_returns by blast
  have "\<not> is_needs_reason e" if "r = Inl e" for e
    using send_asks [OF assms(1)] r that assms(2,3) by blast
  then show ?thesis by (subst send_loop_step) (auto simp: r split: sum.split)
qed

lemma send_loop_ends:
  assumes "plain_errors api" and "\<And>n sr ans. answered api token conf sr n ans \<Longrightarrow> req_Message sr \<noteq> '''' \<Longrightarrow> \<not> asks_reason ans"
    and "prompt api (rands w + k) \<noteq> ''''"
  shows "\<exists>r. send_loop api token conf s w = Some r"
  using assms(3)
proof (induction k arbitrary: s w)
  case (0 s w)
  obtain r w' where r: "send api s token (cc_CA conf) (cc_ValidateTLSCertificate conf) w = (Return r, w')"
    using send_returns by blast
  show ?case
  proof (cases "\<exists>e. r = Inl e \<and> is_needs_reason e")
    case True
    then have "rands w' = rands w" using send_asks [OF assms(1)] r by blast
    with 0 have "req_Message (s\<lparr>req_Message := prompt api (rands w')\<rparr>) \<noteq> ''''" by simp
    from send_loop_with_reason [OF assms(1,2) this] True r show ?thesis by (subst send_loop_step) auto
  next
    case False
    with r show ?thesis by (subst send_loop_step) (auto split: sum.split)
  qed
next
  case (Suc k s w)
  obtain r w' where r: "send api s token (cc_CA conf) (cc_ValidateTLSCertificate conf) w = (Return r, w')"
    using send_returns by blast
  show ?case
  proof (cases "\<exists>e. r = Inl e \<and> is_needs_reason e")
    case True
    then have "rands w' = rands w" using send_asks [OF assms(1)] r by blast
    with Suc.prems have "prompt api (rands (w'\<lparr>rands := Suc (rands w')\<rparr>) + k) \<noteq> ''''" by simp
    from Suc.IH [OF this] True r show ?thesis by (subst send_loop_step) auto
  next
    case False
    with r show ?thesis by (subst send_loop_step) (auto split: sum.split)
  qed
qed

lemma send_loop_never:
  assumes "\<And>sr w. \<exists>w'. send api sr token (cc_CA conf) (cc_ValidateTLSCertificate conf) w = (Return (Inl ErrNeedsReason), w')"
  shows "send_loop api token conf s w = None"
proof (rule ccontr)
  assume "send_loop api token conf s w \<noteq> None"
  then obtain y where y: "send_loop api token conf s w = Some y" by auto
  have "\<not> (api = api \<and> token = token \<and> conf = conf)"
  proof (rule send_loop.raw_induct [where P = "\<lambda>api' token' conf' s w y. \<not> (api' = api \<and> token' = token \<and> conf' = conf)", OF _ y], goal_cases)
    case (1 f api' token' conf' s w y)
    show ?case
    proof
      assume same: "api' = api \<and> token' = token \<and> conf' = conf"
      obtain w1 where "send api s token (cc_CA conf) (cc_ValidateTLSCertificate conf) w = (Return (Inl ErrNeedsReason), w1)"
        using assms by blast
      with 1(2) same have "f api token conf (s\<lparr>req_Message := prompt api (rands w1)\<rparr>) (w1\<lparr>rands := Suc (rands w1)\<rparr>) = Some y"
        by (simp add: promptForReason_def draw_def)
      with 1(1) show False by blast
    qed
  qed
  then show False by simp
qed

section \<open>Properties\<close>

definition wclient :: "(string, unit) client_api" where
  "wclient = \<lparr>cl_ssh = wssh\<lparr>AsCertificate := (\<lambda>k. Some \<lparr>cert_Nonce = '''', cert_Key = k, cert_Serial = 0, cert_CertType = UserCert, cert_KeyId = ''key'',
       cert_ValidPrincipals = [''alice''], cert_ValidAfter = 0, cert_ValidBefore = 100, cert_CriticalOptions = [], cert_Extensions = [],
       cert_SignatureKey = None, cert_Signature = None\<rparr>)\<rparr>,
     marshal_fault = (\<lambda>_. None), sign_url = (\<lambda>ca. Inr (ca @ ''/sign'')), post_fault = (\<lambda>_. None),
     ca_Post = (\<lambda>n b u t sr. Inr (if req_Message sr = '''' then \<lparr>ans_StatusCode = 403, ans_NeedReason = ''required'', ans_Body = ''''\<rparr>
        else \<lparr>ans_StatusCode = 200, ans_NeedReason = '''', ans_Body = ''''\<rparr>)),
     cl_json = (\<lambda>_. Inr (JObject [(''status'', JString ''ok''), (''response'', JString ''ssh-cert'')])),
     prompt = (\<lambda>n. if n = 0 then '''' else ''because''), cl_ParseDuration = (\<lambda>_. Inr Hour), cl_Version = ''dev''\<rparr>"

definition wcconf :: ClientConfig where
  "wcconf = \<lparr>cc_CA = ''https://ca'', cc_Keytype = '''', cc_Keysize = 0, cc_Validity = ''1h'', cc_ValidateTLSCertificate = True, cc_PublicFilePrefix = ''''\<rparr>"

definition wcrequest :: SignRequest where
  "wcrequest = \<lparr>req_Key = ''ssh-rsa AAAA'', req_ValidUntil = 100, req_Message = '''', req_Version = ''dev''\<rparr>"

lemma wclient_simps [simp]:
  "marshal_fault wclient = (\<lambda>_. None)" "sign_url wclient = (\<lambda>ca. Inr (ca @ ''/sign''))" "post_fault wclient = (\<lambda>_. None)"
  "ca_Post wclient n b u t sr = Inr (if req_Message sr = '''' then \<lparr>ans_StatusCode = 403, ans_NeedReason = ''required'', ans_Body = ''''\<rparr>
        else \<lparr>ans_StatusCode = 200, ans_NeedReason = '''', ans_Body = ''''\<rparr>)"
  "prompt wclient n = (if n = 0 then '''' else ''because'')" "cl_ParseDuration wclient d = Inr Hour"
  "cl_json wclient doc = Inr (JObject [(''status'', JString ''ok''), (''response'', JString ''ssh-cert'')])"
  "GetPublicKey (cl_ssh wclient) k = Return k"
  by (simp_all add: wclient_def GetPublicKey_def wssh_def)

lemma wclient_decode: "decode_response wclient b = Inr \<lparr>resp_Status = ''ok'', resp_Response = ''ssh-cert'', resp_Version = ''''\<rparr>"
proof -
  have "\<not> equal_fold ''response'' ''status''" by code_simp
  then show ?thesis by (simp add: decode_response_def response_field_def equal_fold_def [of "''status''" "''status''"]
    equal_fold_def [of "''response''" "''response''"])
qed

lemma wclient_send:
  "send wclient sr token ca v w =
     (Return (if req_Message sr = '''' then Inl ErrNeedsReason
              else Inr \<lparr>resp_Status = ''ok'', resp_Response = ''ssh-cert'', resp_Version = ''''\<rparr>), w\<lparr>calls := Suc (calls w)\<rparr>)"
  by (simp add: send_def io_defs wclient_decode HasPrefix_def)

lemma wclient_plain: "plain_errors wclient"
  by (simp add: plain_errors_def wclient_decode)

lemma wclient_asks: "answered wclient token conf sr n ans \<and> req_Message sr \<noteq> '''' \<longrightarrow> \<not> asks_reason ans"
  by (auto simp: answered_def asks_reason_def)

text \<open>
  A certificate that Sign returns was parsed from an ok response of the CA to a request for exactly the given public key, with an expiry of the
  configured validity from now, that was sent to the configured CA with the given token.
\<close>

theorem Sign_certificate:
  assumes "Sign api clk pub token conf w = Some (Return (Inr cert), w')"
  shows "\<exists>validity sr n ans resp k.
      cl_ParseDuration api (cc_Validity conf) = Inr validity \<and>
      GetPublicKey (cl_ssh api) pub = Return (req_Key sr) \<and> req_ValidUntil sr = clk (ticks w) + validity \<and>
      answered api token conf sr n ans \<and> decode_response api (ans_Body ans) = Inr resp \<and>
      resp_Status resp = ''ok'' \<and> ParseAuthorizedKey (cl_ssh api) (resp_Response resp) = Inr k \<and>
      AsCertificate (cl_ssh api) k = Some cert"
proof -
  from assms obtain validity where v: "cl_ParseDuration api (cc_Validity conf) = Inr validity"
    by (auto simp: Sign_def split: sum.splits)
  from assms v obtain key where k: "GetPublicKey (cl_ssh api) pub = Return key"
    by (auto simp: Sign_def split: outcome.splits)
  let ?s = "\<lparr>req_Key = key, req_ValidUntil = Add (clk (ticks w)) validity, req_Message = '''', req_Version = cl_Version api\<rparr>"
  from assms v k obtain resp w1 where l: "send_loop api token conf ?s (w\<lparr>ticks := Suc (ticks w)\<rparr>) = Some (Return (Inr resp), w1)"
    and r: "read_response api resp = Inr cert"
    by (auto simp: Sign_def Let_def split: option.splits prod.splits outcome.splits sum.splits)
  from r obtain pk where "resp_Status resp = ''ok''" "ParseAuthorizedKey (cl_ssh api) (resp_Response resp) = Inr pk"
      "AsCertificate (cl_ssh api) pk = Some cert"
    by (auto simp: read_response_def split: if_splits sum.splits option.splits)
  with send_loop_response [OF l] v k show ?thesis by (fastforce simp: Add_def)
qed

theorem Sign_certificate_witness:
  "\<exists>cert w' sr n ans. Sign wclient (\<lambda>_. 50) ''ssh-rsa AAAA'' ''tok'' wcconf world0 = Some (Return (Inr cert), w') \<and>
     answered wclient ''tok'' wcconf sr n ans \<and> req_Key sr = ''ssh-rsa AAAA''"
proof -
  have "\<exists>w'. send_loop wclient ''tok'' wcconf sr (world0\<lparr>ticks := Suc 0\<rparr>) =
      Some (Return (Inr \<lparr>resp_Status = ''ok'', resp_Response = ''ssh-cert'', resp_Version = ''''\<rparr>), w')" if "req_Message sr = ''''" for sr
    by (subst send_loop_step, simp add: wclient_send that world0_def, subst send_loop_step, simp add: wclient_send,
        subst send_loop_step, simp add: wclient_send)
  from this [of "\<lparr>req_Key = ''ssh-rsa AAAA'', req_ValidUntil = Add 50 Hour, req_Message = '''', req_Version = cl_Version wclient\<rparr>"]
  obtain w' where l: "send_loop wclient ''tok'' wcconf
      \<lparr>req_Key = ''ssh-rsa AAAA'', req_ValidUntil = Add 50 Hour, req_Message = '''', req_Version = cl_Version wclient\<rparr>
      (world0\<lparr>ticks := Suc 0\<rparr>) = Some (Return (Inr \<lparr>resp_Status = ''ok'', resp_Response = ''ssh-cert'', resp_Version = ''''\<rparr>), w')"
    by auto
  obtain cert where "read_response wclient \<lparr>resp_Status = ''ok'', resp_Response = ''ssh-cert'', resp_Version = ''''\<rparr> = Inr cert"
    by (simp add: read_response_def wclient_def wssh_def)
  then have c: "Sign wclient (\<lambda>_. 50) ''ssh-rsa AAAA'' ''tok'' wcconf world0 = Some (Return (Inr cert), w')"
    using l by (simp add: Sign_def Let_def) (simp add: world0_def)
  from Sign_certificate [OF c] c show ?thesis by fastforce
qed

text \<open>
  C32: the loop in which the client asks for a reason ends if the CA never asks again once a reason is given and the user at some prompt
  enters one; a CA that asks whatever the client sends keeps the client in the loop for ever.
\<close>

theorem Sign_loop_ends:
  assumes "plain_errors api"
  shows "((\<forall>n sr ans. answered api token conf sr n ans \<and> req_Message sr \<noteq> '''' \<longrightarrow> \<not> asks_reason ans) \<and> (\<exists>k. prompt api (rands w + k) \<noteq> '''')
      \<longrightarrow> (\<exists>r. send_loop api token conf s w = Some r))
    \<and> ((\<forall>sr. marshal_fault api sr = None) \<and> (\<exists>u. sign_url api (cc_CA conf) = Inr u \<and> post_fault api u = None) \<and>
       (\<forall>n b u t sr. \<exists>ans. ca_Post api n b u t sr = Inr ans \<and> asks_reason ans)
      \<longrightarrow> send_loop api token conf s w = None)"
proof (intro conjI impI)
  assume "(\<forall>n sr ans. answered api token conf sr n ans \<and> req_Message sr \<noteq> '''' \<longrightarrow> \<not> asks_reason ans) \<and> (\<exists>k. prompt api (rands w + k) \<noteq> '''')"
  then show "\<exists>r. send_loop api token conf s w = Some r" using send_loop_ends [OF assms] by blast
next
  assume a: "(\<forall>sr. marshal_fault api sr = None) \<and> (\<exists>u. sign_url api (cc_CA conf) = Inr u \<and> post_fault api u = None) \<and>
       (\<forall>n b u t sr. \<exists>ans. ca_Post api n b u t sr = Inr ans \<and> asks_reason ans)"
  have "\<exists>w'. send api sr token (cc_CA conf) (cc_ValidateTLSCertificate conf) v = (Return (Inl ErrNeedsReason), w')" for sr v
  proof -
    from a obtain u where u: "sign_url api (cc_CA conf) = Inr u" "post_fault api u = None" by blast
    from a obtain ans where "ca_Post api (calls v) (\<not> cc_ValidateTLSCertificate conf) u (''Bearer '' @ token) sr = Inr ans" "asks_reason ans" by blast
    with a u show ?thesis by (simp add: send_def io_defs asks_reason_def)
  qed
  then show "send_loop api token conf s w = None" by (rule send_loop_never)
qed

theorem Sign_loop_ends_witness: "\<exists>r. send_loop wclient ''tok'' wcconf wcrequest world0 = Some r"
proof -
  have "\<exists>k. prompt wclient (rands world0 + k) \<noteq> ''''" by (rule exI [of _ 1]) simp
  with Sign_loop_ends [OF wclient_plain, of "''tok''" wcconf world0 wcrequest] wclient_asks show ?thesis by blast
qed

text \<open>
  A client whose configuration file does not mention validate_tls_certificate does not check the certificate of the CA: the default is set under
  another name, so that the switch stays off and every request is sent with the check disabled.
\<close>

theorem client_skips_tls_check:
  assumes "viper_ok vp" and "client_ReadConfig vp path = Inr c"
    and "\<not> list_ex (equal_fold ''validate_tls_certificate'') (file_keys vp path)"
  shows "\<not> cc_ValidateTLSCertificate c \<and> (answered api token c sr n ans \<longrightarrow>
    (\<exists>u. ca_Post api n True u (''Bearer '' @ token) sr = Inr ans))"
proof -
  have key: "\<not> names_key vp v ''validate_tls_certificate''" if "v = setDefaults \<or> v = setDefaults\<lparr>v_file := Some path\<rparr>" for v
  proof -
    have "\<not> list_ex (equal_fold ''validate_tls_certificate'') [''ca'', ''key_type'', ''key_size'', ''validity'', ''key_file_prefix'', ''validateTLSCertificate'']"
      by code_simp
    with that assms(3) show ?thesis by (auto simp: names_key_def setDefaults_def)
  qed
  define v where "v = (if file_exists vp path then setDefaults\<lparr>v_file := Some path\<rparr> else setDefaults)"
  from assms(2) obtain c0 where c0: "viper_Unmarshal vp v = Inr c0" "cc_ValidateTLSCertificate c = cc_ValidateTLSCertificate c0"
    by (auto simp: client_ReadConfig_def v_def split: if_splits option.splits sum.splits)
  have "\<not> names_key vp v ''validate_tls_certificate''" by (rule key) (simp add: v_def)
  with c0 assms(1) have "\<not> cc_ValidateTLSCertificate c" by (simp add: viper_ok_def)
  then show ?thesis by (auto simp: answered_def)
qed

definition wviper :: viper_api where
  "wviper = \<lparr>file_exists = (\<lambda>_. True), ReadInConfig = (\<lambda>_. None), viper_Unmarshal = (\<lambda>_. Inr (wcconf\<lparr>cc_ValidateTLSCertificate := False\<rparr>)),
             homedir_Expand = Inr, file_keys = (\<lambda>_. [''ca''])\<rparr>"

theorem client_skips_tls_check_witness:
  "\<exists>c. client_ReadConfig wviper ''cashier.conf'' = Inr c \<and> \<not> cc_ValidateTLSCertificate c"
proof -
  have ok: "viper_ok wviper" by (simp add: viper_ok_def wviper_def)
  have "client_ReadConfig wviper ''cashier.conf'' = Inr (wcconf\<lparr>cc_ValidateTLSCertificate := False\<rparr>)"
    by (simp add: client_ReadConfig_def wviper_def wcconf_def)
  moreover have "\<not> equal_fold ''validate_tls_certificate'' ''ca''" by code_simp
  then have "\<not> list_ex (equal_fold ''validate_tls_certificate'') (file_keys wviper ''cashier.conf'')" by (simp add: wviper_def)
  ultimately show ?thesis using client_skips_tls_check [OF ok] by blast
qed

end
