(* ===== verification/Cashier_Main.thy ===== *)
theory Cashier_Main
  imports SSH_Client
begin

text \<open>
  \<^verbatim>\<open>cmd/cashier/main.go\<close> and \<^verbatim>\<open>cmd/cashier/localserver.go\<close>: the command-line client. \<^verbatim>\<open>main\<close>, the goroutine that reads a pasted token
  and the handlers of the local server run at the same time and share two channels and the variable \<^verbatim>\<open>encodedToken\<close>; they are a step
  relation on the state of the process. What happens between two points where they can meet is one step.
\<close>

section \<open>The local server\<close>

definition srvOK :: string where
  "srvOK = ''ok''"

definition srvError :: string where
  "srvError = ''error''"

text \<open>\<open>ls_httpserver\<close> is false for the zero value, whose channels and server are nil.\<close>

record localserver =
  ls_httpserver :: bool
  ls_port :: int
  ls_path :: string
  ls_ca :: string

definition startServer :: "error + int \<Rightarrow> string \<Rightarrow> string \<Rightarrow> localserver" where
  "startServer listening uuid ca =
     (case listening of
        Inl e \<Rightarrow> \<lparr>ls_httpserver = False, ls_port = 0, ls_path = '''', ls_ca = ''''\<rparr>
      | Inr port \<Rightarrow> \<lparr>ls_httpserver = True, ls_port = port, ls_path = ''/'' @ uuid, ls_ca = ca\<rparr>)"

definition localserver_url :: "localserver \<Rightarrow> string" where
  "localserver_url l = show_int (ls_port l) @ ls_path l"

text \<open>
  A request to the local server: its handler has the token in hand, waits for the response, or has answered with the header
  \<^verbatim>\<open>Access-Control-Allow-Origin\<close>, a status and a body.
\<close>

datatype handler_pc = AtToken | AtResponse | Answered string int string

definition allow_origin :: "localserver \<Rightarrow> string" where
  "allow_origin l = TrimSuffix (ls_ca l) ''/''"

definition unauthorized_answer :: "localserver \<Rightarrow> handler_pc" where
  "unauthorized_answer l = Answered (allow_origin l) 401 ''''"

definition answer_of :: "localserver \<Rightarrow> string \<Rightarrow> handler_pc" where
  "answer_of l resp = Answered (allow_origin l) (if resp \<noteq> srvOK then 500 else 200) resp"

fun answered_yet :: "handler_pc \<Rightarrow> bool" where
  "answered_yet (Answered org st bd) = True"
| "answered_yet h = False"

section \<open>The process\<close>

record ('k, 'ca) cashier_env =
  ce_api :: "('k, 'ca) client_api"
  ce_keys :: "'k key_api"
  ce_fs :: client_fs
  ce_agent :: "'k agent_api"
  ce_viper :: viper_api
  ce_clk :: "nat \<Rightarrow> time"
  ce_wire :: "'k Certificate \<Rightarrow> string \<times> string"
  ce_listening :: "error + int"
  ce_uuid :: string
  ce_dial :: "error option"
  ce_stdin :: "string list"

text \<open>
  Where \<^verbatim>\<open>main\<close> is: at the select, behind it, about to respond (and then to end with status 1, or to save the files of a certificate),
  saving, in the deferred \<^verbatim>\<open>srv.stop\<close>, or gone with an exit status.
\<close>

datatype 'k main_pc =
    AtSelect
  | AtDecode
  | AtRespond string "'k Certificate option"
  | AtSave "'k Certificate"
  | AtStop
  | Exited int

record 'k cashier =
  cs_conf :: ClientConfig
  cs_priv :: privkey
  cs_pub :: 'k
  cs_srv :: localserver
  cs_token :: "string list"
  cs_response :: "string list"
  cs_handlers :: "(string \<times> handler_pc) list"
  cs_encodedToken :: string
  cs_cancelled :: bool
  cs_pasted :: bool
  cs_pc :: "'k main_pc"
  cs_agent :: "'k AddedKey list"
  cs_files :: files
  cs_world :: world

text \<open>
  \<^verbatim>\<open>main\<close> up to the select: \<open>Inl\<close> is an exit status. The error of \<^verbatim>\<open>ReadConfig\<close> is only logged, and the nil configuration it comes with is
  dereferenced next.
\<close>

definition main_begin ::
  "('k, 'ca) cashier_env \<Rightarrow> bool \<Rightarrow> string \<Rightarrow> files \<Rightarrow> world \<Rightarrow> (int + 'k cashier) outcome" where
  "main_begin env version cfg fls w =
     (if version then Return (Inl 0)
      else case client_ReadConfig (ce_viper env) cfg of
        Inl e \<Rightarrow> Panic
      | Inr c \<Rightarrow>
          (case GenerateKey (ce_keys env) [KeyType (cc_Keytype c), KeySize (cc_Keysize c)] w of
             (Panic, w) \<Rightarrow> Panic
           | (Return (Inl e), w) \<Rightarrow> Return (Inl 1)
           | (Return (Inr (priv, pub)), w) \<Rightarrow>
               Return (Inr
                 \<lparr>cs_conf = c, cs_priv = priv, cs_pub = pub,
                  cs_srv = startServer (ce_listening env) (ce_uuid env) (cc_CA c),
                  cs_token = [], cs_response = [], cs_handlers = [], cs_encodedToken = '''', cs_cancelled = False, cs_pasted = False,
                  cs_pc = AtSelect, cs_agent = [], cs_files = fls, cs_world = w\<rparr>)))"

text \<open>The address the browser is sent to.\<close>

definition browser_url :: "'k cashier \<Rightarrow> string" where
  "browser_url s = cc_CA (cs_conf s) @ ''?localserver='' @ localserver_url (cs_srv s)"

text \<open>
  From the token to the agent: \<open>None\<close> if the loop of \<^verbatim>\<open>Sign\<close> never ends. \<^verbatim>\<open>log.Fatalln\<close> ends the process with status 1 and runs no
  deferred function, a panic ends it with status 2.
\<close>

definition main_work :: "('k, 'ca) cashier_env \<Rightarrow> 'k cashier \<Rightarrow> 'k cashier option" where
  "main_work env s =
     (case base64_DecodeString (cs_encodedToken s) of
        None \<Rightarrow> Some (s\<lparr>cs_pc := Exited 1\<rparr>)
      | Some token \<Rightarrow>
          (case Sign (ce_api env) (ce_clk env) (cs_pub s) token (cs_conf s) (cs_world s) of
             None \<Rightarrow> None
           | Some (Panic, w) \<Rightarrow> Some (s\<lparr>cs_pc := Exited 2, cs_world := w\<rparr>)
           | Some (Return (Inl e), w) \<Rightarrow> Some (s\<lparr>cs_pc := AtRespond srvError None, cs_world := w\<rparr>)
           | Some (Return (Inr cert), w) \<Rightarrow>
               (case ce_dial env of
                  Some e \<Rightarrow> Some (s\<lparr>cs_pc := AtRespond srvError None, cs_world := w\<rparr>)
                | None \<Rightarrow>
                    (case InstallCert (ce_agent env) (ce_clk env) cert (cs_priv s) (cc_CA (cs_conf s)) (cs_agent s) w of
                       (Panic, w) \<Rightarrow> Some (s\<lparr>cs_pc := Exited 2, cs_world := w\<rparr>)
                     | (Return (Some e, held), w) \<Rightarrow>
                         Some (s\<lparr>cs_pc := AtRespond srvError None, cs_agent := held, cs_world := w\<rparr>)
                     | (Return (None, held), w) \<Rightarrow>
                         Some (s\<lparr>cs_pc := AtRespond srvOK (Some cert), cs_agent := held, cs_world := w\<rparr>)))))"

definition main_save :: "('k, 'ca) cashier_env \<Rightarrow> 'k cashier \<Rightarrow> 'k Certificate \<Rightarrow> 'k cashier" where
  "main_save env s cert =
     (case SavePublicFiles (cl_ssh (ce_api env)) (ce_fs env) (ce_wire env) (cc_PublicFilePrefix (cs_conf s)) cert (cs_pub s) (cs_files s) of
        (Some e, fls) \<Rightarrow> s\<lparr>cs_pc := Exited 1, cs_files := fls\<rparr>
      | (None, fls) \<Rightarrow>
          (case SavePrivateFiles (ce_keys env) (ce_fs env) (cc_PublicFilePrefix (cs_conf s)) cert (cs_priv s) fls of
             (Some e, fls) \<Rightarrow> s\<lparr>cs_pc := Exited 1, cs_files := fls\<rparr>
           | (None, fls) \<Rightarrow> s\<lparr>cs_pc := AtStop, cs_files := fls\<rparr>))"

fun after_respond :: "'k Certificate option \<Rightarrow> 'k main_pc" where
  "after_respond None = Exited 1"
| "after_respond (Some cert) = AtSave cert"

fun still_running :: "'k main_pc \<Rightarrow> bool" where
  "still_running (Exited c) = False"
| "still_running pc = True"

definition set_handler :: "nat \<Rightarrow> handler_pc \<Rightarrow> 'k cashier \<Rightarrow> 'k cashier" where
  "set_handler i h s = s\<lparr>cs_handlers := (cs_handlers s)[i := (fst (cs_handlers s ! i), h)]\<rparr>"

definition all_answered :: "(string \<times> handler_pc) list \<Rightarrow> bool" where
  "all_answered hs \<longleftrightarrow> list_all (\<lambda>(t, h). answered_yet h) hs"

text \<open>
  The steps. Both channels hold one value: a send waits while its channel is full, a receive while it is empty. \<^verbatim>\<open>Shutdown\<close> takes no new
  requests and waits until every handler has answered or its context is cancelled.
\<close>

inductive cstep :: "('k, 'ca) cashier_env \<Rightarrow> 'k cashier \<Rightarrow> 'k cashier \<Rightarrow> bool"
  for env :: "('k, 'ca) cashier_env" where
  request: "\<lbrakk>still_running (cs_pc s); cs_pc s \<noteq> AtStop; ls_httpserver (cs_srv s)\<rbrakk>
     \<Longrightarrow> cstep env s (s\<lparr>cs_handlers := cs_handlers s @ [(tok, AtToken)]\<rparr>)"
| no_token: "\<lbrakk>still_running (cs_pc s); i < length (cs_handlers s); cs_handlers s ! i = ('''', AtToken)\<rbrakk>
     \<Longrightarrow> cstep env s (set_handler i (unauthorized_answer (cs_srv s)) s)"
| send_token: "\<lbrakk>still_running (cs_pc s); i < length (cs_handlers s); cs_handlers s ! i = (tok, AtToken); tok \<noteq> ''''; cs_token s = []\<rbrakk>
     \<Longrightarrow> cstep env s (set_handler i AtResponse (s\<lparr>cs_token := [tok]\<rparr>))"
| get_response: "\<lbrakk>still_running (cs_pc s); i < length (cs_handlers s); snd (cs_handlers s ! i) = AtResponse; cs_response s = [resp]\<rbrakk>
     \<Longrightarrow> cstep env s (set_handler i (answer_of (cs_srv s) resp) (s\<lparr>cs_response := []\<rparr>))"
| paste: "\<lbrakk>still_running (cs_pc s); \<not> cs_pasted s; paste_loop (ce_stdin env) '''' = Some txt\<rbrakk>
     \<Longrightarrow> cstep env s (s\<lparr>cs_pasted := True, cs_encodedToken := txt, cs_cancelled := True\<rparr>)"
| select_token: "\<lbrakk>cs_pc s = AtSelect; cs_token s = [tok]\<rbrakk>
     \<Longrightarrow> cstep env s (s\<lparr>cs_pc := AtDecode, cs_token := [], cs_encodedToken := tok\<rparr>)"
| select_done: "\<lbrakk>cs_pc s = AtSelect; cs_cancelled s\<rbrakk> \<Longrightarrow> cstep env s (s\<lparr>cs_pc := AtDecode\<rparr>)"
| work: "\<lbrakk>cs_pc s = AtDecode; main_work env s = Some s'\<rbrakk> \<Longrightarrow> cstep env s s'"
| respond: "\<lbrakk>cs_pc s = AtRespond val next; ls_httpserver (cs_srv s); cs_response s = []\<rbrakk>
     \<Longrightarrow> cstep env s (s\<lparr>cs_pc := after_respond next, cs_response := [val]\<rparr>)"
| respond_nil: "\<lbrakk>cs_pc s = AtRespond val next; \<not> ls_httpserver (cs_srv s)\<rbrakk>
     \<Longrightarrow> cstep env s (s\<lparr>cs_pc := after_respond next\<rparr>)"
| save: "cs_pc s = AtSave cert \<Longrightarrow> cstep env s (main_save env s cert)"
| stop: "\<lbrakk>cs_pc s = AtStop; \<not> ls_httpserver (cs_srv s) \<or> all_answered (cs_handlers s) \<or> cs_cancelled s\<rbrakk>
     \<Longrightarrow> cstep env s (s\<lparr>cs_pc := Exited 0\<rparr>)"

inductive csteps :: "('k, 'ca) cashier_env \<Rightarrow> 'k cashier \<Rightarrow> 'k cashier \<Rightarrow> bool"
  for env :: "('k, 'ca) cashier_env" where
  here: "csteps env s s"
| onward: "\<lbrakk>csteps env s s'; cstep env s' s''\<rbrakk> \<Longrightarrow> csteps env s s''"

section \<open>The invariant\<close>

lemma filter_list_update:
  assumes "i < length xs"
  shows "length (filter P (xs[i := y])) + (if P (xs ! i) then 1 else 0) = length (filter P xs) + (if P y then 1 else 0)"
  using assms
proof (induction xs arbitrary: i)
  case (Cons x xs)
  then show ?case by (cases i) auto
qed simp

text \<open>The requests that came with a token, those of them that were answered, and those behind their send.\<close>

definition token_requests :: "(string \<times> handler_pc) list \<Rightarrow> nat" where
  "token_requests hs = length (filter (\<lambda>(t, h). t \<noteq> '''') hs)"

definition token_answers :: "(string \<times> handler_pc) list \<Rightarrow> nat" where
  "token_answers hs = length (filter (\<lambda>(t, h). t \<noteq> '''' \<and> answered_yet h) hs)"

definition tokens_sent :: "(string \<times> handler_pc) list \<Rightarrow> nat" where
  "tokens_sent hs = length (filter (\<lambda>(t, h). t \<noteq> '''' \<and> h \<noteq> AtToken) hs)"

text \<open>A text that the user gave: the token of a request to the local server or the text pasted.\<close>

definition from_user :: "('k, 'ca) cashier_env \<Rightarrow> 'k cashier \<Rightarrow> string \<Rightarrow> bool" where
  "from_user env s txt \<longleftrightarrow>
     txt \<noteq> '''' \<and> txt \<in> fst ` set (cs_handlers s) \<or> cs_pasted s \<and> paste_loop (ce_stdin env) '''' = Some txt"

text \<open>
  The certificate came from the CA for a token that the user gave, and it and the private key are in the agent.
\<close>

definition certified :: "('k, 'ca) cashier_env \<Rightarrow> 'k cashier \<Rightarrow> 'k Certificate \<Rightarrow> bool" where
  "certified env s cert \<longleftrightarrow>
     (\<exists>txt token w w'. from_user env s txt \<and> base64_DecodeString txt = Some token \<and>
        Sign (ce_api env) (ce_clk env) (cs_pub s) token (cs_conf s) w = Some (Return (Inr cert), w')) \<and>
     (\<exists>k1 k2. cs_agent s = [k1, k2] \<and> ak_PrivateKey k1 = cs_priv s \<and> ak_Certificate k1 = Some cert \<and>
        ak_PrivateKey k2 = cs_priv s \<and> ak_Certificate k2 = None)"

text \<open>What holds at each point of \<^verbatim>\<open>main\<close>; \<open>n\<close> is the number of responses that were sent.\<close>

definition responses :: "'k cashier \<Rightarrow> nat" where
  "responses s = length (cs_response s) + token_answers (cs_handlers s)"

fun pc_inv :: "('k, 'ca) cashier_env \<Rightarrow> 'k cashier \<Rightarrow> 'k main_pc \<Rightarrow> bool" where
  "pc_inv env s AtSelect = (cs_agent s = [] \<and> responses s = 0 \<and> (cs_pasted s \<longrightarrow> from_user env s (cs_encodedToken s)))"
| "pc_inv env s AtDecode = (cs_agent s = [] \<and> responses s = 0 \<and> from_user env s (cs_encodedToken s))"
| "pc_inv env s (AtRespond val next) =
     (responses s = 0 \<and> (case next of None \<Rightarrow> val = srvError | Some cert \<Rightarrow> val = srvOK \<and> certified env s cert))"
| "pc_inv env s (AtSave cert) = (certified env s cert \<and> (ls_httpserver (cs_srv s) \<longrightarrow> responses s = 1))"
| "pc_inv env s AtStop = ((\<exists>cert. certified env s cert) \<and> (ls_httpserver (cs_srv s) \<longrightarrow> responses s = 1))"
| "pc_inv env s (Exited c) = (c = 0 \<longrightarrow> (\<exists>cert. certified env s cert))"

definition told_ok :: "'k cashier \<Rightarrow> bool" where
  "told_ok s \<longleftrightarrow> srvOK \<in> set (cs_response s) \<or> (\<exists>t org bd. (t, Answered org 200 bd) \<in> set (cs_handlers s))"

definition cashier_inv :: "('k, 'ca) cashier_env \<Rightarrow> 'k cashier \<Rightarrow> bool" where
  "cashier_inv env s \<longleftrightarrow>
     pc_inv env s (cs_pc s) \<and>
     length (cs_token s) \<le> 1 \<and> length (cs_response s) \<le> 1 \<and>
     (\<forall>t \<in> set (cs_token s). t \<noteq> '''' \<and> t \<in> fst ` set (cs_handlers s)) \<and>
     length (cs_token s) \<le> tokens_sent (cs_handlers s) \<and>
     (\<forall>t h. (t, h) \<in> set (cs_handlers s) \<longrightarrow> h = AtResponse \<longrightarrow> t \<noteq> '''') \<and>
     (cs_cancelled s \<longleftrightarrow> cs_pasted s) \<and>
     (cs_pasted s \<longrightarrow> (\<exists>txt. paste_loop (ce_stdin env) '''' = Some txt)) \<and>
     (told_ok s \<longrightarrow> (\<exists>cert. certified env s cert))"

section \<open>Every step keeps the invariant\<close>

lemma set_handler_fields [simp]:
  "cs_conf (set_handler i h s) = cs_conf s" "cs_priv (set_handler i h s) = cs_priv s" "cs_pub (set_handler i h s) = cs_pub s"
  "cs_srv (set_handler i h s) = cs_srv s" "cs_token (set_handler i h s) = cs_token s" "cs_response (set_handler i h s) = cs_response s"
  "cs_encodedToken (set_handler i h s) = cs_encodedToken s" "cs_cancelled (set_handler i h s) = cs_cancelled s"
  "cs_pasted (set_handler i h s) = cs_pasted s" "cs_pc (set_handler i h s) = cs_pc s" "cs_agent (set_handler i h s) = cs_agent s"
  "cs_files (set_handler i h s) = cs_files s" "cs_world (set_handler i h s) = cs_world s"
  "cs_handlers (set_handler i h s) = (cs_handlers s)[i := (fst (cs_handlers s ! i), h)]"
  by (simp_all add: set_handler_def)

lemma fst_set_handler: "i < length hs \<Longrightarrow> fst ` set (hs[i := (fst (hs ! i), h)]) = fst ` set hs"
proof -
  assume "i < length hs"
  then have "map fst (hs[i := (fst (hs ! i), h)]) = map fst hs" by (simp add: map_update list_update_same_conv)
  then show ?thesis by (metis list.set_map)
qed

lemma from_user_mono:
  assumes "from_user env s txt" and "fst ` set (cs_handlers s) \<subseteq> fst ` set (cs_handlers s')" and "cs_pasted s \<longrightarrow> cs_pasted s'"
  shows "from_user env s' txt"
  using assms by (auto simp: from_user_def)

lemma certified_mono:
  assumes "certified env s cert" and "fst ` set (cs_handlers s) \<subseteq> fst ` set (cs_handlers s')" and "cs_pasted s \<longrightarrow> cs_pasted s'"
    and "cs_pub s' = cs_pub s" and "cs_conf s' = cs_conf s" and "cs_priv s' = cs_priv s" and "cs_agent s' = cs_agent s"
  shows "certified env s' cert"
  using assms(1,4-7) from_user_mono [OF _ assms(2,3)] unfolding certified_def by metis

lemma pc_inv_mono:
  assumes "pc_inv env s pc" and "fst ` set (cs_handlers s) \<subseteq> fst ` set (cs_handlers s')" and "cs_pasted s' = cs_pasted s"
    and "cs_pub s' = cs_pub s" and "cs_conf s' = cs_conf s" and "cs_priv s' = cs_priv s" and "cs_agent s' = cs_agent s"
    and "cs_srv s' = cs_srv s" and "cs_encodedToken s' = cs_encodedToken s" and "responses s' = responses s"
  shows "pc_inv env s' pc"
proof -
  have c: "certified env s cert \<Longrightarrow> certified env s' cert" for cert using certified_mono [OF _ assms(2) _ assms(4-7)] assms(3) by blast
  have f: "from_user env s t \<Longrightarrow> from_user env s' t" for t using from_user_mono [OF _ assms(2)] assms(3) by blast
  show ?thesis using assms(1,3,7-10) c f by (cases pc) (auto split: option.splits)
qed

lemma cashier_invD:
  assumes "cashier_inv env s"
  shows "pc_inv env s (cs_pc s)" and "length (cs_token s) \<le> 1" and "length (cs_response s) \<le> 1"
    and "\<And>t. t \<in> set (cs_token s) \<Longrightarrow> t \<noteq> '''' \<and> t \<in> fst ` set (cs_handlers s)"
    and "length (cs_token s) \<le> tokens_sent (cs_handlers s)"
    and "\<And>t. (t, AtResponse) \<in> set (cs_handlers s) \<Longrightarrow> t \<noteq> ''''"
    and "cs_cancelled s \<longleftrightarrow> cs_pasted s" and "cs_pasted s \<Longrightarrow> \<exists>txt. paste_loop (ce_stdin env) '''' = Some txt"
    and "told_ok s \<Longrightarrow> \<exists>cert. certified env s cert"
  using assms unfolding cashier_inv_def by blast+

lemma handler_counts:
  assumes "i < length hs"
  shows "token_answers (hs[i := (fst (hs ! i), h)]) + (if fst (hs ! i) \<noteq> '''' \<and> answered_yet (snd (hs ! i)) then 1 else 0)
      = token_answers hs + (if fst (hs ! i) \<noteq> '''' \<and> answered_yet h then 1 else 0)"
    and "tokens_sent (hs[i := (fst (hs ! i), h)]) + (if fst (hs ! i) \<noteq> '''' \<and> snd (hs ! i) \<noteq> AtToken then 1 else 0)
      = tokens_sent hs + (if fst (hs ! i) \<noteq> '''' \<and> h \<noteq> AtToken then 1 else 0)"
    and "token_requests (hs[i := (fst (hs ! i), h)]) = token_requests hs"
  using filter_list_update [OF assms, of "\<lambda>(t, h). t \<noteq> '''' \<and> answered_yet h" "(fst (hs ! i), h)"]
    filter_list_update [OF assms, of "\<lambda>(t, h). t \<noteq> '''' \<and> h \<noteq> AtToken" "(fst (hs ! i), h)"]
    filter_list_update [OF assms, of "\<lambda>(t, h). t \<noteq> ''''" "(fst (hs ! i), h)"]
  unfolding token_answers_def tokens_sent_def token_requests_def by (simp_all add: case_prod_unfold)

lemma in_set_handler:
  assumes "(t, h') \<in> set (hs[i := (fst (hs ! i), h)])" and "i < length hs"
  shows "(t, h') \<in> set hs \<or> t = fst (hs ! i) \<and> h' = h"
  using assms set_update_subset_insert [of hs i "(fst (hs ! i), h)"] by auto

lemma answer_of_pc [simp]: "answered_yet (answer_of l resp)" "answer_of l resp \<noteq> AtToken" "answer_of l resp \<noteq> AtResponse"
  by (simp_all add: answer_of_def)

lemma step_request:
  assumes "cashier_inv env s"
  shows "cashier_inv env (s\<lparr>cs_handlers := cs_handlers s @ [(tok, AtToken)]\<rparr>)" (is "cashier_inv env ?s")
proof -
  note inv = cashier_invD [OF assms]
  have c: "certified env s cert \<Longrightarrow> certified env ?s cert" for cert by (rule certified_mono) auto
  have p: "pc_inv env ?s (cs_pc s)"
    by (rule pc_inv_mono [OF inv(1)]) (auto simp: responses_def token_answers_def)
  have o: "told_ok ?s \<longleftrightarrow> told_ok s" by (auto simp: told_ok_def)
  then have o: "told_ok ?s \<longrightarrow> (\<exists>cert. certified env ?s cert)" using inv(9) c by blast
  show ?thesis using p o inv(2-8) unfolding cashier_inv_def by (auto simp: tokens_sent_def)
qed

lemma step_no_token:
  assumes "cashier_inv env s" and i: "i < length (cs_handlers s)" and h: "cs_handlers s ! i = ('''', AtToken)"
  shows "cashier_inv env (set_handler i (unauthorized_answer (cs_srv s)) s)" (is "cashier_inv env ?s")
proof -
  note inv = cashier_invD [OF assms(1)]
  have f: "fst ` set (cs_handlers ?s) = fst ` set (cs_handlers s)" by (simp add: fst_set_handler [OF i])
  have c: "certified env s cert \<Longrightarrow> certified env ?s cert" for cert by (rule certified_mono) (simp_all add: fst_set_handler [OF i])
  have n: "token_answers (cs_handlers ?s) = token_answers (cs_handlers s)" "tokens_sent (cs_handlers ?s) = tokens_sent (cs_handlers s)"
    using handler_counts [OF i] h by simp_all
  then have p: "pc_inv env ?s (cs_pc s)" by (intro pc_inv_mono [OF inv(1)]) (simp_all add: fst_set_handler [OF i] responses_def)
  have o: "told_ok ?s \<longrightarrow> told_ok s" using in_set_handler [OF _ i] by (fastforce simp: told_ok_def unauthorized_answer_def)
  then have o: "told_ok ?s \<longrightarrow> (\<exists>cert. certified env ?s cert)" using inv(9) c by blast
  moreover have "t \<noteq> ''''" if "(t, AtResponse) \<in> set (cs_handlers ?s)" for t
    using in_set_handler [OF _ i] that inv(6) by (fastforce simp: unauthorized_answer_def)
  ultimately show ?thesis using p o inv(2-8) f n unfolding cashier_inv_def by auto
qed

lemma step_send_token:
  assumes "cashier_inv env s" and i: "i < length (cs_handlers s)" and h: "cs_handlers s ! i = (tok, AtToken)" "tok \<noteq> ''''"
    and e: "cs_token s = []"
  shows "cashier_inv env (set_handler i AtResponse (s\<lparr>cs_token := [tok]\<rparr>))" (is "cashier_inv env ?s")
proof -
  note inv = cashier_invD [OF assms(1)]
  have hs: "cs_handlers ?s = (cs_handlers s)[i := (fst (cs_handlers s ! i), AtResponse)]" by simp
  have f: "fst ` set (cs_handlers ?s) = fst ` set (cs_handlers s)" by (simp add: fst_set_handler [OF i])
  have c: "certified env s cert \<Longrightarrow> certified env ?s cert" for cert by (rule certified_mono) (simp_all add: fst_set_handler [OF i])
  have n: "token_answers (cs_handlers ?s) = token_answers (cs_handlers s)" "tokens_sent (cs_handlers ?s) = Suc (tokens_sent (cs_handlers s))"
    using handler_counts [OF i] h by simp_all
  then have p: "pc_inv env ?s (cs_pc s)" by (intro pc_inv_mono [OF inv(1)]) (simp_all add: fst_set_handler [OF i] responses_def)
  have o: "told_ok ?s \<longrightarrow> told_ok s" using in_set_handler [OF _ i] by (fastforce simp: told_ok_def)
  then have o: "told_ok ?s \<longrightarrow> (\<exists>cert. certified env ?s cert)" using inv(9) c by blast
  moreover have "t \<noteq> ''''" if "(t, AtResponse) \<in> set (cs_handlers ?s)" for t
    using in_set_handler [OF _ i] that inv(6) h by fastforce
  moreover have "tok \<in> fst ` set (cs_handlers s)" using i h by (metis fst_conv image_eqI nth_mem)
  ultimately show ?thesis using p o inv(2-8) f n h e unfolding cashier_inv_def by auto
qed

lemma step_get_response:
  assumes "cashier_inv env s" and i: "i < length (cs_handlers s)" and h: "snd (cs_handlers s ! i) = AtResponse"
    and e: "cs_response s = [resp]"
  shows "cashier_inv env (set_handler i (answer_of (cs_srv s) resp) (s\<lparr>cs_response := []\<rparr>))" (is "cashier_inv env ?s")
proof -
  note inv = cashier_invD [OF assms(1)]
  have f: "fst ` set (cs_handlers ?s) = fst ` set (cs_handlers s)" by (simp add: fst_set_handler [OF i])
  have c: "certified env s cert \<Longrightarrow> certified env ?s cert" for cert by (rule certified_mono) (simp_all add: fst_set_handler [OF i])
  have t: "fst (cs_handlers s ! i) \<noteq> ''''" using inv(6) i h by (metis nth_mem prod.collapse)
  then have n: "token_answers (cs_handlers ?s) = Suc (token_answers (cs_handlers s))" "tokens_sent (cs_handlers ?s) = tokens_sent (cs_handlers s)"
    using handler_counts [OF i, of "answer_of (cs_srv s) resp"] h by simp_all
  then have p: "pc_inv env ?s (cs_pc s)" by (intro pc_inv_mono [OF inv(1)]) (simp_all add: fst_set_handler [OF i] e responses_def)
  have o: "told_ok ?s \<longrightarrow> told_ok s"
    using in_set_handler [OF _ i] e by (fastforce simp: told_ok_def answer_of_def split: if_splits)
  then have o: "told_ok ?s \<longrightarrow> (\<exists>cert. certified env ?s cert)" using inv(9) c by blast
  moreover have "t \<noteq> ''''" if "(t, AtResponse) \<in> set (cs_handlers ?s)" for t
    using in_set_handler [OF _ i] that inv(6) by (fastforce simp: answer_of_def)
  ultimately show ?thesis using p o inv(2-8) f n unfolding cashier_inv_def by auto
qed

lemma step_paste:
  assumes "cashier_inv env s" and p: "paste_loop (ce_stdin env) '''' = Some txt"
  shows "cashier_inv env (s\<lparr>cs_pasted := True, cs_encodedToken := txt, cs_cancelled := True\<rparr>)" (is "cashier_inv env ?s")
proof -
  note inv = cashier_invD [OF assms(1)]
  have c: "certified env s cert \<Longrightarrow> certified env ?s cert" for cert by (rule certified_mono) simp_all
  have "from_user env ?s txt" using p by (simp add: from_user_def)
  then have "pc_inv env ?s (cs_pc s)" using inv(1) c
    by (cases "cs_pc s") (auto simp: responses_def split: option.splits)
  moreover have "told_ok ?s \<longleftrightarrow> told_ok s" by (simp add: told_ok_def)
  ultimately show ?thesis using inv c p unfolding cashier_inv_def by auto
qed

lemma step_select_token:
  assumes "cashier_inv env s" and "cs_pc s = AtSelect" and t: "cs_token s = [tok]"
  shows "cashier_inv env (s\<lparr>cs_pc := AtDecode, cs_token := [], cs_encodedToken := tok\<rparr>)" (is "cashier_inv env ?s")
proof -
  note inv = cashier_invD [OF assms(1)]
  have c: "certified env s cert \<Longrightarrow> certified env ?s cert" for cert by (rule certified_mono) simp_all
  have "from_user env ?s tok" using inv(4) t by (simp add: from_user_def)
  then have "pc_inv env ?s AtDecode" using inv(1) assms(2) by (simp add: responses_def)
  moreover have "told_ok ?s \<longleftrightarrow> told_ok s" by (simp add: told_ok_def)
  ultimately show ?thesis using inv c unfolding cashier_inv_def by auto
qed

text \<open>A step of \<^verbatim>\<open>main\<close> that leaves the channels and the handlers alone needs the invariant of its new place only.\<close>

lemma step_main:
  assumes "cashier_inv env s" and "pc_inv env s' (cs_pc s')" and "cs_token s' = cs_token s" and "cs_handlers s' = cs_handlers s"
    and "cs_response s' = cs_response s" and "cs_cancelled s' = cs_cancelled s" and "cs_pasted s' = cs_pasted s"
    and "told_ok s' \<longrightarrow> (\<exists>cert. certified env s' cert)"
  shows "cashier_inv env s'"
  using cashier_invD [OF assms(1)] assms(2-8) unfolding cashier_inv_def by simp

text \<open>An agent that had no keys holds the certificate with its key and the key alone once \<^verbatim>\<open>InstallCert\<close> returns no error.\<close>

lemma InstallCert_holds:
  assumes "InstallCert ag clk cert key issuer [] w = (Return (None, held), w')"
  shows "\<exists>k1 k2. held = [k1, k2] \<and> ak_PrivateKey k1 = key \<and> ak_Certificate k1 = Some cert \<and>
    ak_PrivateKey k2 = key \<and> ak_Certificate k2 = None"
  using assms by (auto simp: InstallCert_def Let_def bind_io_def ret_def split: prod.splits outcome.splits option.splits)

lemma main_workE:
  assumes "main_work env s = Some s'"
  obtains (exited) c w where "s' = s\<lparr>cs_pc := Exited c, cs_world := w\<rparr>" "c \<noteq> 0"
  | (failed) held w where "s' = s\<lparr>cs_pc := AtRespond srvError None, cs_agent := held, cs_world := w\<rparr>"
  | (installed) token cert held w w1 w2 where "s' = s\<lparr>cs_pc := AtRespond srvOK (Some cert), cs_agent := held, cs_world := w\<rparr>"
      "base64_DecodeString (cs_encodedToken s) = Some token"
      "Sign (ce_api env) (ce_clk env) (cs_pub s) token (cs_conf s) (cs_world s) = Some (Return (Inr cert), w1)"
      "InstallCert (ce_agent env) (ce_clk env) cert (cs_priv s) (cc_CA (cs_conf s)) (cs_agent s) w1 = (Return (None, held), w2)"
proof (cases "base64_DecodeString (cs_encodedToken s)")
  case None
  with assms exited [where c = 1 and w = "cs_world s"] show thesis by (cases s) (auto simp: main_work_def)
next
  case tok: (Some token)
  show thesis
  proof (cases "Sign (ce_api env) (ce_clk env) (cs_pub s) token (cs_conf s) (cs_world s)")
    case None
    with assms tok show thesis by (simp add: main_work_def)
  next
    case (Some r)
    obtain o1 w1 where r: "r = (o1, w1)" by (cases r)
    note defs = main_work_def tok Some r
    show thesis
    proof (cases o1)
      case Panic
      with assms exited [where c = 2 and w = w1] show thesis by (simp add: defs)
    next
      case ret: (Return x)
      show thesis
      proof (cases x)
        case (Inl e)
        with assms ret failed [where held = "cs_agent s" and w = w1] show thesis by (simp add: defs)
      next
        case (Inr cert)
        with assms ret tok Some r failed [where held = "cs_agent s" and w = w1] exited [where c = 2] failed installed show thesis
          by (auto simp: main_work_def split: option.splits prod.splits outcome.splits)
      qed
    qed
  qed
qed

lemma step_work:
  assumes "cashier_inv env s" and pc: "cs_pc s = AtDecode" and "main_work env s = Some s'"
  shows "cashier_inv env s'"
proof -
  note inv = cashier_invD [OF assms(1)]
  have at: "cs_agent s = []" "responses s = 0" "from_user env s (cs_encodedToken s)" using inv(1) pc by simp_all
  have told: "\<not> told_ok s"
    using inv(9) at(1) by (auto simp: certified_def)
  from assms(3) show ?thesis
  proof (cases rule: main_workE)
    case (exited c w)
    with told show ?thesis by (intro step_main [OF assms(1)]) (simp_all add: told_ok_def)
  next
    case (failed held w)
    with told at show ?thesis by (intro step_main [OF assms(1)]) (simp_all add: told_ok_def responses_def)
  next
    case (installed token cert held w w1 w2)
    have "certified env s' cert"
      unfolding certified_def
    proof
      show "\<exists>txt token w w'. from_user env s' txt \<and> base64_DecodeString txt = Some token \<and>
          Sign (ce_api env) (ce_clk env) (cs_pub s') token (cs_conf s') w = Some (Return (Inr cert), w')"
        using installed(1-3) from_user_mono [OF at(3)] by (intro exI [of _ "cs_encodedToken s"] exI [of _ token]) auto
      show "\<exists>k1 k2. cs_agent s' = [k1, k2] \<and> ak_PrivateKey k1 = cs_priv s' \<and> ak_Certificate k1 = Some cert \<and>
          ak_PrivateKey k2 = cs_priv s' \<and> ak_Certificate k2 = None"
        using InstallCert_holds installed(1,4) at(1) by fastforce
    qed
    with told at installed(1) show ?thesis by (intro step_main [OF assms(1)]) (simp_all add: told_ok_def responses_def)
  qed
qed

lemma certified_main:
  assumes "certified env s cert" and "cs_handlers s' = cs_handlers s" and "cs_pasted s' = cs_pasted s"
    and "cs_pub s' = cs_pub s" and "cs_conf s' = cs_conf s" and "cs_priv s' = cs_priv s" and "cs_agent s' = cs_agent s"
  shows "certified env s' cert"
  by (rule certified_mono [OF assms(1)]) (simp_all add: assms)

lemma step_respond:
  assumes "cashier_inv env s" and pc: "cs_pc s = AtRespond val next" and "cs_response s = []"
  shows "cashier_inv env (s\<lparr>cs_pc := after_respond next, cs_response := [val]\<rparr>)" (is "cashier_inv env ?s")
proof -
  note inv = cashier_invD [OF assms(1)]
  have c: "certified env s cert \<Longrightarrow> certified env ?s cert" for cert by (rule certified_main) simp_all
  have r: "responses ?s = 1" using inv(1) pc assms(3) by (simp add: responses_def)
  have p: "pc_inv env ?s (cs_pc ?s)" using inv(1) pc c r by (cases "next") auto
  have "told_ok ?s \<longrightarrow> told_ok s \<or> (\<exists>cert. next = Some cert)"
    using inv(1) pc by (cases "next") (auto simp: told_ok_def srvOK_def srvError_def)
  moreover have "certified env s cert" if "next = Some cert" for cert using inv(1) pc that by simp
  ultimately have o: "told_ok ?s \<longrightarrow> (\<exists>cert. certified env ?s cert)" using inv(9) c by blast
  show ?thesis using p o inv(2-8) unfolding cashier_inv_def by simp
qed

text \<open>What \<^verbatim>\<open>main_save\<close> changes: the files, and where \<^verbatim>\<open>main\<close> is.\<close>

lemma main_save_cases:
  "main_save env s cert = s\<lparr>cs_pc := Exited 1, cs_files := cs_files (main_save env s cert)\<rparr> \<or>
   main_save env s cert = s\<lparr>cs_pc := AtStop, cs_files := cs_files (main_save env s cert)\<rparr>"
  by (auto simp: main_save_def split: prod.splits option.splits)

lemma step_move:
  assumes "cashier_inv env s" and "s' = s\<lparr>cs_pc := pc, cs_files := fls\<rparr>" and "pc_inv env s pc"
  shows "cashier_inv env s'"
proof -
  have c: "certified env s cert \<Longrightarrow> certified env s' cert" for cert by (rule certified_main) (simp_all add: assms(2))
  have "pc_inv env s' pc" by (rule pc_inv_mono [OF assms(3)]) (simp_all add: assms(2) responses_def)
  moreover have "told_ok s' \<longleftrightarrow> told_ok s" by (simp add: assms(2) told_ok_def)
  ultimately show ?thesis using cashier_invD(9) [OF assms(1)] c by (intro step_main [OF assms(1)]) (auto simp: assms(2))
qed

lemma step_move_pc:
  assumes "cashier_inv env s" and "pc_inv env s pc"
  shows "cashier_inv env (s\<lparr>cs_pc := pc\<rparr>)"
  by (rule step_move [where fls = "cs_files s", OF assms(1) _ assms(2)]) simp

lemma cashier_inv_step:
  assumes "cstep env s s'" and "cashier_inv env s"
  shows "cashier_inv env s'"
  using assms(1)
proof cases
  case (request tok)
  then show ?thesis using step_request [OF assms(2)] by simp
next
  case (no_token i)
  then show ?thesis using step_no_token [OF assms(2)] by simp
next
  case (send_token i tok)
  then show ?thesis using step_send_token [OF assms(2)] by simp
next
  case (get_response i resp)
  then show ?thesis using step_get_response [OF assms(2)] by simp
next
  case (paste tx)
  then show ?thesis using step_paste [OF assms(2)] by simp
next
  case (select_token tok)
  then show ?thesis using step_select_token [OF assms(2)] by simp
next
  case select_done
  then show ?thesis using step_move_pc [OF assms(2)] cashier_invD(1,7) [OF assms(2)] by simp
next
  case work
  then show ?thesis using step_work [OF assms(2)] by simp
next
  case (respond val "next")
  then show ?thesis using step_respond [OF assms(2)] by simp
next
  case (respond_nil val "next")
  then show ?thesis using step_move_pc [OF assms(2), of "after_respond next"] cashier_invD(1) [OF assms(2)] by (cases "next") auto
next
  case (save cert)
  then have "pc_inv env s (Exited 1)" "pc_inv env s AtStop" using cashier_invD(1) [OF assms(2)] by auto
  then show ?thesis using main_save_cases [of env s cert] step_move [OF assms(2)] save(1) by metis
next
  case stop
  then show ?thesis using step_move_pc [OF assms(2)] cashier_invD(1) [OF assms(2)] by simp
qed

definition reachable :: "('k, 'ca) cashier_env \<Rightarrow> string \<Rightarrow> files \<Rightarrow> world \<Rightarrow> 'k cashier \<Rightarrow> bool" where
  "reachable env cfg fls w s \<longleftrightarrow> (\<exists>s0. main_begin env False cfg fls w = Return (Inr s0) \<and> csteps env s0 s)"

lemma main_begin_inv:
  assumes "main_begin env version cfg fls w = Return (Inr s)"
  shows "cashier_inv env s"
  using assms unfolding main_begin_def
  by (auto simp: cashier_inv_def responses_def token_answers_def told_ok_def split: if_splits sum.splits prod.splits outcome.splits)

lemma cashier_inv_steps:
  assumes "csteps env s s'" and "cashier_inv env s"
  shows "cashier_inv env s'"
  using assms by (induction rule: csteps.induct) (auto intro: cashier_inv_step)

lemma reachable_inv: "reachable env cfg fls w s \<Longrightarrow> cashier_inv env s"
  unfolding reachable_def using main_begin_inv cashier_inv_steps by blast

section \<open>The end of the process\<close>

text \<open>In the deferred \<^verbatim>\<open>srv.stop\<close> the handlers and the goroutine that reads the pasted text have only so much left to do.\<close>

fun handler_left :: "handler_pc \<Rightarrow> nat" where
  "handler_left AtToken = 2"
| "handler_left AtResponse = 1"
| "handler_left (Answered org st bd) = 0"

definition left_to_do :: "'k cashier \<Rightarrow> nat" where
  "left_to_do s = sum_list (map (\<lambda>(t, h). handler_left h) (cs_handlers s)) + (if cs_pasted s then 0 else 1)"

lemma left_set_handler:
  assumes "i < length hs" and "handler_left h < handler_left (snd (hs ! i))"
  shows "sum_list (map (\<lambda>(t, h). handler_left h) (hs[i := (fst (hs ! i), h)])) < sum_list (map (\<lambda>(t, h). handler_left h) hs)"
proof -
  have "handler_left (snd (hs ! i)) \<le> sum_list (map (\<lambda>(t, h). handler_left h) hs)"
    using assms(1) by (intro member_le_sum_list) (simp_all add: case_prod_unfold rev_image_eqI)
  then show ?thesis using assms by (simp add: map_update sum_list_update case_prod_unfold)
qed

lemma stop_step:
  assumes "cstep env s s'" and "cs_pc s = AtStop"
  shows "s' = s\<lparr>cs_pc := Exited 0\<rparr> \<and> (\<not> ls_httpserver (cs_srv s) \<or> all_answered (cs_handlers s) \<or> cs_cancelled s)
    \<or> cs_pc s' = AtStop \<and> cs_srv s' = cs_srv s \<and> left_to_do s' < left_to_do s \<and>
      token_requests (cs_handlers s') = token_requests (cs_handlers s)"
  using assms(1)
proof cases
  case (no_token i)
  then show ?thesis using assms(2) left_set_handler [of i "cs_handlers s" "unauthorized_answer (cs_srv s)"]
      handler_counts(3) [of i "cs_handlers s" "unauthorized_answer (cs_srv s)"]
    by (simp add: left_to_do_def unauthorized_answer_def)
next
  case (send_token i tok)
  then show ?thesis using assms(2) left_set_handler [of i "cs_handlers s" AtResponse] handler_counts(3) [of i "cs_handlers s" AtResponse]
    by (simp add: left_to_do_def)
next
  case (get_response i resp)
  then show ?thesis using assms(2) left_set_handler [of i "cs_handlers s" "answer_of (cs_srv s) resp"]
      handler_counts(3) [of i "cs_handlers s" "answer_of (cs_srv s) resp"]
    by (simp add: left_to_do_def answer_of_def)
qed (use assms(2) in \<open>auto simp: left_to_do_def\<close>)

lemma filter_length_less:
  assumes "x \<in> set xs" and "P x" and "\<not> Q x" and "\<And>y. Q y \<Longrightarrow> P y"
  shows "length (filter Q xs) < length (filter P xs)"
proof -
  have "filter Q (filter P xs) = filter Q xs" using assms(4) by (auto simp: filter_filter intro: filter_cong)
  then show ?thesis using length_filter_less [of x "filter P xs" Q] assms(1-3) by simp
qed

lemma unanswered_counts:
  assumes "(t, h) \<in> set hs" and "t \<noteq> ''''"
  shows "h = AtToken \<Longrightarrow> tokens_sent hs < token_requests hs" and "\<not> answered_yet h \<Longrightarrow> token_answers hs < token_requests hs"
  using assms unfolding tokens_sent_def token_requests_def token_answers_def
  by (auto intro!: filter_length_less [where x = "(t, h)"])

text \<open>No request with a token is left behind if there was one at most: some step can be taken.\<close>

lemma stop_enabled:
  assumes inv: "cashier_inv env s" and pc: "cs_pc s = AtStop" and one: "token_requests (cs_handlers s) \<le> 1"
  shows "\<exists>s'. cstep env s s'"
proof (cases "\<not> ls_httpserver (cs_srv s) \<or> all_answered (cs_handlers s) \<or> cs_cancelled s")
  case True
  then show ?thesis using cstep.stop [OF pc] by blast
next
  case False
  then obtain i where i: "i < length (cs_handlers s)" and left: "\<not> answered_yet (snd (cs_handlers s ! i))"
    by (auto simp: all_answered_def list_all_length case_prod_unfold)
  obtain t h where ti: "cs_handlers s ! i = (t, h)" by (cases "cs_handlers s ! i")
  then have set: "(t, h) \<in> set (cs_handlers s)" using i by (metis nth_mem)
  have r: "responses s = 1" and run: "still_running (cs_pc s)" using cashier_invD(1) [OF inv] pc False by simp_all
  show ?thesis
  proof (cases h)
    case AtToken
    then show ?thesis
    proof (cases "t = ''''")
      case True
      then show ?thesis using cstep.no_token [OF run i] ti AtToken by blast
    next
      case False
      then have "length (cs_token s) = 0" using unanswered_counts(1) [OF set] AtToken one cashier_invD(5) [OF inv] by linarith
      then have "cs_token s = []" by simp
      then show ?thesis using cstep.send_token [OF run i] ti AtToken False by blast
    qed
  next
    case AtResponse
    then have "t \<noteq> ''''" using cashier_invD(6) [OF inv] set by blast
    then have "length (cs_response s) = 1" using unanswered_counts(2) [OF set] AtResponse one r by (simp add: responses_def)
    then obtain resp where "cs_response s = [resp]" by (auto simp: length_Suc_conv)
    then show ?thesis using cstep.get_response [OF run i] ti AtResponse by fastforce
  qed (use left ti in simp)
qed

text \<open>Whatever order the steps come in, the process ends with status 0.\<close>

inductive finishes :: "('k, 'ca) cashier_env \<Rightarrow> 'k cashier \<Rightarrow> bool" for env :: "('k, 'ca) cashier_env" where
  exited: "cs_pc s = Exited 0 \<Longrightarrow> finishes env s"
| later: "\<lbrakk>cstep env s s1; \<And>s'. cstep env s s' \<Longrightarrow> finishes env s'\<rbrakk> \<Longrightarrow> finishes env s"

lemma stop_finishes:
  assumes "cashier_inv env s" and "cs_pc s = AtStop" and "token_requests (cs_handlers s) \<le> 1"
  shows "finishes env s"
  using assms
proof (induction "left_to_do s" arbitrary: s rule: less_induct)
  case less
  obtain s1 where "cstep env s s1" using stop_enabled [OF less.prems] by blast
  moreover have "finishes env s'" if st: "cstep env s s'" for s'
    using stop_step [OF st less.prems(2)] cashier_inv_step [OF st less.prems(1)] less.hyps [of s'] less.prems(3)
    by (auto intro: finishes.exited)
  ultimately show ?case by (rule finishes.later)
qed

lemma stop_hangs:
  assumes "csteps env s s'" and "cashier_inv env s" and "cs_pc s = AtStop" and "ls_httpserver (cs_srv s)"
    and "token_requests (cs_handlers s) \<ge> 2" and "''.'' \<notin> set (ce_stdin env)"
  shows "cs_pc s' = AtStop \<and> cashier_inv env s' \<and> ls_httpserver (cs_srv s') \<and> token_requests (cs_handlers s') \<ge> 2"
  using assms
proof (induction rule: csteps.induct)
  case (onward s s' s'')
  then have at: "cs_pc s' = AtStop" "cashier_inv env s'" "ls_httpserver (cs_srv s')" "token_requests (cs_handlers s') \<ge> 2" by blast+
  note inv = cashier_invD [OF at(2)]
  have "\<not> cs_cancelled s'" using inv(7,8) paste_loop_only onward.prems(5) by blast
  moreover have "\<not> all_answered (cs_handlers s')"
  proof
    assume "all_answered (cs_handlers s')"
    then have "token_answers (cs_handlers s') = token_requests (cs_handlers s')"
      unfolding token_answers_def token_requests_def all_answered_def by (intro arg_cong [where f = length] filter_cong) (auto simp: list_all_iff)
    moreover have "token_answers (cs_handlers s') \<le> 1" using inv(1) at(1,3) by (simp add: responses_def)
    ultimately show False using at(4) by simp
  qed
  ultimately show ?case using stop_step [OF onward.hyps(2) at(1)] cashier_inv_step [OF onward.hyps(2) at(2)] at(3,4) by auto
qed simp

section \<open>A run\<close>

text \<open>One browser brings the token; more requests with tokens may come before \<^verbatim>\<open>main\<close> is done.\<close>

definition wcashier :: "(string, unit) cashier_env" where
  "wcashier = \<lparr>ce_api = wclient,
     ce_keys = \<lparr>rsa_GenerateKey = (\<lambda>n b. Inr ''rsa''), ecdsa_GenerateKey = (\<lambda>n c. Inr ''ecdsa''), ed25519_GenerateKey = (\<lambda>n. Inr ''ed''),
       NewPublicKey = (\<lambda>k. Inr ''ssh-rsa AAAA''), MarshalPKCS1PrivateKey = (\<lambda>k. k), MarshalECPrivateKey = Inr, MarshalED25519PrivateKey = (\<lambda>k. k)\<rparr>,
     ce_fs = \<lparr>write_fault = (\<lambda>_. None), pem_Encode = snd\<rparr>,
     ce_agent = \<lparr>agent_Add = (\<lambda>n k. None), to_uint32 = (\<lambda>d. 60), time_String = (\<lambda>t. '''')\<rparr>,
     ce_viper = \<lparr>file_exists = (\<lambda>_. False), ReadInConfig = (\<lambda>_. None), viper_Unmarshal = (\<lambda>_. Inr wcconf),
       homedir_Expand = Inr, file_keys = (\<lambda>_. [])\<rparr>,
     ce_clk = (\<lambda>_. 50), ce_wire = (\<lambda>_. ('''', '''')), ce_listening = Inr 4000, ce_uuid = ''u'', ce_dial = None, ce_stdin = []\<rparr>"

lemma wwork:
  assumes "cs_encodedToken s = ''dG9r''" and "cs_pub s = ''ssh-rsa AAAA''" and "cs_conf s = wcconf" and "rands (cs_world s) = 1"
  shows "\<exists>cert held w. main_work wcashier s = Some (s\<lparr>cs_pc := AtRespond srvOK (Some cert), cs_agent := held, cs_world := w\<rparr>)"
proof -
  let ?ok = "\<lparr>resp_Status = ''ok'', resp_Response = ''ssh-cert'', resp_Version = ''''\<rparr>"
  have d: "base64_DecodeString (''dG9r'') = Some ''tok''" by code_simp
  have "\<exists>w'. send_loop wclient ''tok'' wcconf sr w = Some (Return (Inr ?ok), w')" if "req_Message sr = ''''" "rands w = 1" for sr w
    by (subst send_loop_step, simp add: wclient_send that, subst send_loop_step, simp add: wclient_send that)
  from this [of "\<lparr>req_Key = ''ssh-rsa AAAA'', req_ValidUntil = Add 50 Hour, req_Message = '''', req_Version = cl_Version wclient\<rparr>"
      "(cs_world s)\<lparr>ticks := Suc (ticks (cs_world s))\<rparr>"] assms(4)
  obtain w' where l: "send_loop wclient ''tok'' wcconf
      \<lparr>req_Key = ''ssh-rsa AAAA'', req_ValidUntil = Add 50 Hour, req_Message = '''', req_Version = cl_Version wclient\<rparr>
      ((cs_world s)\<lparr>ticks := Suc (ticks (cs_world s))\<rparr>) = Some (Return (Inr ?ok), w')"
    by auto
  obtain cert where "read_response wclient ?ok = Inr cert" by (simp add: read_response_def wclient_def wssh_def)
  then have c: "Sign wclient (\<lambda>_. 50) ''ssh-rsa AAAA'' ''tok'' wcconf (cs_world s) = Some (Return (Inr cert), w')"
    using l by (simp add: Sign_def Let_def)
  then show ?thesis using assms(1-3) d by (simp add: main_work_def wcashier_def InstallCert_def io_defs Let_def, blast)
qed

lemma csteps_requests:
  assumes "still_running (cs_pc s)" and "cs_pc s \<noteq> AtStop" and "ls_httpserver (cs_srv s)"
  shows "csteps env s (s\<lparr>cs_handlers := cs_handlers s @ map (\<lambda>t. (t, AtToken)) toks\<rparr>)"
proof (induction toks rule: rev_induct)
  case Nil
  show ?case using csteps.here [of env s] by simp
next
  case (snoc t toks)
  show ?case using csteps.onward [OF snoc cstep.request] assms by simp
qed

lemma wreach:
  "\<exists>s. reachable wcashier '''' (\<lambda>_. None) world0 s \<and> cs_pc s = AtStop \<and> ls_httpserver (cs_srv s) \<and> cs_response s = [srvOK] \<and>
     cs_handlers s = (''dG9r'', AtResponse) # map (\<lambda>t. (t, AtToken)) toks"
proof -
  let ?hs = "\<lambda>h. (''dG9r'', h) # map (\<lambda>t. (t, AtToken)) toks"
  obtain s0 where b: "main_begin wcashier False '''' (\<lambda>_. None) world0 = Return (Inr s0)"
    and s0: "cs_pc s0 = AtSelect" "ls_httpserver (cs_srv s0)" "cs_handlers s0 = []" "cs_token s0 = []" "cs_response s0 = []"
      "cs_pub s0 = ''ssh-rsa AAAA''" "cs_conf s0 = wcconf" "rands (cs_world s0) = 1"
    by (simp add: main_begin_def wcashier_def client_ReadConfig_def GenerateKey_def generateRSAKey_def io_defs Let_def
        KeyType_def KeySize_def defaultOptions_def wcconf_def world0_def startServer_def)
  let ?s1 = "s0\<lparr>cs_handlers := ?hs AtToken\<rparr>"
  let ?s2 = "set_handler 0 AtResponse (?s1\<lparr>cs_token := [''dG9r'']\<rparr>)"
  let ?s3 = "?s2\<lparr>cs_pc := AtDecode, cs_token := [], cs_encodedToken := ''dG9r''\<rparr>"
  have "csteps wcashier s0 ?s1" using csteps_requests [of s0 wcashier "''dG9r'' # toks"] s0 by simp
  then have "csteps wcashier s0 ?s2" by (rule csteps.onward) (rule cstep.send_token, use s0 in simp_all)
  then have "csteps wcashier s0 ?s3" by (rule csteps.onward) (rule cstep.select_token, use s0 in simp_all)
  moreover obtain cert held w where "main_work wcashier ?s3 = Some (?s3\<lparr>cs_pc := AtRespond srvOK (Some cert), cs_agent := held, cs_world := w\<rparr>)"
    using wwork [of ?s3] s0 by auto
  ultimately have "csteps wcashier s0 (?s3\<lparr>cs_pc := AtRespond srvOK (Some cert), cs_agent := held, cs_world := w\<rparr>)" (is "csteps _ _ ?s4")
    using csteps.onward [OF _ cstep.work [of ?s3 wcashier]] by simp
  then have "csteps wcashier s0 (?s4\<lparr>cs_pc := AtSave cert, cs_response := [srvOK]\<rparr>)" (is "csteps _ _ ?s5")
    using csteps.onward [OF _ cstep.respond [of ?s4 srvOK "Some cert" wcashier]] s0 by simp
  then have "csteps wcashier s0 (main_save wcashier ?s5 cert)" by (rule csteps.onward) (rule cstep.save, simp)
  then show ?thesis using b s0
    by (intro exI [of _ "main_save wcashier ?s5 cert"])
      (auto simp: reachable_def main_save_def SavePublicFiles_def SavePrivateFiles_def wcconf_def)
qed

section \<open>Properties\<close>

text \<open>
  C12: whenever the browser is told that all is well, or the client ends with status 0, the CA has answered a token that came
  from the user, through the local server or pasted, with a certificate for the client's key, and the agent holds exactly the private key with that
  certificate and the private key alone.
\<close>

theorem cashier_ok_honest:
  assumes "reachable env cfg fls w s" and "told_ok s \<or> cs_pc s = Exited 0"
  shows "\<exists>cert. certified env s cert"
  using cashier_invD(1,9) [OF reachable_inv [OF assms(1)]] assms(2) by fastforce

theorem cashier_ok_honest_witness:
  "\<exists>s cert. reachable wcashier '''' (\<lambda>_. None) world0 s \<and> told_ok s \<and> certified wcashier s cert"
proof -
  obtain s where s: "reachable wcashier '''' (\<lambda>_. None) world0 s" "told_ok s" using wreach [of "[]"] by (auto simp: told_ok_def)
  then show ?thesis using cashier_ok_honest [OF s(1)] by blast
qed

text \<open>
  C13: a client that has saved its files and was sent one token at most through the local server ends with status 0, in whatever order the handlers,
  the reader of the standard input and Shutdown go on.
\<close>

theorem cashier_finishes:
  assumes "reachable env cfg fls w s" and "cs_pc s = AtStop" and "token_requests (cs_handlers s) \<le> 1"
  shows "finishes env s"
  using stop_finishes [OF reachable_inv [OF assms(1)] assms(2,3)] .

theorem cashier_finishes_witness: "\<exists>s. reachable wcashier '''' (\<lambda>_. None) world0 s \<and> cs_pc s = AtStop \<and> finishes wcashier s"
proof -
  obtain s where s: "reachable wcashier '''' (\<lambda>_. None) world0 s" "cs_pc s = AtStop" "cs_handlers s = [(''dG9r'', AtResponse)]"
    using wreach [of "[]"] by auto
  then show ?thesis using cashier_finishes [OF s(1,2)] by (auto simp: token_requests_def)
qed



end
