(* ===== verification/Server_Flow.thy ===== *)
theory Server_Flow
  imports Server_Guards
begin

text \<open>
  What the handlers of \<^verbatim>\<open>server/handlers.go\<close> do on each branch: the answers of \<^verbatim>\<open>sign\<close>, the login flow from the redirect to
  the provider to the page with the token, and the revocation list.
\<close>

section \<open>sign\<close>

lemma sign_fail_eq:
  "sign_fail env code e h w =
     (Return (), h\<lparr>hs_resp := (write_header code (hs_resp h))\<lparr>w_body := w_body (hs_resp h) @
        (if net_Write env (calls w) = None
         then [BSignResponse \<lparr>resp_Status = ''error'', resp_Response = StatusText code @ '': '' @ error_text e, resp_Version = ''''\<rparr>]
         else [])\<rparr>\<rparr>,
      w\<lparr>calls := Suc (calls w)\<rparr>)"
  by (auto simp: sign_fail_def act_bind_def WriteHeader_def Write_def on_resp_def Encode_def lift_io_def remote_def
      act_ret_def write_header_def split: option.split)

lemma sign_issue_eq:
  assumes "SignUserKey (env_ssh env) (env_clk env) (app_keysigner a) req username w = (Return (Inr cert, req'), w1)"
    and "GetPublicKey (env_ssh env) (CertAsKey (env_ssh env) cert) = Return line"
    and "MakeRecord (env_ssh env) cert = Return rec"
    and "store_SetRecord (app_certstore a) (rec\<lparr>rec_Message := req_Message req'\<rparr>) (hs_store h) w1 = (Return e, s', w2)"
    and "net_Write env (calls w2) = None"
  shows "sign_issue env a req username h w =
    (Return (), h\<lparr>hs_store := s', hs_resp := (write_header 200 (hs_resp h))\<lparr>w_body := w_body (hs_resp h) @
       [BSignResponse \<lparr>resp_Status = ''ok'', resp_Response = line, resp_Version = ''''\<rparr>]\<rparr>\<rparr>, w2\<lparr>calls := Suc (calls w2)\<rparr>)"
  using assms
  by (simp add: sign_issue_def act_bind_def lift_io_def lift_outcome_def on_store_def Encode_def remote_def
      Write_def on_resp_def act_ret_def)

lemma sign_issue_ok:
  assumes "sign_issue env a req username h w = (res, h', w')" and "w_body (hs_resp h) = []"
    and "BSignResponse sr \<in> set (w_body (hs_resp h'))" and "resp_Status sr = ''ok''"
  obtains cert req' w1 rec e s' w2 where
    "SignUserKey (env_ssh env) (env_clk env) (app_keysigner a) req username w = (Return (Inr cert, req'), w1)"
    and "GetPublicKey (env_ssh env) (CertAsKey (env_ssh env) cert) = Return (resp_Response sr)"
    and "MakeRecord (env_ssh env) cert = Return rec"
    and "store_SetRecord (app_certstore a) (rec\<lparr>rec_Message := req_Message req'\<rparr>) (hs_store h) w1 = (Return e, s', w2)" and "hs_store h' = s'"
proof -
  obtain so w1 where s: "SignUserKey (env_ssh env) (env_clk env) (app_keysigner a) req username w = (so, w1)"
    by (cases "SignUserKey (env_ssh env) (env_clk env) (app_keysigner a) req username w")
  show thesis
  proof (cases so)
    case Panic
    with s assms show thesis by (auto simp: sign_issue_def act_bind_def lift_io_def)
  next
    case (Return p)
    obtain signed req' where p: "p = (signed, req')" by (cases p)
    show thesis
    proof (cases signed)
      case (Inl e)
      with s Return p assms show thesis
        by (auto simp: sign_issue_def act_bind_def lift_io_def sign_fail_eq split: if_splits)
    next
      case (Inr cert)
      with s Return p assms have "GetPublicKey (env_ssh env) (CertAsKey (env_ssh env) cert) = Return (resp_Response sr) \<and>
          (\<exists>rec. MakeRecord (env_ssh env) cert = Return rec \<and>
             (\<exists>e w2. store_SetRecord (app_certstore a) (rec\<lparr>rec_Message := req_Message req'\<rparr>) (hs_store h) w1 = (Return e, hs_store h', w2)))"
        by (auto simp: sign_issue_def act_bind_def lift_io_def lift_outcome_def on_store_def Encode_def remote_def
            Write_def WriteHeader_def on_resp_def act_ret_def sign_fail_eq split: outcome.splits prod.splits option.splits if_splits)
      with that s Return p Inr show thesis by blast
    qed
  qed
qed

lemma sign_accepted:
  assumes "prov_Valid (app_provider a) (tokenFromRequest r) w = (Return True, w1)"
    and "decode_request env (r_Body r) = Inr req" and "\<not> (app_requireReason a \<and> req_Message req = '''')"
    and "prov_Username (app_provider a) (tokenFromRequest r) w1 = (Return username, w2)"
    and "prov_Revoke (app_provider a) (tokenFromRequest r) w2 = (Return e, w3)"
  shows "sign env a r h w = sign_issue env a req username h w3"
  using assms by (auto simp: sign_def Let_def act_bind_def lift_io_def)

text \<open>An ok response comes from a request that went all the way to \<open>sign_issue\<close>.\<close>

lemma sign_ok_issue:
  assumes "sign env a r h w = (res, h', w')" and "w_body (hs_resp h) = []"
    and "BSignResponse sr \<in> set (w_body (hs_resp h'))" and "resp_Status sr = ''ok''"
  obtains w1 w2 w3 username req where
    "prov_Valid (app_provider a) (tokenFromRequest r) w = (Return True, w1)"
    and "decode_request env (r_Body r) = Inr req" and "app_requireReason a \<longrightarrow> req_Message req \<noteq> ''''"
    and "prov_Username (app_provider a) (tokenFromRequest r) w1 = (Return username, w2)"
    and "sign_issue env a req username h w3 = (res, h', w')"
proof -
  let ?t = "tokenFromRequest r"
  obtain rv w1 where v: "prov_Valid (app_provider a) ?t w = (rv, w1)" by (cases "prov_Valid (app_provider a) ?t w")
  with assms have rv: "rv = Return True"
    by (cases rv) (auto simp: sign_def Let_def act_bind_def lift_io_def sign_fail_eq split: if_splits)
  obtain req where d: "decode_request env (r_Body r) = Inr req" and m: "\<not> (app_requireReason a \<and> req_Message req = '''')"
    using assms v rv
    by (cases "decode_request env (r_Body r)")
      (auto simp: sign_def Let_def act_bind_def lift_io_def sign_fail_eq Header_Add_def on_resp_def split: if_splits)
  obtain ru w2 where u: "prov_Username (app_provider a) ?t w1 = (ru, w2)" by (cases "prov_Username (app_provider a) ?t w1")
  with assms v rv d m obtain username where uname: "ru = Return username"
    by (cases ru) (auto simp: sign_def Let_def act_bind_def lift_io_def)
  obtain rr w3 where k: "prov_Revoke (app_provider a) ?t w2 = (rr, w3)" by (cases "prov_Revoke (app_provider a) ?t w2")
  with assms v rv d m u uname obtain e where "rr = Return e"
    by (cases rr) (auto simp: sign_def Let_def act_bind_def lift_io_def)
  with v rv u uname k have "sign env a r h w = sign_issue env a req username h w3"
    using sign_accepted [OF _ d m] by simp
  with assms(1) v rv d m u uname that show thesis by auto
qed

section \<open>Properties of signing\<close>

text \<open>
  C2: a certificate leaves the server only for a bearer token that the provider accepted: whenever the answer of sign holds an ok response, the
  provider accepted the token, a reason was given if one is required, and the response is the certificate that was signed for the
  user name the provider gave. That name is the first principal, and the certificate is signed by the signer's CA key.
\<close>

theorem sign_ok_authorized:
  assumes "sign env a r h w = (res, h', w')" and "w_body (hs_resp h) = []"
    and "BSignResponse sr \<in> set (w_body (hs_resp h'))" and "resp_Status sr = ''ok''" and "sign_cert_ok (env_ssh env)"
  shows "\<exists>w1 w2 username req cert.
      prov_Valid (app_provider a) (tokenFromRequest r) w = (Return True, w1) \<and>
      decode_request env (r_Body r) = Inr req \<and> (app_requireReason a \<longrightarrow> req_Message req \<noteq> '''') \<and>
      prov_Username (app_provider a) (tokenFromRequest r) w1 = (Return username, w2) \<and>
      ParseAuthorizedKey (env_ssh env) (req_Key req) = Inr (cert_Key cert) \<and>
      cert_ValidPrincipals cert = username # ks_principals (app_keysigner a) \<and>
      cert_SignatureKey cert = Some (CAPublicKey (env_ssh env) (ks_ca (app_keysigner a))) \<and>
      GetPublicKey (env_ssh env) (CertAsKey (env_ssh env) cert) = Return (resp_Response sr)"
proof -
  obtain w1 w2 w3 username req where q: "prov_Valid (app_provider a) (tokenFromRequest r) w = (Return True, w1)"
      "decode_request env (r_Body r) = Inr req" "app_requireReason a \<longrightarrow> req_Message req \<noteq> ''''"
      "prov_Username (app_provider a) (tokenFromRequest r) w1 = (Return username, w2)"
      "sign_issue env a req username h w3 = (res, h', w')"
    by (rule sign_ok_issue [OF assms(1-4)])
  obtain cert req' w4 where
    c: "SignUserKey (env_ssh env) (env_clk env) (app_keysigner a) req username w3 = (Return (Inr cert, req'), w4)"
      "GetPublicKey (env_ssh env) (CertAsKey (env_ssh env) cert) = Return (resp_Response sr)"
    by (rule sign_issue_ok [OF q(5) assms(2-4)])
  show ?thesis using q c(2) SignUserKey_fields [OF c(1) assms(5)] by auto
qed

text \<open>
  C40: the certificate is handed out whatever the store answers: with an accepted request and a signature, the status is 200 and the body the
  certificate also if SetRecord returned an error, so that a certificate exists of which no record is kept.
\<close>

theorem sign_issues_unrecorded:
  assumes "prov_Valid (app_provider a) (tokenFromRequest r) w = (Return True, w1)"
    and "decode_request env (r_Body r) = Inr req" and "\<not> (app_requireReason a \<and> req_Message req = '''')"
    and "prov_Username (app_provider a) (tokenFromRequest r) w1 = (Return username, w2)"
    and "prov_Revoke (app_provider a) (tokenFromRequest r) w2 = (Return e, w3)"
    and "SignUserKey (env_ssh env) (env_clk env) (app_keysigner a) req username w3 = (Return (Inr cert, req'), w4)"
    and "marshal_ok (env_ssh env) (CertAsKey (env_ssh env) cert)"
    and "\<And>rec. store_SetRecord (app_certstore a) rec s w4 = (Return (Some err), s, w5)"
    and "net_Write env (calls w5) = None" and "w_status (hs_resp h) = None" and "hs_store h = s"
  shows "\<exists>h' w'. sign env a r h w = (Return (), h', w') \<and> hs_store h' = s \<and> w_status (hs_resp h') = Some 200 \<and>
    (\<exists>line. ParseAuthorizedKey (env_ssh env) line = Inr (CertAsKey (env_ssh env) cert) \<and>
      w_body (hs_resp h') = w_body (hs_resp h) @ [BSignResponse \<lparr>resp_Status = ''ok'', resp_Response = line, resp_Version = ''''\<rparr>])"
proof -
  obtain line where line: "GetPublicKey (env_ssh env) (CertAsKey (env_ssh env) cert) = Return line"
      "ParseAuthorizedKey (env_ssh env) line = Inr (CertAsKey (env_ssh env) cert)"
    using GetPublicKey_marshal [OF assms(7)] by metis
  obtain rec where "MakeRecord (env_ssh env) cert = Return rec" by (simp add: MakeRecord_def line(1))
  from sign_issue_eq [OF assms(6) line(1) this, where h = h and e = "Some err" and s' = s and ?w2.0 = w5] assms(8-11)
  show ?thesis unfolding sign_accepted [OF assms(1-5)] using line(2) by auto
qed

lemma tokenFromRequest_bearer:
  assumes "CHR '' '' \<notin> set token"
  shows "tokenFromRequest (r\<lparr>r_Authorization := ''Bearer '' @ token\<rparr>) = empty_Token\<lparr>AccessToken := token\<rparr>"
proof -
  have "HasPrefix (ToUpper ''Bearer '') ''BEARER ''" by code_simp
  then have "HasPrefix (ToUpper (''Bearer '' @ token)) ''BEARER ''"
    by (simp add: ToUpper_def HasPrefix_def)
  moreover have "Split (''Bearer'' @ CHR '' '' # token) (CHR '' '') = ''Bearer'' # Split token (CHR '' '')"
    by (rule Split_append_sep) simp
  then have "Split (''Bearer '' @ token) (CHR '' '') ! 1 = token"
    using Split_no_sep [OF assms] by simp
  ultimately show ?thesis by (simp add: tokenFromRequest_def Let_def)
qed

definition wsign :: request where
  "wsign = (wrequest ''POST'' ''/sign'')\<lparr>r_Authorization := ''Bearer tok''\<rparr>"

lemma wsign_token: "tokenFromRequest wsign = empty_Token\<lparr>AccessToken := ''tok''\<rparr>"
proof -
  have "HasPrefix (ToUpper ''Bearer tok'') ''BEARER ''" by code_simp
  then show ?thesis by (simp add: tokenFromRequest_def wsign_def)
qed

definition wsreq :: SignRequest where
  "wsreq = \<lparr>req_Key = ''ssh-rsa AAAA'', req_ValidUntil = zero_time, req_Message = ''why'', req_Version = ''''\<rparr>"

lemma wsign_decode: "decode_request wserver (r_Body wsign) = Inr wsreq"
  by (simp add: decode_request_def wserver_def wsign_def wrequest_def request_field_def equal_fold_def ToUpper_def upper_def wsreq_def)

lemma wsign_provider:
  obtains w1 w2 w3 where "prov_Valid wprovider (tokenFromRequest wsign) w = (Return True, w1)"
    and "prov_Username wprovider (tokenFromRequest wsign) w1 = (Return ''alice'', w2)"
    and "prov_Revoke wprovider (tokenFromRequest wsign) w2 = (Return None, w3)"
proof -
  obtain w1 where v: "prov_Valid wprovider (tokenFromRequest wsign) w = (Return True, w1)"
    using wprovider_Valid [of "tokenFromRequest wsign"] by (auto simp: wsign_token empty_Token_def)
  obtain w2 where u: "prov_Username wprovider (tokenFromRequest wsign) w1 = (Return ''alice'', w2)"
    by (simp add: wprovider_def github_provider_def github_Username_def wgh_def io_defs)
  obtain w3 where "prov_Revoke wprovider (tokenFromRequest wsign) w2 = (Return None, w3)"
    by (simp add: wprovider_def github_provider_def github_Revoke_def ret_def)
  with v u that show thesis by blast
qed

lemma wsign_cert:
  obtains cert req' w' where "SignUserKey wssh clk wsigner wsreq ''alice'' w = (Return (Inr cert, req'), w')"
    and "req_Message req' = ''why''"
  by (simp add: SignUserKey_eq wsreq_def wssh_def Let_def)

text \<open>The answer to the example request, with an in-memory store.\<close>

lemma wsign_answer:
  assumes "mem_open ms"
  obtains h' w' line where
    "sign wserver wapplication wsign \<lparr>hs_store = ms, hs_session = [], hs_resp = new_response\<rparr> world0 = (Return (), h', w')"
    and "w_body (hs_resp h') = [BSignResponse \<lparr>resp_Status = ''ok'', resp_Response = line, resp_Version = ''''\<rparr>]"
proof -
  let ?h = "\<lparr>hs_store = ms, hs_session = [], hs_resp = new_response\<rparr>"
  obtain w1 w2 w3 where p: "prov_Valid wprovider (tokenFromRequest wsign) world0 = (Return True, w1)"
      "prov_Username wprovider (tokenFromRequest wsign) w1 = (Return ''alice'', w2)"
      "prov_Revoke wprovider (tokenFromRequest wsign) w2 = (Return None, w3)"
    by (rule wsign_provider)
  obtain cert req' w4 where c: "SignUserKey wssh (\<lambda>_. 50) wsigner wsreq ''alice'' w3 = (Return (Inr cert, req'), w4)"
    by (rule wsign_cert)
  obtain line where l: "GetPublicKey wssh (CertAsKey wssh cert) = Return line" by (simp add: GetPublicKey_def wssh_def Let_def)
  obtain rec where r: "MakeRecord wssh cert = Return rec" by (simp add: MakeRecord_def l)
  obtain ms' where m: "memoryStore_SetRecord (rec\<lparr>rec_Message := req_Message req'\<rparr>) ms w4 = (Return None, ms', w4)"
    using mem_SetRecord_ledger [OF assms] by blast
  have "sign wserver wapplication wsign ?h world0 = sign_issue wserver wapplication wsreq ''alice'' ?h w3"
    by (rule sign_accepted [where ?w1.0 = w1 and ?w2.0 = w2 and e = None]) (simp_all add: p wsign_decode wsreq_def)
  also have "\<dots> = (Return (), ?h\<lparr>hs_store := ms', hs_resp := (write_header 200 new_response)\<lparr>w_body :=
       [BSignResponse \<lparr>resp_Status = ''ok'', resp_Response = line, resp_Version = ''''\<rparr>]\<rparr>\<rparr>, w4\<lparr>calls := Suc (calls w4)\<rparr>)"
    using sign_issue_eq [where env = wserver and a = wapplication and h = ?h and rec = rec and e = None and s' = ms' and ?w2.0 = w4] c l r m
    by (simp add: memoryStorer_def new_response_def)
  finally show thesis using that by simp
qed

theorem sign_ok_authorized_witness:
  "\<exists>w1. prov_Valid wprovider (tokenFromRequest wsign) world0 = (Return True, w1)"
proof -
  obtain h' w' line where "sign wserver wapplication wsign \<lparr>hs_store = newMemoryStore, hs_session = [], hs_resp = new_response\<rparr> world0 = (Return (), h', w')"
    and "w_body (hs_resp h') = [BSignResponse \<lparr>resp_Status = ''ok'', resp_Response = line, resp_Version = ''''\<rparr>]"
    using mem_open_new by (rule wsign_answer)
  from sign_ok_authorized [OF this(1), of "\<lparr>resp_Status = ''ok'', resp_Response = line, resp_Version = ''''\<rparr>"] this(2)
  show ?thesis by (auto simp: new_response_def)
qed

definition wbroken :: "(string, unit, memoryStore) application" where
  "wbroken = wapplication\<lparr>app_certstore := (memoryStorer (\<lambda>_. 50) (\<lambda>_ _. 0))
     \<lparr>store_SetRecord := (\<lambda>r s w. (Return (Some (ENew ''disk full'')), s, w))\<rparr>\<rparr>"

theorem sign_issues_unrecorded_witness:
  "\<exists>h' w'. sign wserver wbroken wsign \<lparr>hs_store = newMemoryStore, hs_session = [], hs_resp = new_response\<rparr> world0 = (Return (), h', w')
     \<and> hs_store h' = newMemoryStore \<and> w_status (hs_resp h') = Some 200"
proof -
  have f: "app_provider wbroken = wprovider" "app_keysigner wbroken = wsigner" by (simp_all add: wbroken_def)
  obtain w1 w2 w3 where p: "prov_Valid wprovider (tokenFromRequest wsign) world0 = (Return True, w1)"
      "prov_Username wprovider (tokenFromRequest wsign) w1 = (Return ''alice'', w2)"
      "prov_Revoke wprovider (tokenFromRequest wsign) w2 = (Return None, w3)"
    by (rule wsign_provider)
  obtain cert req' w4 where c: "SignUserKey wssh (\<lambda>_. 50) wsigner wsreq ''alice'' w3 = (Return (Inr cert, req'), w4)"
    by (rule wsign_cert)
  have "marshal_ok wssh (CertAsKey wssh cert)" by (rule wssh_marshal_ok) (simp add: wssh_def)
  then show ?thesis
    using sign_issues_unrecorded [where a = wbroken and env = wserver and r = wsign and w = world0 and ?w1.0 = w1 and ?w2.0 = w2 and ?w3.0 = w3
        and ?w4.0 = w4 and ?w5.0 = w4 and e = None and req = wsreq and username = "''alice''" and cert = cert and req' = req'
        and s = newMemoryStore and err = "ENew ''disk full''" and h = "\<lparr>hs_store = newMemoryStore, hs_session = [], hs_resp = new_response\<rparr>"]
      p c wsign_decode f
    by (auto simp: wbroken_def new_response_def wsreq_def)
qed

end
