(* ===== verification/Server_Login.thy ===== *)
theory Server_Login
  imports Server_Flow
begin

text \<open>
  The login flow of \<^verbatim>\<open>server/handlers.go\<close>: the redirect to the provider with a random state, the callback that compares the
  state and exchanges the code for a token, and the page that shows the token to the logged-in user.
\<close>

section \<open>One request at a time\<close>

definition session_value :: "string gomap \<Rightarrow> string \<Rightarrow> string" where
  "session_value values k = (case map_of values k of Some v \<Rightarrow> v | None \<Rightarrow> '''')"

lemma getSessionVariable_eq: "getSessionVariable k h w = (Return (session_value (hs_session h) k), h, w)"
  by (simp add: getSessionVariable_def session_value_def)

lemma session_value_update [simp]:
  "session_value (AList.update k v m) k' = (if k' = k then v else session_value m k')"
  by (simp add: session_value_def update_conv')

lemma setSessionVariable_eq:
  assumes "\<And>vs. session_Save env vs = None" and "w_status (hs_resp h) = None"
  shows "setSessionVariable env k v h w =
    (Return (), h\<lparr>hs_session := AList.update k v (hs_session h),
       hs_resp := (hs_resp h)\<lparr>w_cookie := Some (AList.update k v (hs_session h))\<rparr>\<rparr>, w)"
  using assms by (simp add: setSessionVariable_def Let_def)

definition redirected :: "request \<Rightarrow> string \<Rightarrow> int \<Rightarrow> response \<Rightarrow> response" where
  "redirected r url code rw = rw\<lparr>w_header := AList.update ''Location'' url (w_header rw), w_status := Some code,
     w_body := w_body rw @ (if r_Method r = ''GET'' then [BRedirect url] else [])\<rparr>"

lemma redirected_fields [simp]:
  "w_status (redirected r url code rw) = Some code" "w_cookie (redirected r url code rw) = w_cookie rw"
  "map_of (w_header (redirected r url code rw)) ''Location'' = Some url"
  by (simp_all add: redirected_def update_conv')

lemma http_Redirect_eq:
  assumes "w_status (hs_resp h) = None"
  shows "http_Redirect r url code h w = (Return (), h\<lparr>hs_resp := redirected r url code (hs_resp h)\<rparr>, w)"
  using assms
  by (simp add: http_Redirect_def act_bind_def Header_Set_def WriteHeader_def Write_def on_resp_def act_ret_def write_header_def redirected_def)

lemma session_token_value: "session_token env vs = token_Unmarshal env (session_value vs ''token'')"
  by (simp add: session_token_def session_value_def)

text \<open>The login: the state is put into the cookie and into the address of the provider.\<close>

lemma auth_login_eq:
  assumes "\<And>vs. session_Save env vs = None" and "w_status (hs_resp h) = None"
  defines "state \<equiv> \<lambda>w. hex_EncodeToString (env_rand env (rands w))"
  shows "auth_login env a r h w =
    (Return (), h\<lparr>hs_session := AList.update ''state'' (state w) (hs_session h),
       hs_resp := redirected r (prov_StartSession (app_provider a) (state w)) 302
         ((hs_resp h)\<lparr>w_cookie := Some (AList.update ''state'' (state w) (hs_session h))\<rparr>)\<rparr>, w\<lparr>rands := Suc (rands w)\<rparr>)"
  using assms(2) setSessionVariable_eq [OF assms(1,2)]
  by (simp add: auth_login_def act_bind_def lift_io_def draw_def Let_def http_Redirect_eq state_def)

text \<open>The callback once the state is accepted and the code exchanged.\<close>

definition callback_end :: "('k, 'ca, 's) application \<Rightarrow> request \<Rightarrow> string \<Rightarrow> Token \<Rightarrow> ('s, unit) act" where
  "callback_end a r originURL token =
     act_bind (lift_io (prov_Valid (app_provider a) token)) (\<lambda>valid.
       if \<not> valid then unauthorized_page else http_Redirect r originURL 302)"

lemma auth_callback_exchanged:
  assumes "\<And>vs. session_Save env vs = None" and "w_status (hs_resp h) = None"
    and "FormValue r ''state'' = session_value (hs_session h) ''state''"
    and "prov_Exchange (app_provider a) (FormValue r ''code'') w = (Return (Inr token), w1)"
  shows "auth_callback env a r h w =
    callback_end a r (if session_value (hs_session h) ''origin_url'' = '''' then ''/'' else session_value (hs_session h) ''origin_url'') token
      (h\<lparr>hs_session := AList.update ''token'' (token_Marshal env token) (hs_session h),
         hs_resp := (hs_resp h)\<lparr>w_cookie := Some (AList.update ''token'' (token_Marshal env token) (hs_session h))\<rparr>\<rparr>) w1"
  using assms setSessionVariable_eq [OF assms(1,2)]
  by (simp add: auth_callback_def callback_end_def setAuthToken_def act_bind_def getSessionVariable_eq lift_io_def Let_def)

lemma callback_end_cookie:
  assumes "callback_end a r url token h w = (res, h', w')"
  shows "w_cookie (hs_resp h') = w_cookie (hs_resp h)"
  using assms
  by (auto simp: callback_end_def unauthorized_page_def act_bind_def lift_io_def http_Redirect_def Header_Set_def
      WriteHeader_def Write_def on_resp_def act_ret_def write_header_def split: outcome.splits prod.splits if_splits)

lemma auth_callback_cookie:
  assumes "\<And>vs. session_Save env vs = None" and "w_status (hs_resp h) = None"
    and "FormValue r ''state'' = session_value (hs_session h) ''state''"
    and "prov_Exchange (app_provider a) (FormValue r ''code'') w = (Return (Inr token), w1)"
    and "auth_callback env a r h w = (res, h', w')"
  shows "w_cookie (hs_resp h') = Some (AList.update ''token'' (token_Marshal env token) (hs_session h))"
  using callback_end_cookie [OF auth_callback_exchanged [OF assms(1-4), symmetric, unfolded assms(5)]] by simp

section \<open>Properties\<close>

text \<open>
  A callback whose state differs from the one in the session is turned away with 401 before anything is exchanged: the provider is not asked,
  the session keeps its values and no cookie is sent.
\<close>

theorem auth_callback_state:
  assumes "FormValue r ''state'' \<noteq> session_value (hs_session h) ''state''" and "w_status (hs_resp h) = None"
  shows "\<exists>h'. auth_callback env a r h w = (Return (), h', w) \<and> w_status (hs_resp h') = Some 401 \<and>
    hs_session h' = hs_session h \<and> w_cookie (hs_resp h') = w_cookie (hs_resp h) \<and> hs_store h' = hs_store h"
  using assms
  by (simp add: auth_callback_def unauthorized_page_def act_bind_def getSessionVariable_eq WriteHeader_def Write_def on_resp_def
      write_header_def)

theorem auth_callback_state_witness:
  "\<exists>h'. auth_callback wserver wapplication (wrequest ''GET'' ''/auth/callback'')
      \<lparr>hs_store = newMemoryStore, hs_session = [(''state'', ''abc'')], hs_resp = new_response\<rparr> world0 = (Return (), h', world0)
    \<and> w_status (hs_resp h') = Some 401"
  using auth_callback_state [of "wrequest ''GET'' ''/auth/callback''"
      "\<lparr>hs_store = newMemoryStore, hs_session = [(''state'', ''abc'')], hs_resp = new_response\<rparr>" wserver wapplication world0]
  by (auto simp: FormValue_def values_Get_def wrequest_def session_value_def new_response_def)

text \<open>
  The check passes vacuously without a login: with no state in the session and none in the request the code of the request is exchanged, and the
  token is put into the session cookie, whatever the provider then says of it.
\<close>

theorem auth_callback_without_login:
  assumes "\<And>vs. session_Save env vs = None" and "w_status (hs_resp h) = None"
    and "map_of (hs_session h) ''state'' = None" and "map_of (r_Form r) ''state'' = None"
    and "prov_Exchange (app_provider a) (FormValue r ''code'') w = (Return (Inr token), w1)"
    and "auth_callback env a r h w = (res, h', w')"
  shows "\<exists>cookie. w_cookie (hs_resp h') = Some cookie \<and> session_value cookie ''token'' = token_Marshal env token"
proof -
  have s: "FormValue r ''state'' = session_value (hs_session h) ''state''"
    using assms(3,4) by (simp add: FormValue_def values_Get_def session_value_def)
  show ?thesis using auth_callback_cookie [OF assms(1,2) s assms(5,6)] by simp
qed

theorem auth_callback_without_login_witness:
  "\<exists>res h' w' cookie. auth_callback wserver wapplication ((wrequest ''GET'' ''/auth/callback'')\<lparr>r_Form := [(''code'', [''good''])]\<rparr>)
      \<lparr>hs_store = newMemoryStore, hs_session = [], hs_resp = new_response\<rparr> world0 = (res, h', w')
    \<and> w_cookie (hs_resp h') = Some cookie \<and> session_value cookie ''token'' = ''tok''"
proof -
  let ?r = "(wrequest ''GET'' ''/auth/callback'')\<lparr>r_Form := [(''code'', [''good''])]\<rparr>"
  let ?h = "\<lparr>hs_store = newMemoryStore, hs_session = [], hs_resp = new_response\<rparr>"
  obtain t w1 where t: "prov_Exchange wprovider (FormValue ?r ''code'') world0 = (Return (Inr t), w1)" "AccessToken t = ''tok''"
    by (cases "Unix zero_time \<le> 0")
      (simp_all add: wprovider_def github_provider_def github_Exchange_def FormValue_def values_Get_def wapi_def empty_Token_def io_defs)
  obtain res h' w' where c: "auth_callback wserver wapplication ?r ?h world0 = (res, h', w')"
    by (cases "auth_callback wserver wapplication ?r ?h world0")
  from auth_callback_without_login [OF _ _ _ _ _ c, of t w1] t c show ?thesis
    by (auto simp: new_response_def)
qed



end
