(* ===== verification/Token_Page.thy ===== *)
theory Token_Page
  imports Cashier_Main Server_Login
begin

text \<open>
  \<^verbatim>\<open>server/templates/token.go\<close>: the page with the token. Its text area is for the user to copy; its script sends the token to the local
  server of the client. What the script asks \<^verbatim>\<open>XMLHttpRequest\<close> for is a URL, which the browser takes apart by the URL standard, and the local
  server reads with \<^verbatim>\<open>FormValue\<close> of \<^verbatim>\<open>net/http\<close>. \<^verbatim>\<open>html/template\<close> escapes the values for the place they are in, so that the browser
  sees the values themselves.
\<close>

section \<open>The page\<close>

record token_page =
  page_Token :: string
  page_Localserver :: string

definition page_textarea :: "token_page \<Rightarrow> string" where
  "page_textarea p = page_Token p @ ''.''"

text \<open>The script is there only if the page was asked for with an address of a local server.\<close>

definition page_request :: "token_page \<Rightarrow> string option" where
  "page_request p =
     (if page_Localserver p = '''' then None
      else Some (''http://localhost:'' @ page_Localserver p @ ''?token='' @ page_Token p))"

definition page_success :: "int \<Rightarrow> string \<Rightarrow> bool" where
  "page_success status response \<longleftrightarrow> status = 200 \<and> response = ''ok''"

text \<open>The element for the outcome: the classes that are added to it and its markup.\<close>

record status_element =
  st_classes :: "string list"
  st_innerHTML :: string

definition page_failed :: "status_element \<Rightarrow> status_element" where
  "page_failed out = \<lparr>st_classes = st_classes out @ [''error''],
     st_innerHTML = ''Failed to automatically add credentials.<br />'' @ ''Copy the code below and paste it into your terminal''\<rparr>"

definition page_onload :: "int \<Rightarrow> string \<Rightarrow> status_element \<Rightarrow> status_element" where
  "page_onload status response out =
     (if page_success status response
      then \<lparr>st_classes = st_classes out @ [''success''], st_innerHTML = ''Authentication complete - you can close this window''\<rparr>
      else page_failed out)"

definition page_onerror :: "status_element \<Rightarrow> status_element" where
  "page_onerror out = page_failed out"

lemma page_says_success:
  "''success'' \<in> set (st_classes (page_onload status response out)) \<longleftrightarrow> ''success'' \<in> set (st_classes out) \<or> status = 200 \<and> response = ''ok''"
  "''success'' \<in> set (st_classes (page_onerror out)) \<longleftrightarrow> ''success'' \<in> set (st_classes out)"
  by (auto simp: page_onload_def page_onerror_def page_failed_def page_success_def)

section \<open>The browser\<close>

text \<open>
  The URL standard: tabs and newlines are dropped; the authority ends at the first slash, question mark, number sign or backslash; a user and a password end
  at its last at sign; the rest is host and port. The fragment is not sent. Characters that the standard would percent-encode stay as
  they are here; the texts of this theory have none.
\<close>

record target =
  t_host :: string
  t_port :: string
  t_path :: string
  t_query :: string

definition url_clean :: "string \<Rightarrow> string" where
  "url_clean = filter (\<lambda>c. c \<noteq> CHR 0x09 \<and> c \<noteq> CHR 0x0A \<and> c \<noteq> CHR 0x0D)"

definition in_authority :: "char \<Rightarrow> bool" where
  "in_authority c \<longleftrightarrow> c \<noteq> CHR ''/'' \<and> c \<noteq> CHR ''?'' \<and> c \<noteq> CHR ''#'' \<and> c \<noteq> CHR 0x5C"

definition after_last :: "char \<Rightarrow> string \<Rightarrow> string" where
  "after_last c s = rev (takeWhile (\<lambda>x. x \<noteq> c) (rev s))"

definition Cut :: "char \<Rightarrow> string \<Rightarrow> string \<times> string" where
  "Cut c s = (takeWhile (\<lambda>x. x \<noteq> c) s, drop 1 (dropWhile (\<lambda>x. x \<noteq> c) s))"

definition xhr_target :: "string \<Rightarrow> target option" where
  "xhr_target url =
     (let u = url_clean url
      in if HasPrefix u ''http://'' then
           (let rest = drop 7 u;
                (host, port) = Cut (CHR '':'') (after_last (CHR ''@'') (takeWhile in_authority rest));
                (path, query) = Cut (CHR ''?'') (takeWhile (\<lambda>c. c \<noteq> CHR ''#'') (dropWhile in_authority rest))
            in Some \<lparr>t_host = host, t_port = port, t_path = path, t_query = query\<rparr>)
         else None)"

section \<open>FormValue\<close>

text \<open>\<^verbatim>\<open>url.QueryUnescape\<close>: a plus sign is a space.\<close>

definition unhex :: "char \<Rightarrow> nat option" where
  "unhex c = map_of (zip ''0123456789abcdef'' [0..<16] @ zip ''ABCDEF'' [10..<16]) c"

fun QueryUnescape :: "string \<Rightarrow> string option" where
  "QueryUnescape [] = Some []"
| "QueryUnescape (c # s) =
     (if c = CHR ''%'' then
        (case s of
           a # b # r \<Rightarrow>
             (case (unhex a, unhex b, QueryUnescape r) of
                (Some x, Some y, Some t) \<Rightarrow> Some (char_of (16 * x + y) # t)
              | _ \<Rightarrow> None)
         | _ \<Rightarrow> None)
      else map_option (\<lambda>t. (if c = CHR ''+'' then CHR '' '' else c) # t) (QueryUnescape s))"

text \<open>\<^verbatim>\<open>url.ParseQuery\<close>, whose errors only leave their pair out.\<close>

definition ParseQuery :: "string \<Rightarrow> (string \<times> string) list" where
  "ParseQuery q =
     [(k, v). kv \<leftarrow> Split q (CHR ''&''), kv \<noteq> '''', CHR '';'' \<notin> set kv,
        (k', v') \<leftarrow> [Cut (CHR ''='') kv], Some k \<leftarrow> [QueryUnescape k'], Some v \<leftarrow> [QueryUnescape v']]"

definition query_FormValue :: "string \<Rightarrow> string \<Rightarrow> string" where
  "query_FormValue q k = (case map_of (ParseQuery q) k of Some v \<Rightarrow> v | None \<Rightarrow> '''')"

section \<open>Lemmas\<close>

lemma url_clean_append [simp]: "url_clean (a @ b) = url_clean a @ url_clean b"
  by (simp add: url_clean_def)

lemma url_clean_Nil [simp]: "url_clean [] = []"
  by (simp add: url_clean_def)

lemma url_clean_Cons [simp]:
  "url_clean (c # s) = (if c = CHR 0x09 \<or> c = CHR 0x0A \<or> c = CHR 0x0D then url_clean s else c # url_clean s)"
  by (simp add: url_clean_def)

lemma url_clean_id:
  assumes "\<And>c. c \<in> set s \<Longrightarrow> c \<noteq> CHR 0x09 \<and> c \<noteq> CHR 0x0A \<and> c \<noteq> CHR 0x0D"
  shows "url_clean s = s"
  using assms by (simp add: url_clean_def filter_id_conv)

lemma b64_text_plain:
  "b64_text c \<Longrightarrow> c \<noteq> CHR 0x09 \<and> c \<noteq> CHR 0x0A \<and> c \<noteq> CHR 0x0D \<and> c \<noteq> CHR ''#'' \<and> c \<noteq> CHR ''&'' \<and> c \<noteq> CHR '';'' \<and> c \<noteq> CHR ''%'' \<and> c \<noteq> CHR '' ''"
  by (auto simp: b64_text_def b64_alphabet_def)

text \<open>The browser drops the ends of the lines of the token.\<close>

lemma url_clean_encodeToken: "url_clean (encodeToken s) = base64_EncodeToString s"
proof -
  have l: "url_clean l = l" if "l \<in> set (chunks (base64_EncodeToString s))" for l
    using chunks_chars [OF that] base64_text b64_text_plain by (intro url_clean_id) blast
  have "url_clean (concat (map (\<lambda>l. l @ [newline]) ls)) = concat ls" if "\<And>l. l \<in> set ls \<Longrightarrow> url_clean l = l" for ls
    using that by (induction ls) (simp_all add: newline_def)
  from this [OF l] show ?thesis by (simp add: encodeToken_lines concat_chunks)
qed

lemma takeWhile_stop: "(\<And>x. x \<in> set a \<Longrightarrow> P x) \<Longrightarrow> \<not> P c \<Longrightarrow> takeWhile P (a @ c # b) = a"
  by (simp add: takeWhile_append)

lemma dropWhile_stop: "(\<And>x. x \<in> set a \<Longrightarrow> P x) \<Longrightarrow> \<not> P c \<Longrightarrow> dropWhile P (a @ c # b) = c # b"
  by (simp add: dropWhile_append)

lemma Cut_at: "c \<notin> set a \<Longrightarrow> Cut c (a @ c # b) = (a, b)"
  unfolding Cut_def by (induction a) auto

lemma Cut_none: "c \<notin> set a \<Longrightarrow> Cut c a = (a, [])"
  unfolding Cut_def by (induction a) auto

lemma takeWhile_all: "c \<notin> set a \<Longrightarrow> takeWhile (\<lambda>x. x \<noteq> c) a = a"
  by (induction a) auto

lemma after_last_at: "c \<notin> set b \<Longrightarrow> after_last c (a @ c # b) = b"
  using takeWhile_stop [of "rev b" "\<lambda>x. x \<noteq> c" c "rev a"] by (fastforce simp: after_last_def)

lemma after_last_none: "c \<notin> set a \<Longrightarrow> after_last c a = a"
  unfolding after_last_def by (subst takeWhile_all) simp_all

lemma xhr_target_parts:
  assumes "url_clean url = ''http://'' @ hp @ ''/'' @ path @ ''?'' @ q"
    and "\<And>c. c \<in> set hp \<Longrightarrow> in_authority c" and "CHR ''?'' \<notin> set path" and "CHR ''#'' \<notin> set path" and "CHR ''#'' \<notin> set q"
  shows "xhr_target url =
    (case Cut (CHR '':'') (after_last (CHR ''@'') hp) of (host, port) \<Rightarrow>
       Some \<lparr>t_host = host, t_port = port, t_path = ''/'' @ path, t_query = q\<rparr>)"
proof -
  have s: "\<not> in_authority (CHR ''/'')" by (simp add: in_authority_def)
  have t: "takeWhile in_authority (hp @ CHR ''/'' # path @ CHR ''?'' # q) = hp" by (rule takeWhile_stop) (use assms(2) s in auto)
  have d: "dropWhile in_authority (hp @ CHR ''/'' # path @ CHR ''?'' # q) = CHR ''/'' # path @ CHR ''?'' # q"
    by (rule dropWhile_stop) (use assms(2) s in auto)
  have h: "takeWhile (\<lambda>c. c \<noteq> CHR ''#'') (CHR ''/'' # path @ CHR ''?'' # q) = CHR ''/'' # path @ CHR ''?'' # q"
    using assms(4,5) by (intro takeWhile_all) auto
  have k: "Cut (CHR ''?'') ((''/'' @ path) @ CHR ''?'' # q) = (''/'' @ path, q)" by (rule Cut_at) (use assms(3) in simp)
  have "drop 7 (''http://'' @ hp @ ''/'' @ path @ ''?'' @ q) = hp @ CHR ''/'' # path @ CHR ''?'' # q" by simp
  then show ?thesis using k
    unfolding xhr_target_def Let_def assms(1) HasPrefix_append if_True by (simp only: t d h) (simp add: HasPrefix_def)
qed

lemma QueryUnescape_plain:
  "CHR ''%'' \<notin> set s \<Longrightarrow> QueryUnescape s = Some (map (\<lambda>c. if c = CHR ''+'' then CHR '' '' else c) s)"
  by (induction s) auto

lemma query_FormValue_single:
  assumes "\<And>c. c \<in> set s \<Longrightarrow> c \<noteq> CHR ''&'' \<and> c \<noteq> CHR '';'' \<and> c \<noteq> CHR ''%''"
    and "list_all (\<lambda>c. c \<noteq> CHR ''&'' \<and> c \<noteq> CHR '';'' \<and> c \<noteq> CHR ''%'' \<and> c \<noteq> CHR ''='' \<and> c \<noteq> CHR ''+'') k"
  shows "query_FormValue (k @ ''='' @ s) k = map (\<lambda>c. if c = CHR ''+'' then CHR '' '' else c) s"
proof -
  have k: "c \<noteq> CHR ''&'' \<and> c \<noteq> CHR '';'' \<and> c \<noteq> CHR ''%'' \<and> c \<noteq> CHR ''='' \<and> c \<noteq> CHR ''+''" if "c \<in> set k" for c
    using that assms(2) by (simp add: list_all_iff)
  have a: "Split (k @ ''='' @ s) (CHR ''&'') = [k @ ''='' @ s]" by (rule Split_no_sep) (use assms(1) k in auto)
  have c: "Cut (CHR ''='') (k @ CHR ''='' # s) = (k, s)" by (rule Cut_at) (use k in blast)
  have "QueryUnescape s = Some (map (\<lambda>c. if c = CHR ''+'' then CHR '' '' else c) s)"
    by (rule QueryUnescape_plain) (use assms(1) in blast)
  moreover have "QueryUnescape k = Some (map (\<lambda>c. if c = CHR ''+'' then CHR '' '' else c) k)" by (rule QueryUnescape_plain) (use k in blast)
  moreover have "map (\<lambda>c. if c = CHR ''+'' then CHR '' '' else c) k = k" using k by (intro map_idI) auto
  moreover have "CHR '';'' \<notin> set (k @ ''='' @ s)" using assms(1) k by auto
  ultimately show ?thesis using a c by (simp add: query_FormValue_def ParseQuery_def)
qed

lemma b64_decode_bad:
  "c \<in> set s \<Longrightarrow> b64_val c = None \<Longrightarrow> c \<noteq> CHR ''='' \<Longrightarrow> b64_decode s = None"
proof (induction s rule: b64_decode.induct)
  case (2 x y z u)
  then show ?case by (auto split: option.splits)
next
  case (3 x y z u v va)
  then show ?case by (cases "c \<in> set (v # va)") (auto split: option.splits)
qed auto

lemma base64_decode_space: "CHR '' '' \<in> set s \<Longrightarrow> base64_DecodeString s = None"
proof -
  have "b64_val (CHR '' '') = None" by code_simp
  then show "CHR '' '' \<in> set s \<Longrightarrow> base64_DecodeString s = None"
    unfolding base64_DecodeString_def using b64_decode_bad [of "CHR '' ''"] by simp
qed

text \<open>What the client decodes of a token whose encoding the browser sent as a part of the query.\<close>

lemma decode_sent_token:
  "base64_DecodeString (query_FormValue (''token='' @ base64_EncodeToString token) ''token'') =
     (if CHR ''+'' \<in> set (base64_EncodeToString token) then None else Some token)"
proof -
  let ?e = "base64_EncodeToString token"
  have v: "query_FormValue (''token='' @ ?e) ''token'' = map (\<lambda>c. if c = CHR ''+'' then CHR '' '' else c) ?e"
    using query_FormValue_single [of ?e "''token''"] base64_text b64_text_plain by auto
  show ?thesis
  proof (cases "CHR ''+'' \<in> set ?e")
    case True
    then have "CHR '' '' \<in> set (map (\<lambda>c. if c = CHR ''+'' then CHR '' '' else c) ?e)" by force
    then show ?thesis using base64_decode_space True v by simp
  next
    case False
    then have "map (\<lambda>c. if c = CHR ''+'' then CHR '' '' else c) ?e = ?e" by (intro map_idI) auto
    then show ?thesis using v False base64_decode_encode by simp
  qed
qed

section \<open>Properties\<close>

text \<open>The address of a local server: a port and a path of hexadecimal digits and dashes.\<close>

definition uuid_text :: "string \<Rightarrow> bool" where
  "uuid_text u \<longleftrightarrow> list_all (\<lambda>c. c \<in> set ''0123456789abcdef-'') u"

lemma uuid_char:
  assumes "c \<in> set ''0123456789abcdef-''"
  shows "c \<noteq> CHR ''?''" "c \<noteq> CHR ''#''" "c \<noteq> CHR 0x09 \<and> c \<noteq> CHR 0x0A \<and> c \<noteq> CHR 0x0D"
    "c \<noteq> CHR ''&'' \<and> c \<noteq> CHR '';'' \<and> c \<noteq> CHR ''%'' \<and> c \<noteq> CHR ''+''"
  using assms by auto

lemma digit_plain:
  assumes "is_digit c"
  shows "in_authority c" "c \<noteq> CHR ''@''" "c \<noteq> CHR 0x09 \<and> c \<noteq> CHR 0x0A \<and> c \<noteq> CHR 0x0D"
    "c \<noteq> CHR ''&'' \<and> c \<noteq> CHR '';'' \<and> c \<noteq> CHR ''%'' \<and> c \<noteq> CHR ''+''"
  using assms by (auto simp: is_digit_def in_authority_def)

text \<open>The CA reads the address of the local server from the address that the client opened in the browser.\<close>

lemma browser_url_localserver:
  assumes "uuid_text uuid" and "0 \<le> port" and "cs_srv s = startServer (Inr port) uuid ca" and "CHR ''?'' \<notin> set (cc_CA (cs_conf s))"
  shows "query_FormValue (snd (Cut (CHR ''?'') (browser_url s))) ''localserver'' = show_int port @ ''/'' @ uuid"
proof -
  let ?a = "show_int port @ ''/'' @ uuid"
  have d: "is_digit c" if "c \<in> set (show_int port)" for c using that assms(2) show_nat_digits by (auto simp: show_int_def split: if_splits)
  have u: "c \<in> set ''0123456789abcdef-''" if "c \<in> set uuid" for c using that assms(1) by (simp add: uuid_text_def list_all_iff)
  have e: "c \<noteq> CHR ''&'' \<and> c \<noteq> CHR '';'' \<and> c \<noteq> CHR ''%'' \<and> c \<noteq> CHR ''+''" if "c \<in> set ?a" for c
  proof -
    from that consider "c \<in> set (show_int port)" | "c = CHR ''/''" | "c \<in> set uuid" by auto
    then show ?thesis
    proof cases
      case 1
      then show ?thesis using d digit_plain(4) by blast
    next
      case 3
      then show ?thesis using u uuid_char(4) by blast
    qed simp
  qed
  have "browser_url s = cc_CA (cs_conf s) @ CHR ''?'' # ''localserver='' @ ?a"
    by (simp add: browser_url_def assms(3) localserver_url_def startServer_def)
  then have "snd (Cut (CHR ''?'') (browser_url s)) = ''localserver'' @ ''='' @ ?a" using Cut_at [OF assms(4)] by simp
  moreover have "map (\<lambda>c. if c = CHR ''+'' then CHR '' '' else c) ?a = ?a" using e by (intro map_idI) metis
  moreover have "query_FormValue (''localserver'' @ ''='' @ ?a) ''localserver'' = map (\<lambda>c. if c = CHR ''+'' then CHR '' '' else c) ?a"
    by (rule query_FormValue_single) (use e in blast, simp)
  ultimately show ?thesis by simp
qed

lemma localserver_target:
  assumes "uuid_text uuid" and "0 \<le> port" and "page_Localserver p = show_int port @ ''/'' @ uuid" and "page_Token p = encodeToken token"
  shows "\<exists>url. page_request p = Some url \<and> xhr_target url = Some \<lparr>t_host = ''localhost'', t_port = show_int port, t_path = ''/'' @ uuid,
     t_query = ''token='' @ base64_EncodeToString token\<rparr>"
proof -
  note l = assms(3)
  have d: "is_digit c" if "c \<in> set (show_int port)" for c using that assms(2) show_nat_digits by (auto simp: show_int_def split: if_splits)
  have u: "c \<in> set ''0123456789abcdef-''" if "c \<in> set uuid" for c using that assms(1) by (simp add: uuid_text_def list_all_iff)
  have t: "c \<noteq> CHR ''#''" if "c \<in> set (base64_EncodeToString token)" for c using that base64_text b64_text_plain by blast
  let ?url = "''http://localhost:'' @ page_Localserver p @ ''?token='' @ page_Token p"
  have "url_clean (show_int port) = show_int port" by (rule url_clean_id) (use d digit_plain in blast)
  moreover have "url_clean uuid = uuid" by (rule url_clean_id) (use u uuid_char in blast)
  ultimately have c: "url_clean ?url = ''http://'' @ (''localhost:'' @ show_int port) @ ''/'' @ uuid @ ''?'' @ ''token='' @ base64_EncodeToString token"
    by (simp add: l assms(4) url_clean_encodeToken)
  have "xhr_target ?url = (case Cut (CHR '':'') (after_last (CHR ''@'') (''localhost:'' @ show_int port)) of (host, port) \<Rightarrow>
       Some \<lparr>t_host = host, t_port = port, t_path = ''/'' @ uuid, t_query = ''token='' @ base64_EncodeToString token\<rparr>)"
  proof (rule xhr_target_parts [OF c])
    show "in_authority c" if "c \<in> set (''localhost:'' @ show_int port)" for c
      using that d digit_plain(1) by (cases "c \<in> set (show_int port)") (auto simp: in_authority_def)
    show "CHR ''?'' \<notin> set uuid" "CHR ''#'' \<notin> set uuid" using u uuid_char(1,2) by blast+
    show "CHR ''#'' \<notin> set (''token='' @ base64_EncodeToString token)" using t by auto
  qed
  moreover have "after_last (CHR ''@'') (''localhost:'' @ show_int port) = ''localhost:'' @ show_int port"
    using d digit_plain(2) by (intro after_last_none) auto
  moreover have "Cut (CHR '':'') (''localhost'' @ CHR '':'' # show_int port) = (''localhost'', show_int port)" by (rule Cut_at) simp
  ultimately show ?thesis by (simp add: page_request_def l)
qed

text \<open>
  C24: the token of the page finds its way to the client by itself: for the page that the CA makes of the address the client opened in the browser,
  the script sends the token to exactly the client's local server, on this machine and under its secret path, and the client decodes the access token from it if the base64
  text of the token has no plus sign. A plus sign reaches the client as a space, and the client then ends with status 1.
\<close>

theorem page_token_to_client:
  assumes "uuid_text uuid" and "0 \<le> port" and "cs_srv s = startServer (Inr port) uuid (cc_CA (cs_conf s))"
    and "CHR ''?'' \<notin> set (cc_CA (cs_conf s))"
    and "page_Localserver p = query_FormValue (snd (Cut (CHR ''?'') (browser_url s))) ''localserver''" and "page_Token p = encodeToken token"
  shows "\<exists>url query sent. page_request p = Some url \<and>
    xhr_target url = Some \<lparr>t_host = ''localhost'', t_port = show_int (ls_port (cs_srv s)), t_path = ls_path (cs_srv s), t_query = query\<rparr> \<and>
    query_FormValue query ''token'' = sent \<and>
    (CHR ''+'' \<notin> set (base64_EncodeToString token) \<longrightarrow> base64_DecodeString sent = Some token) \<and>
    (CHR ''+'' \<in> set (base64_EncodeToString token) \<longrightarrow>
      (\<forall>(env :: ('k, 'ca) cashier_env) s. cs_encodedToken s = sent \<longrightarrow> main_work env s = Some (s\<lparr>cs_pc := Exited 1\<rparr>)))"
proof -
  have l: "page_Localserver p = show_int port @ ''/'' @ uuid"
    unfolding assms(5) by (rule browser_url_localserver [OF assms(1-4)])
  obtain url where url: "page_request p = Some url" "xhr_target url = Some \<lparr>t_host = ''localhost'', t_port = show_int port, t_path = ''/'' @ uuid,
     t_query = ''token='' @ base64_EncodeToString token\<rparr>" using localserver_target [OF assms(1,2) l assms(6)] by blast
  moreover have "main_work env s = Some (s\<lparr>cs_pc := Exited 1\<rparr>)" if "base64_DecodeString (cs_encodedToken s) = None"
    for env :: "('k, 'ca) cashier_env" and s using that by (simp add: main_work_def)
  moreover have "ls_path (cs_srv s) = ''/'' @ uuid" "ls_port (cs_srv s) = port" by (simp_all add: assms(3) startServer_def)
  ultimately show ?thesis using decode_sent_token [of token] by metis
qed

theorem page_token_to_client_witness:
  "\<exists>url. page_request \<lparr>page_Token = encodeToken ''tok'', page_Localserver = ''4000/0a-1b''\<rparr> = Some url \<and>
     (\<exists>target. xhr_target url = Some target \<and> t_host target = ''localhost'' \<and> base64_DecodeString (query_FormValue (t_query target) ''token'') = Some ''tok'')"
proof -
  define s :: "string cashier" where "s = \<lparr>cs_conf = wcconf, cs_priv = RSAKey ''rsa'', cs_pub = ''ssh-rsa AAAA'', cs_srv = startServer (Inr 4000) ''0a-1b'' ''https://ca'',
     cs_token = [], cs_response = [], cs_handlers = [], cs_encodedToken = '''', cs_cancelled = False, cs_pasted = False,
     cs_pc = AtSelect, cs_agent = [], cs_files = (\<lambda>_. None), cs_world = world0\<rparr>"
  have f: "uuid_text ''0a-1b''" "CHR ''+'' \<notin> set (base64_EncodeToString ''tok'')" "show_int 4000 = ''4000''" by code_simp+
  have s: "cs_srv s = startServer (Inr 4000) ''0a-1b'' (cc_CA (cs_conf s))" "CHR ''?'' \<notin> set (cc_CA (cs_conf s))" by (simp_all add: s_def wcconf_def)
  have l: "query_FormValue (snd (Cut (CHR ''?'') (browser_url s))) ''localserver'' = ''4000/0a-1b''"
    using browser_url_localserver [OF f(1) _ s] f(3) by simp
  show ?thesis
    using page_token_to_client [OF f(1) _ s, of "\<lparr>page_Token = encodeToken ''tok'', page_Localserver = ''4000/0a-1b''\<rparr>" "''tok''"] l f(2) by auto
qed

text \<open>
  C38: nothing keeps the script to this machine: the page takes the address from the request, and an address of the form x@host/ makes the browser send the access token of
  the session to that host.
\<close>

theorem page_token_to_any_host:
  assumes "FormValue r ''localserver'' = ''x@'' @ host @ ''/''"
    and "\<And>c. c \<in> set host \<Longrightarrow> in_authority c \<and> c \<noteq> CHR '':'' \<and> c \<noteq> CHR ''@'' \<and> c \<noteq> CHR 0x09 \<and> c \<noteq> CHR 0x0A \<and> c \<noteq> CHR 0x0D"
    and "index env r h w = (Return (), h', w')"
  shows "\<exists>p url. last (w_body (hs_resp h')) = BTokenPage (page_Token p) (page_Localserver p) \<and> page_request p = Some url \<and>
    xhr_target url = Some \<lparr>t_host = host, t_port = '''', t_path = ''/'',
      t_query = ''token='' @ base64_EncodeToString (AccessToken (session_token env (hs_session h)))\<rparr>"
proof -
  let ?tok = "AccessToken (session_token env (hs_session h))"
  define p where "p = \<lparr>page_Token = encodeToken ?tok, page_Localserver = ''x@'' @ host @ ''/''\<rparr>"
  have l: "last (w_body (hs_resp h')) = BTokenPage (page_Token p) (page_Localserver p)"
    using assms(1,3) by (auto simp: index_def act_bind_def getAuthToken_eq Write_def on_resp_def p_def)
  let ?url = "''http://localhost:'' @ page_Localserver p @ ''?token='' @ page_Token p"
  have "url_clean host = host" by (rule url_clean_id) (use assms(2) in blast)
  then have c: "url_clean ?url = ''http://'' @ (''localhost:x'' @ CHR ''@'' # host) @ ''/'' @ '''' @ ''?'' @ ''token='' @ base64_EncodeToString ?tok"
    by (simp add: p_def url_clean_encodeToken)
  have a: "in_authority c" if "c \<in> set (''localhost:x'' @ CHR ''@'' # host)" for c
    using that assms(2) [of c] by (auto simp: in_authority_def)
  have q: "CHR ''#'' \<notin> set (''token='' @ base64_EncodeToString ?tok)" using base64_text b64_text_plain by auto
  have h: "after_last (CHR ''@'') (''localhost:x'' @ CHR ''@'' # host) = host" by (rule after_last_at) (use assms(2) in blast)
  have "Cut (CHR '':'') host = (host, '''')" by (rule Cut_none) (use assms(2) in blast)
  with h have "xhr_target ?url = Some \<lparr>t_host = host, t_port = '''', t_path = ''/'', t_query = ''token='' @ base64_EncodeToString ?tok\<rparr>"
    using xhr_target_parts [OF c a _ _ q] by simp
  with l show ?thesis by (intro exI [of _ p] exI [of _ ?url]) (simp add: page_request_def p_def)
qed

theorem page_token_to_any_host_witness:
  "\<exists>h' w' url target. index wserver ((wrequest ''GET'' ''/'')\<lparr>r_Form := [(''localserver'', [''x@evil.example/''])]\<rparr>)
       \<lparr>hs_store = wmem, hs_session = [(''token'', ''tok'')], hs_resp = new_response\<rparr> world0 = (Return (), h', w') \<and>
     xhr_target url = Some target \<and> t_host target = ''evil.example''"
proof -
  let ?r = "(wrequest ''GET'' ''/'')\<lparr>r_Form := [(''localserver'', [''x@evil.example/''])]\<rparr>"
  let ?h = "\<lparr>hs_store = wmem, hs_session = [(''token'', ''tok'')], hs_resp = new_response\<rparr>"
  have f: "FormValue ?r ''localserver'' = ''x@'' @ ''evil.example'' @ ''/''" by (simp add: FormValue_def values_Get_def)
  obtain h' w' where i: "index wserver ?r ?h world0 = (Return (), h', w')"
    by (simp add: index_def act_bind_def getAuthToken_eq Write_def on_resp_def)
  have "in_authority c \<and> c \<noteq> CHR '':'' \<and> c \<noteq> CHR ''@'' \<and> c \<noteq> CHR 0x09 \<and> c \<noteq> CHR 0x0A \<and> c \<noteq> CHR 0x0D" if "c \<in> set ''evil.example''" for c
    using that by (auto simp: in_authority_def)
  from page_token_to_any_host [OF f this i] i show ?thesis by fastforce
qed

end
