(* ===== verification/Go_Time.thy ===== *)
theory Go_Time
  imports Go_Strings
begin

text \<open>
  Dates of the Gregorian calendar and the layouts of \<^verbatim>\<open>time.Format\<close> that the repository uses. An instant has its seconds since the epoch and the
  offset of its location in seconds.
\<close>

section \<open>The calendar\<close>

definition leap :: "int \<Rightarrow> bool" where
  "leap y \<longleftrightarrow> y mod 4 = 0 \<and> (y mod 100 \<noteq> 0 \<or> y mod 400 = 0)"

text \<open>The days from the first day of year 1 to the first day of a year.\<close>

definition year_start :: "int \<Rightarrow> int" where
  "year_start y = 365 * (y - 1) + (y - 1) div 4 - (y - 1) div 100 + (y - 1) div 400"

text \<open>\<^verbatim>\<open>absDate\<close> of the package \<^verbatim>\<open>time\<close>: cycles of 400, 100, 4 years and one year; the last cycle of a longer one may have a day more.\<close>

definition year_day :: "int \<Rightarrow> int \<times> int" where
  "year_day d =
     (let n400 = d div 146097; d = d mod 146097;
          n100 = d div 36524; n100 = n100 - n100 div 4; d = d - 36524 * n100;
          n4 = d div 1461; d = d - 1461 * n4;
          n = d div 365; n = n - n div 4; d = d - 365 * n
      in (400 * n400 + 100 * n100 + 4 * n4 + n + 1, d))"

definition month_days :: "bool \<Rightarrow> nat list" where
  "month_days l = [31, if l then 29 else 28, 31, 30, 31, 30, 31, 31, 30, 31, 30, 31]"

fun month_day :: "nat \<Rightarrow> nat list \<Rightarrow> nat \<Rightarrow> nat \<times> nat" where
  "month_day m [] d = (m, d + 1)"
| "month_day m (k # ks) d = (if d < k then (m, d + 1) else month_day (m + 1) ks (d - k))"

definition date :: "int \<Rightarrow> int \<times> nat \<times> nat" where
  "date d = (case year_day d of (y, yd) \<Rightarrow> (y, month_day 1 (month_days (leap y)) (nat yd)))"

definition day_number :: "int \<Rightarrow> nat \<Rightarrow> nat \<Rightarrow> int" where
  "day_number y m d = year_start y + int (sum_list (take (m - 1) (month_days (leap y))) + d - 1)"

text \<open>A cycle of four parts, of which the last may be a day longer.\<close>

lemma four_parts:
  fixes r n :: int
  assumes "0 \<le> r" and "r \<le> 4 * n" and "1 < n"
  defines "b \<equiv> r div n - r div n div 4"
  shows "0 \<le> b" "b \<le> 3" "0 \<le> r - n * b" "r - n * b \<le> n" "b < 3 \<Longrightarrow> r - n * b < n"
proof -
  define q m where "q = r div n" and "m = r mod n"
  have r: "r = n * q + m" "0 \<le> m" "m < n" using assms(3) by (simp_all add: q_def m_def)
  have "0 \<le> q" using assms(1,3) by (simp add: q_def pos_imp_zdiv_nonneg_iff)
  moreover have "q \<le> 4"
  proof -
    have "r div n \<le> 4 * n div n" using assms(2,3) by (intro zdiv_mono1) simp_all
    then show ?thesis using assms(3) by (simp add: q_def)
  qed
  ultimately consider "q = 0" | "q = 1" | "q = 2" | "q = 3" | "q = 4" by linarith
  then show "0 \<le> b" "b \<le> 3" "0 \<le> r - n * b" "r - n * b \<le> n" "b < 3 \<Longrightarrow> r - n * b < n"
    using r assms(2) unfolding b_def q_def [symmetric] by (cases; simp)+
qed

lemma year_day_bounds:
  assumes "year_day d = (y, yd)"
  shows "year_start y + yd = d" and "0 \<le> yd" and "yd < (if leap y then 366 else 365)"
proof -
  define a r where "a = d div 146097" and "r = d mod 146097"
  define b where "b = r div 36524 - r div 36524 div 4"
  define r1 where "r1 = r - 36524 * b"
  define c where "c = r1 div 1461"
  define r2 where "r2 = r1 - 1461 * c"
  define e where "e = r2 div 365 - r2 div 365 div 4"
  have d: "d = 146097 * a + r" "0 \<le> r" "r < 146097" by (simp_all add: a_def r_def)
  have b: "0 \<le> b" "b \<le> 3" "0 \<le> r1" "r1 \<le> 36524" "b < 3 \<Longrightarrow> r1 < 36524"
    using four_parts [OF d(2), of 36524, folded b_def, folded r1_def] d(3) by linarith+
  have r2: "r1 = 1461 * c + r2" "0 \<le> r2" "r2 < 1461"
    using minus_mult_div_eq_mod [of r1 1461] by (simp_all add: c_def r2_def)
  then have c: "0 \<le> c" "c \<le> 24" "c = 24 \<Longrightarrow> b < 3 \<Longrightarrow> r2 < 1460" using b by linarith+
  have e: "0 \<le> e" "e \<le> 3" "0 \<le> r2 - 365 * e" "r2 - 365 * e \<le> 365" "e < 3 \<Longrightarrow> r2 - 365 * e < 365"
    using four_parts [OF r2(2), of 365, folded e_def] r2(3) by linarith+
  have y: "y = 400 * a + 100 * b + 4 * c + e + 1" "yd = r2 - 365 * e"
    using assms unfolding year_day_def Let_def a_def [symmetric] r_def [symmetric] b_def [symmetric] r1_def [symmetric]
      c_def [symmetric] r2_def [symmetric] e_def [symmetric] by simp_all
  have q: "(y - 1) div 4 = 100 * a + 25 * b + c" "(y - 1) div 100 = 4 * a + b" "(y - 1) div 400 = a"
    using b(1,2) c(1,2) e(1,2) y(1)
    by (auto intro!: int_div_pos_eq [where r = e] int_div_pos_eq [where r = "4 * c + e"] int_div_pos_eq [where r = "100 * b + 4 * c + e"])
  show "year_start y + yd = d"
    unfolding year_start_def q using y d(1) by (simp add: r2_def r1_def)
  show "0 \<le> yd" using e(3) y(2) by simp
  have l: "leap y \<longleftrightarrow> e = 3 \<and> (c \<noteq> 24 \<or> b = 3)"
  proof -
    have "y mod 4 = (if e = 3 then 0 else e + 1)"
      using e(1,2) y(1) by (auto intro!: int_mod_pos_eq [where q = "100 * a + 25 * b + c + 1"] int_mod_pos_eq [where q = "100 * a + 25 * b + c"])
    moreover have "y mod 100 = (if e = 3 \<and> c = 24 then 0 else 4 * c + e + 1)"
      using e(1,2) c(1,2) y(1) by (auto intro!: int_mod_pos_eq [where q = "4 * a + b + 1"] int_mod_pos_eq [where q = "4 * a + b"])
    moreover have "y mod 400 = (if e = 3 \<and> c = 24 \<and> b = 3 then 0 else 100 * b + 4 * c + e + 1)"
      using e(1,2) c(1,2) b(1,2) y(1) by (auto intro!: int_mod_pos_eq [where q = "a + 1"] int_mod_pos_eq [where q = a])
    ultimately show ?thesis using e(1,2) b(1,2) c(1,2) unfolding leap_def by auto
  qed
  show "yd < (if leap y then 366 else 365)"
    using e r2(3) c(3) b(2) y(2) unfolding l by (cases "e = 3") (auto split: if_splits)
qed

lemma month_day_bounds:
  assumes "month_day k ks d = (m, md)" and "d < sum_list ks"
  shows "k \<le> m \<and> m < k + length ks \<and> 1 \<le> md \<and> md \<le> ks ! (m - k) \<and> sum_list (take (m - k) ks) + md = d + 1"
  using assms
proof (induction k ks d rule: month_day.induct)
  case (2 k j ks d)
  show ?case
  proof (cases "d < j")
    case True
    with 2 show ?thesis by auto
  next
    case False
    with 2 have "k + 1 \<le> m" and "m < k + 1 + length ks \<and> 1 \<le> md \<and> md \<le> ks ! (m - (k + 1)) \<and>
        sum_list (take (m - (k + 1)) ks) + md = d - j + 1" by auto
    moreover from \<open>k + 1 \<le> m\<close> have "m - k = Suc (m - (k + 1))" by simp
    ultimately show ?thesis using False by auto
  qed
qed simp

text \<open>A date names the day it was made from, with a month of the year and a day of the month.\<close>

lemma date_day_number:
  assumes "date n = (y, m, d)"
  shows "day_number y m d = n" and "1 \<le> m" and "m \<le> 12" and "1 \<le> d" and "d \<le> 31"
proof -
  obtain yd where yd: "year_day n = (y, yd)" and md: "month_day 1 (month_days (leap y)) (nat yd) = (m, d)"
    using assms by (auto simp: date_def split: prod.splits)
  note b = year_day_bounds [OF yd]
  have "nat yd < sum_list (month_days (leap y))" using b(2,3) by (auto simp: month_days_def split: if_splits)
  note c = month_day_bounds [OF md this]
  show "1 \<le> m" "m \<le> 12" "1 \<le> d" using c by (simp_all add: month_days_def)
  have "month_days (leap y) ! i \<le> 31" if "i < 12" for i
    using that by (auto simp: month_days_def nth_Cons' split: if_splits)
  then have "month_days (leap y) ! (m - 1) \<le> 31" using \<open>1 \<le> m\<close> \<open>m \<le> 12\<close> by simp
  then show "d \<le> 31" using c by simp
  show "day_number y m d = n" using b(1,2) c by (simp add: day_number_def)
qed

section \<open>Layouts\<close>

text \<open>Numbers with leading zeros, as \<^verbatim>\<open>appendInt\<close> writes them.\<close>

definition pad :: "nat \<Rightarrow> nat \<Rightarrow> string" where
  "pad width n = replicate (width - length (show_nat n)) (CHR ''0'') @ show_nat n"

definition show_year :: "int \<Rightarrow> string" where
  "show_year y = (if y < 0 then CHR ''-'' # pad 4 (nat (- y)) else pad 4 (nat y))"

text \<open>The days from the first day of year 1 to the epoch.\<close>

definition epoch_day :: int where
  "epoch_day = 719162"

definition date_at :: "int \<Rightarrow> int \<times> nat \<times> nat" where
  "date_at local = date (local div 86400 + epoch_day)"

definition clock_at :: "int \<Rightarrow> nat \<times> nat \<times> nat" where
  "clock_at local = (let s = nat (local mod 86400) in (s div 3600, s mod 3600 div 60, s mod 60))"

text \<open>\<^verbatim>\<open>-0700\<close>: hours and minutes of the offset, whose seconds are cut off.\<close>

definition show_zone :: "int \<Rightarrow> string" where
  "show_zone off =
     (let z = nat (\<bar>off\<bar> div 60)
      in (if off < 0 \<and> z \<noteq> 0 then ''-'' else ''+'') @ pad 2 (z div 60) @ pad 2 (z mod 60))"

text \<open>The layouts \<^verbatim>\<open>2006-01-02 15:04:05\<close>, the same with the zone \<^verbatim>\<open>-0700\<close>, and \<^verbatim>\<open>20060102150405\<close>.\<close>

definition format_datetime :: "int \<Rightarrow> string" where
  "format_datetime local =
     (case (date_at local, clock_at local) of
        ((y, m, d), (h, mi, s)) \<Rightarrow>
          show_year y @ ''-'' @ pad 2 m @ ''-'' @ pad 2 d @ '' '' @ pad 2 h @ '':'' @ pad 2 mi @ '':'' @ pad 2 s)"

definition format_stamp :: "int \<Rightarrow> int \<Rightarrow> string" where
  "format_stamp off sec = format_datetime (sec + off) @ '' '' @ show_zone off"

definition format_compact :: "int \<Rightarrow> string" where
  "format_compact sec =
     (case (date_at sec, clock_at sec) of
        ((y, m, d), (h, mi, s)) \<Rightarrow> show_year y @ pad 2 m @ pad 2 d @ pad 2 h @ pad 2 mi @ pad 2 s)"

text \<open>Reading the first layout back, for years of four digits.\<close>

definition digits_at :: "nat \<Rightarrow> nat \<Rightarrow> string \<Rightarrow> nat" where
  "digits_at i n s = read_digits 0 (take n (drop i s))"

definition parse_stamp :: "string \<Rightarrow> int" where
  "parse_stamp s =
     (let day = day_number (int (digits_at 0 4 s)) (digits_at 5 2 s) (digits_at 8 2 s) - epoch_day;
          sec = int (digits_at 11 2 s * 3600 + digits_at 14 2 s * 60 + digits_at 17 2 s);
          off = int (digits_at 21 2 s * 3600 + digits_at 23 2 s * 60)
      in day * 86400 + sec - (if s ! 20 = CHR ''-'' then - off else off))"

lemma length_show_nat: "n < 10 ^ Suc w \<Longrightarrow> length (show_nat n) \<le> Suc w"
proof (induction w arbitrary: n)
  case 0
  then show ?case by (subst show_nat.simps) simp
next
  case (Suc w)
  then have "n div 10 < 10 ^ Suc w" by (simp add: less_mult_imp_div_less)
  with Suc.IH show ?case by (subst show_nat.simps) simp
qed

lemma length_pad: "n < 10 ^ w \<Longrightarrow> 0 < w \<Longrightarrow> length (pad w n) = w"
  using length_show_nat [of n "w - 1"] by (simp add: pad_def)

lemma read_pad [simp]: "read_digits 0 (pad w n) = n"
proof -
  have "read_digits 0 (replicate k (CHR ''0'')) = 0" for k by (induction k) (simp_all add: digit_val_def)
  then show ?thesis by (simp add: pad_def read_digits_append)
qed

lemma clock_at_bounds:
  assumes "clock_at local = (h, m, s)"
  shows "h < 24" "m < 60" "s < 60" "int (h * 3600 + m * 60 + s) = local mod 86400"
proof -
  define n where "n = nat (local mod 86400)"
  have n: "n < 86400" "int n = local mod 86400" by (simp_all add: n_def nat_less_iff)
  have c: "h = n div 3600" "m = n mod 3600 div 60" "s = n mod 60" using assms by (simp_all add: clock_at_def Let_def n_def)
  show "h < 24" "m < 60" "s < 60" using n(1) c by (simp_all add: less_mult_imp_div_less)
  have "n mod 3600 mod 60 = n mod 60" by (simp add: mod_mod_cancel)
  then have "h * 3600 + m * 60 + s = n" using c by (metis div_mult_mod_eq add.assoc)
  then show "int (h * 3600 + m * 60 + s) = local mod 86400" using n(2) by simp
qed

text \<open>The text names its second: to read it back gives the second it was made from.\<close>

lemma parse_format_stamp:
  assumes "0 \<le> fst (date_at (sec + off))" and "fst (date_at (sec + off)) \<le> 9999" and "off mod 60 = 0" and "\<bar>off\<bar> < 360000"
  shows "parse_stamp (format_stamp off sec) = sec"
proof -
  obtain y m d where d: "date_at (sec + off) = (y, m, d)" by (cases "date_at (sec + off)")
  obtain h mi s where c: "clock_at (sec + off) = (h, mi, s)" by (cases "clock_at (sec + off)")
  note db = date_day_number [OF d [unfolded date_at_def]] and cb = clock_at_bounds [OF c]
  define z where "z = nat (\<bar>off\<bar> div 60)"
  define sg where "sg = (if off < 0 \<and> z \<noteq> 0 then CHR ''-'' else CHR ''+'')"
  have "60 dvd \<bar>off\<bar>" using assms(3) by (simp add: mod_0_imp_dvd)
  then have z: "int z * 60 = \<bar>off\<bar>" by (simp add: z_def pos_imp_zdiv_nonneg_iff)
  then have z6: "z < 6000" using assms(4) by linarith
  have y: "show_year y = pad 4 (nat y)" "nat y < 10 ^ 4" using assms(1,2) d by (simp_all add: show_year_def)
  have "m < 10 ^ 2" "d < 10 ^ 2" "h < 10 ^ 2" "mi < 10 ^ 2" "s < 10 ^ 2" "z div 60 < 10 ^ 2" "z mod 60 < 10 ^ 2"
    using db cb z6 mod_less_divisor [of 60 z] by (simp_all add: less_mult_imp_div_less)
  note len = length_pad [OF y(2)] this [THEN length_pad]
  have f: "format_stamp off sec = pad 4 (nat y) @ ''-'' @ pad 2 m @ ''-'' @ pad 2 d @ '' '' @ pad 2 h @ '':'' @ pad 2 mi @ '':'' @ pad 2 s @ '' '' @
      [sg] @ pad 2 (z div 60) @ pad 2 (z mod 60)"
    by (simp add: format_stamp_def format_datetime_def d c y(1) show_zone_def Let_def z_def [symmetric] sg_def)
  have "digits_at 0 4 (format_stamp off sec) = nat y" "digits_at 5 2 (format_stamp off sec) = m" "digits_at 8 2 (format_stamp off sec) = d"
      "digits_at 11 2 (format_stamp off sec) = h" "digits_at 14 2 (format_stamp off sec) = mi" "digits_at 17 2 (format_stamp off sec) = s"
      "digits_at 21 2 (format_stamp off sec) = z div 60" "digits_at 23 2 (format_stamp off sec) = z mod 60"
    using len by (simp_all add: digits_at_def f)
  moreover have "format_stamp off sec ! 20 = sg" using len by (simp add: f nth_append)
  moreover have "int (z div 60 * 3600 + z mod 60 * 60) = \<bar>off\<bar>"
  proof -
    have "z div 60 * 3600 + z mod 60 * 60 = z * 60" using div_mult_mod_eq [of z 60] by linarith
    then show ?thesis using z by (metis of_nat_mult of_nat_numeral)
  qed
  moreover have "(if sg = CHR ''-'' then - \<bar>off\<bar> else \<bar>off\<bar>) = off" using z by (auto simp: sg_def)
  ultimately show ?thesis
    using db(1) cb(4) assms(1) d unfolding parse_stamp_def Let_def by (simp add: minus_mult_div_eq_mod) presburger
qed

end
