(* ===== verification/Time_Order.thy ===== *)
theory Time_Order
  imports Go_Time
begin

text \<open>
  The order of times as texts: the layout \<^verbatim>\<open>2006-01-02 15:04:05\<close> has its fields from the longest to the shortest, each with a fixed width, so
  that the texts of two local times compare as the times do, for years of four digits.
\<close>

section \<open>Comparison byte by byte\<close>

fun text_le :: "string \<Rightarrow> string \<Rightarrow> bool" where
  "text_le [] t = True"
| "text_le (a # s) [] = False"
| "text_le (a # s) (b # t) = ((of_char a :: nat) < of_char b \<or> a = b \<and> text_le s t)"

lemma text_le_append:
  "length x = length y \<Longrightarrow> text_le (x @ s) (y @ t) = (if x = y then text_le s t else text_le x y)"
  by (induction x y rule: list_induct2) auto

lemma text_le_same [simp]: "text_le (x @ s) (x @ t) = text_le s t"
  by (simp add: text_le_append)

lemma text_le_refl [simp]: "text_le x x"
  by (induction x) auto

lemma read_digits_shift: "read_digits a x = a * 10 ^ length x + read_digits 0 x"
proof (induction x arbitrary: a)
  case (Cons c x)
  from Cons.IH [of "10 * a + digit_val c"] Cons.IH [of "digit_val c"] show ?case by (simp add: algebra_simps)
qed simp

lemma read_digits_less: "list_all is_digit x \<Longrightarrow> read_digits 0 x < 10 ^ length x"
proof (induction x)
  case (Cons c x)
  then have "digit_val c \<le> 9" and "read_digits 0 x < 10 ^ length x" by (auto simp: is_digit_def digit_val_def)
  moreover have "digit_val c * 10 ^ length x \<le> 9 * 10 ^ length x" using \<open>digit_val c \<le> 9\<close> by (rule mult_le_mono1)
  ultimately have "digit_val c * 10 ^ length x + read_digits 0 x < 10 * 10 ^ length x" by linarith
  then show ?case using read_digits_shift [of "digit_val c" x] by simp
qed simp

text \<open>Numbers of one width compare as their texts.\<close>

lemma text_le_digits:
  assumes "length x = length y" and "list_all is_digit x" and "list_all is_digit y"
  shows "text_le x y \<longleftrightarrow> read_digits 0 x \<le> read_digits 0 y"
  using assms
proof (induction x y rule: list_induct2)
  case (Cons a x b y)
  let ?n = "10 ^ length x :: nat"
  have r: "read_digits 0 (a # x) = digit_val a * ?n + read_digits 0 x" "read_digits 0 (b # y) = digit_val b * ?n + read_digits 0 y"
    using read_digits_shift [of "digit_val a" x] read_digits_shift [of "digit_val b" y] Cons.hyps by simp_all
  have l: "read_digits 0 x < ?n" "read_digits 0 y < ?n"
    using read_digits_less Cons.prems Cons.hyps by (simp_all, metis)
  have v: "(of_char a :: nat) = digit_val a + 48" "(of_char b :: nat) = digit_val b + 48"
    using Cons.prems by (auto simp: is_digit_def digit_val_def)
  consider "digit_val a < digit_val b" | "digit_val a = digit_val b" | "digit_val b < digit_val a" by linarith
  then show ?case
  proof cases
    case 1
    then have "Suc (digit_val a) * ?n \<le> digit_val b * ?n" by (intro mult_le_mono1) simp
    with 1 l r v show ?thesis by simp
  next
    case 2
    then have "a = b" using v by (metis of_char_eq_iff)
    with Cons 2 r show ?thesis by simp
  next
    case 3
    then have "Suc (digit_val b) * ?n \<le> digit_val a * ?n" by (intro mult_le_mono1) simp
    moreover have "a \<noteq> b" using 3 by auto
    ultimately show ?thesis using 3 l r v by simp
  qed
qed simp

lemma pad_digits: "list_all is_digit (pad w n)"
  by (auto simp: pad_def list_all_iff is_digit_def dest: show_nat_digits)

text \<open>Two texts that begin with numbers of one width.\<close>

lemma text_le_pad:
  assumes "m < 10 ^ w" and "n < 10 ^ w" and "0 < w"
  shows "text_le (pad w m @ s) (pad w n @ t) \<longleftrightarrow> m < n \<or> m = n \<and> text_le s t"
proof -
  have "length (pad w m) = length (pad w n)" using assms by (simp add: length_pad)
  moreover from this have "text_le (pad w m) (pad w n) \<longleftrightarrow> m \<le> n" using text_le_digits [OF _ pad_digits pad_digits] by simp
  moreover have "pad w m = pad w n \<longleftrightarrow> m = n" by (metis read_pad)
  ultimately show ?thesis by (auto simp: text_le_append)
qed

lemmas text_le_fields = text_le_pad [of _ 2, simplified] text_le_pad [of _ 4, simplified]

section \<open>The calendar grows\<close>

lemma div_step:
  fixes y n :: int
  assumes "0 < n"
  shows "y div n = (y - 1) div n + (if y mod n = 0 then 1 else 0)"
proof -
  define q r where "q = y div n" and "r = y mod n"
  have y: "y = n * q + r" "0 \<le> r" "r < n" using assms by (simp_all add: q_def r_def)
  show ?thesis
  proof (cases "r = 0")
    case True
    have "(y - 1) div n = q - 1"
      using y True assms by (intro int_div_pos_eq [where r = "n - 1"]) (simp_all add: algebra_simps)
    with True show ?thesis by (simp add: q_def r_def)
  next
    case False
    have "(y - 1) div n = q" using y False by (intro int_div_pos_eq [where r = "r - 1"]) simp_all
    with False show ?thesis by (simp add: q_def r_def)
  qed
qed

lemma year_start_next: "year_start (y + 1) = year_start y + (if leap y then 366 else 365)"
proof -
  have m: "(4 :: int) dvd 100" "(100 :: int) dvd 400" by simp_all
  have d: "4 dvd y" if "100 dvd y" using that by (rule dvd_trans [OF m(1)])
  have e: "100 dvd y" if "400 dvd y" using that by (rule dvd_trans [OF m(2)])
  have "leap y \<longleftrightarrow> 4 dvd y \<and> (\<not> 100 dvd y \<or> 400 dvd y)" by (simp add: leap_def dvd_eq_mod_eq_0)
  moreover have "year_start (y + 1) = year_start y + 365 + (if 4 dvd y then 1 else 0) - (if 100 dvd y then 1 else 0) + (if 400 dvd y then 1 else 0)"
  proof -
    have s: "y div n = (y - 1) div n + (if n dvd y then 1 else 0)" if "0 < n" for n :: int
      using div_step [OF that, of y] by (simp only: dvd_eq_mod_eq_0)
    have "y + 1 - 1 = y" "365 * y = 365 * (y - 1) + 365" by simp_all
    then show ?thesis unfolding year_start_def using s [of 4] s [of 100] s [of 400] by (simp only:)
  qed
  ultimately show ?thesis using d e by (cases "100 dvd y"; cases "400 dvd y"; cases "4 dvd y") simp_all
qed

lemma year_start_mono: "y \<le> y' \<Longrightarrow> year_start y \<le> year_start y'"
proof (induction y' rule: int_ge_induct)
  case (step i)
  then show ?case using year_start_next [of i] by (auto split: if_splits)
qed simp

text \<open>What a date says of its day: where its year begins and ends, and where its month does.\<close>

lemma date_parts:
  assumes "date n = (y, m, d)"
  shows "year_start y \<le> n" and "n < year_start (y + 1)"
    and "n = year_start y + int (sum_list (take (m - 1) (month_days (leap y)))) + int d - 1"
    and "n < year_start y + int (sum_list (take m (month_days (leap y))))" and "1 \<le> m" and "1 \<le> d"
proof -
  obtain yd where yd: "year_day n = (y, yd)" and md: "month_day 1 (month_days (leap y)) (nat yd) = (m, d)"
    using assms by (auto simp: date_def split: prod.splits)
  note b = year_day_bounds [OF yd] and e = date_day_number [OF assms]
  show "year_start y \<le> n" using b by simp
  show "n < year_start (y + 1)" unfolding year_start_next using b by (auto split: if_splits)
  show "1 \<le> m" "1 \<le> d" using e by simp_all
  have "nat yd < sum_list (month_days (leap y))" using b(2,3) by (auto simp: month_days_def split: if_splits)
  note c = month_day_bounds [OF md this]
  show "n = year_start y + int (sum_list (take (m - 1) (month_days (leap y)))) + int d - 1"
    using b(1,2) c by linarith
  have "m - 1 < length (month_days (leap y))" using c e(2) by linarith
  then have "sum_list (take m (month_days (leap y))) = sum_list (take (m - 1) (month_days (leap y))) + month_days (leap y) ! (m - 1)"
    using take_Suc_conv_app_nth [of "m - 1" "month_days (leap y)"] e(2) by simp
  with b(1,2) c show "n < year_start y + int (sum_list (take m (month_days (leap y))))" by linarith
qed

lemma sum_take_mono:
  fixes ks :: "nat list"
  assumes "i \<le> j"
  shows "sum_list (take i ks) \<le> sum_list (take j ks)"
proof -
  have "take j ks = take i ks @ take (j - i) (drop i ks)"
    using assms take_add [of i "j - i" ks] by simp
  then show ?thesis by simp
qed

lemma date_less:
  assumes "date n = (y, m, d)" and "date n' = (y', m', d')" and "n < n'"
  shows "y < y' \<or> y = y' \<and> (m < m' \<or> m = m' \<and> d < d')"
proof -
  note p = date_parts [OF assms(1)] and q = date_parts [OF assms(2)]
  have "\<not> y' < y"
  proof
    assume "y' < y"
    then have "year_start (y' + 1) \<le> year_start y" by (intro year_start_mono) simp
    with p(1) q(2) assms(3) show False by simp
  qed
  moreover have "\<not> m' < m" if "y = y'"
  proof
    assume "m' < m"
    then have "sum_list (take m' (month_days (leap y))) \<le> sum_list (take (m - 1) (month_days (leap y)))" by (intro sum_take_mono) simp
    with p(3,6) q(4) assms(3) that show False by simp
  qed
  moreover have "d < d'" if "y = y'" "m = m'" using p(3) q(3) assms(3) that by simp
  ultimately show ?thesis by linarith
qed

lemma clock_less:
  assumes "clock_at a = (h, m, s)" and "clock_at b = (h', m', s')" and "a mod 86400 < b mod 86400"
  shows "h < h' \<or> h = h' \<and> (m < m' \<or> m = m' \<and> s < s')"
proof -
  note p = clock_at_bounds [OF assms(1)] and q = clock_at_bounds [OF assms(2)]
  have "h * 3600 + m * 60 + s < h' * 3600 + m' * 60 + s'" using p(4) q(4) assms(3) by linarith
  with p q show ?thesis by linarith
qed

section \<open>The texts of local times\<close>

definition four_digit_year :: "int \<Rightarrow> bool" where
  "four_digit_year local \<longleftrightarrow> 0 \<le> fst (date_at local) \<and> fst (date_at local) \<le> 9999"

lemma format_datetime_less:
  assumes "four_digit_year a" and "four_digit_year b" and "a < b"
  shows "text_le (format_datetime a @ s) (format_datetime b @ t)" and "\<not> text_le (format_datetime b @ t) (format_datetime a @ s)"
proof -
  obtain y m d where d: "date_at a = (y, m, d)" by (cases "date_at a")
  obtain y' m' d' where d': "date_at b = (y', m', d')" by (cases "date_at b")
  obtain h mi sc where c: "clock_at a = (h, mi, sc)" by (cases "clock_at a")
  obtain h' mi' sc' where c': "clock_at b = (h', mi', sc')" by (cases "clock_at b")
  note n = date_day_number [OF d [unfolded date_at_def]] clock_at_bounds [OF c]
    and n' = date_day_number [OF d' [unfolded date_at_def]] clock_at_bounds [OF c']
  have yb: "0 \<le> y" "y \<le> 9999" "0 \<le> y'" "y' \<le> 9999" using assms(1,2) d d' by (simp_all add: four_digit_year_def)
  have less: "(y, m, d) \<noteq> (y', m', d') \<and> (y < y' \<or> y = y' \<and> (m < m' \<or> m = m' \<and> d < d')) \<or>
      (y, m, d) = (y', m', d') \<and> (h < h' \<or> h = h' \<and> (mi < mi' \<or> mi = mi' \<and> sc < sc'))"
  proof (cases "a div 86400 < b div 86400")
    case True
    then have "a div 86400 + epoch_day < b div 86400 + epoch_day" by simp
    from date_less [OF d [unfolded date_at_def] d' [unfolded date_at_def] this] show ?thesis by auto
  next
    case False
    moreover have "a div 86400 \<le> b div 86400" using assms(3) by (intro zdiv_mono1) simp_all
    ultimately have e: "a div 86400 = b div 86400" by simp
    then have "a mod 86400 < b mod 86400" using assms(3) div_mult_mod_eq [of a 86400] div_mult_mod_eq [of b 86400] by linarith
    from clock_less [OF c c' this] e d d' show ?thesis by (auto simp: date_at_def)
  qed
  have y: "show_year y = pad 4 (nat y)" "show_year y' = pad 4 (nat y')" "nat y < 10 ^ 4" "nat y' < 10 ^ 4"
    using yb by (simp_all add: show_year_def)
  have p: "m < 10 ^ 2" "d < 10 ^ 2" "h < 10 ^ 2" "mi < 10 ^ 2" "sc < 10 ^ 2" using n by simp_all
  have p': "m' < 10 ^ 2" "d' < 10 ^ 2" "h' < 10 ^ 2" "mi' < 10 ^ 2" "sc' < 10 ^ 2" using n' by simp_all
  have f: "format_datetime a = pad 4 (nat y) @ ''-'' @ pad 2 m @ ''-'' @ pad 2 d @ '' '' @ pad 2 h @ '':'' @ pad 2 mi @ '':'' @ pad 2 sc"
    "format_datetime b = pad 4 (nat y') @ ''-'' @ pad 2 m' @ ''-'' @ pad 2 d' @ '' '' @ pad 2 h' @ '':'' @ pad 2 mi' @ '':'' @ pad 2 sc'"
    by (simp_all add: format_datetime_def d c d' c' y)
  obtain k k' where k: "y = int k" "y' = int k'" using yb by (metis nonneg_int_cases)
  show "text_le (format_datetime a @ s) (format_datetime b @ t)"
    using less p p' y(3,4) unfolding f k by (auto simp: text_le_fields)
  show "\<not> text_le (format_datetime b @ t) (format_datetime a @ s)"
    using less p p' y(3,4) unfolding f k by (auto simp: text_le_fields)
qed

end
