(* ===== verification/Store_SQLite.thy ===== *)
theory Store_SQLite
  imports Store Time_Order
begin

text \<open>
  The SQL store over \<^verbatim>\<open>modernc.org/sqlite\<close>, which \<^verbatim>\<open>server/store/sqlite3\<close> registers as the driver \<^verbatim>\<open>sqlite3\<close>. The driver documents that a
  time is written as the text of \<^verbatim>\<open>time.Time.String\<close> unless the name of the data source asks for another format, which the one that
  \<^verbatim>\<open>newSQLStore\<close> passes does not; SQLite compares such texts byte by byte, and gives text columns as strings.
\<close>

section \<open>Times as texts\<close>

text \<open>
  The text of a time begins with its date and its time of day in its location. What follows the second, a fraction, the zone and the reading of the
  monotonic clock, is \<open>rest\<close>; \<open>zone\<close> gives the offset of the local time zone at a second.
\<close>

fun offset :: "(int \<Rightarrow> int) \<Rightarrow> location \<Rightarrow> int \<Rightarrow> int" where
  "offset zone Local sec = zone sec"
| "offset zone UTC sec = 0"

definition shown_second :: "(int \<Rightarrow> int) \<Rightarrow> location \<Rightarrow> time \<Rightarrow> int" where
  "shown_second zone l t = t div nano + offset zone l (t div nano)"

definition time_String :: "(int \<Rightarrow> int) \<Rightarrow> (location \<Rightarrow> time \<Rightarrow> string) \<Rightarrow> location \<Rightarrow> time \<Rightarrow> string" where
  "time_String zone rest l t = format_datetime (shown_second zone l t) @ rest l t"

definition text_times :: "(int \<Rightarrow> int) \<Rightarrow> (location \<Rightarrow> time \<Rightarrow> string) \<Rightarrow> sql_env \<Rightarrow> bool" where
  "text_times zone rest env \<longleftrightarrow>
     (\<forall>l t l' t'. sql_time_le env (l, t) (l', t') \<longleftrightarrow> text_le (time_String zone rest l t) (time_String zone rest l' t'))"

lemma text_times_le:
  assumes "text_times zone rest env" and "four_digit_year (shown_second zone l t)" and "four_digit_year (shown_second zone l' t')"
    and "shown_second zone l t \<noteq> shown_second zone l' t'"
  shows "sql_time_le env (l, t) (l', t') \<longleftrightarrow> shown_second zone l t < shown_second zone l' t'"
proof (cases "shown_second zone l t < shown_second zone l' t'")
  case True
  with assms(1) format_datetime_less(1) [OF assms(2,3)] show ?thesis by (simp add: text_times_def time_String_def)
next
  case False
  with assms(4) have "shown_second zone l' t' < shown_second zone l t" by simp
  with assms(1) format_datetime_less(2) [OF assms(3,2)] show ?thesis by (simp add: text_times_def time_String_def)
qed

section \<open>Reading rows whose text columns come as strings\<close>

lemma scan_rows_strings:
  assumes "\<not> as_bytes env"
  shows "\<exists>rs'. scan_rows env rs = Inr rs' \<and> map rec_KeyID rs' = map row_key_id rs"
proof (induction rs)
  case (Cons r rs)
  then obtain rs' where "scan_rows env rs = Inr rs'" "map rec_KeyID rs' = map row_key_id rs" by blast
  moreover obtain x where "scan_row env r = Inr x" "rec_KeyID x = row_key_id r"
    using assms by (simp add: scan_row_def column_def StringSlice_Scan_def ConvertValue_def)
  ultimately show ?case by simp
qed simp

lemma Query_strings:
  assumes "\<not> as_bytes env" and "exec env (calls w) = Healthy"
  obtains rs where "Query env c d w = (Inr rs, w\<lparr>calls := Suc (calls w)\<rparr>)"
    and "map rec_KeyID rs = map row_key_id (filter (holds env c) (rows d))"
  using assms scan_rows_strings [of env "filter (holds env c) (rows d)"] by (auto simp: Query_def)

lemma key_of_rows:
  assumes "distinct (map row_key_id (rows d))" and "r \<in> set (rows d)" and "map rec_KeyID rs = map row_key_id (filter P (rows d))"
  shows "row_key_id r \<in> rec_KeyID ` set rs \<longleftrightarrow> P r"
proof -
  have "row_key_id r \<in> rec_KeyID ` set rs \<longleftrightarrow> row_key_id r \<in> row_key_id ` set (filter P (rows d))"
    using assms(3) by (metis list.set_map)
  also have "\<dots> \<longleftrightarrow> P r"
  proof
    assume "row_key_id r \<in> row_key_id ` set (filter P (rows d))"
    then obtain r' where "r' \<in> set (rows d)" "P r'" "row_key_id r' = row_key_id r" by auto
    with assms(1,2) show "P r" by (metis distinct_map inj_onD)
  qed (use assms(2) in auto)
  finally show ?thesis .
qed

text \<open>The connection answers the two calls of an operation.\<close>

definition answers :: "sql_env \<Rightarrow> db \<Rightarrow> world \<Rightarrow> bool" where
  "answers env d w \<longleftrightarrow> \<not> is_closed d \<and> ping env (calls w) = None \<and> exec env (Suc (calls w)) = Healthy"

lemma answers_select:
  assumes "\<not> as_bytes env" and "answers env d w" and "distinct (map row_key_id (rows d))" and "r \<in> set (rows d)"
  shows "Ping env d w = (None, w\<lparr>calls := Suc (calls w)\<rparr>) \<and>
    (\<exists>rs w'. Query env c d (w\<lparr>calls := Suc (calls w), ticks := n\<rparr>) = (Inr rs, w') \<and> (row_key_id r \<in> rec_KeyID ` set rs \<longleftrightarrow> holds env c r))"
proof -
  let ?w = "w\<lparr>calls := Suc (calls w), ticks := n\<rparr>"
  have a: "Ping env d w = (None, w\<lparr>calls := Suc (calls w)\<rparr>)" "exec env (calls ?w) = Healthy"
    using assms(2) by (simp_all add: answers_def Ping_def)
  obtain rs where q: "Query env c d ?w = (Inr rs, ?w\<lparr>calls := Suc (calls ?w)\<rparr>)"
      "map rec_KeyID rs = map row_key_id (filter (holds env c) (rows d))"
    by (rule Query_strings [OF assms(1) a(2)])
  from key_of_rows [OF assms(3,4) q(2)] q(1) a(1) show ?thesis by blast
qed

section \<open>Properties\<close>

text \<open>
  C20: with SQLite, whether a revoked certificate is in the list of revoked ones depends on the time zone of the server: the text of the present time is in UTC and the
  recorded expiry is in local time, so that the certificate is listed exactly until the second of UTC passes the local second of its expiry. West of
  Greenwich it leaves the list before it expires, by as much as the zone is behind.
\<close>

theorem sqlite_revoked_until:
  assumes "text_times zone rest env" and "\<not> as_bytes env" and "answers env d w"
    and "distinct (map row_key_id (rows d))" and "r \<in> set (rows d)" and "row_revoked r"
    and "now = clk (ticks w) div nano" and "expiry = row_expires_at r div nano"
    and "four_digit_year now" and "four_digit_year (expiry + zone expiry)" and "now \<noteq> expiry + zone expiry"
  shows "\<exists>w' rs. sqlStore_GetRevoked env clk d w = (Return (Inr rs), d, w') \<and>
    (row_key_id r \<in> rec_KeyID ` set rs \<longleftrightarrow> now < expiry + zone expiry)"
proof -
  let ?c = "CRevokedFrom (UTC, clk (ticks w))"
  have s: "shown_second zone UTC (clk (ticks w)) = now" "shown_second zone Local (row_expires_at r) = expiry + zone expiry"
    using assms(7,8) by (simp_all add: shown_second_def)
  have h: "holds env ?c r \<longleftrightarrow> now < expiry + zone expiry"
    using text_times_le [OF assms(1), of UTC "clk (ticks w)" Local "row_expires_at r"] assms(6,9-11) unfolding s by simp
  from answers_select [OF assms(2-5), of ?c "Suc (ticks w)"] h show ?thesis by (auto simp: sqlStore_GetRevoked_def)
qed

text \<open>New York in winter, five hours behind: a revoked certificate that is good for one more hour is not in the list.\<close>

definition wsqlite :: sql_env where
  "wsqlite = wenv\<lparr>as_bytes := False,
     sql_time_le := (\<lambda>(l, t) (l', t'). text_le (time_String (\<lambda>_. - 18000) (\<lambda>_ _. '''') l t) (time_String (\<lambda>_. - 18000) (\<lambda>_ _. '''') l' t'))\<rparr>"

definition wrevoked_db :: db where
  "wrevoked_db = wdb\<lparr>rows := [\<lparr>row_id = 1, row_key_id = ''alice_1'', row_principals = json_Marshal [''alice''], row_created_at = 0,
     row_expires_at = 1491908400 * nano, row_revoked = True, row_raw_key = ''raw'', row_message = ''''\<rparr>]\<rparr>"

lemma wyear: "four_digit_year 1491904800" "four_digit_year 1491890400"
  by (simp_all add: four_digit_year_def date_at_def date_def year_day_def Let_def epoch_day_def)

theorem sqlite_revoked_until_witness:
  "\<exists>w' rs. sqlStore_GetRevoked wsqlite (\<lambda>_. 1491904800 * nano) wrevoked_db world0 = (Return (Inr rs), wrevoked_db, w') \<and>
     ''alice_1'' \<notin> rec_KeyID ` set rs"
proof -
  have n: "1491904800 * nano div nano = 1491904800" "1491908400 * nano div nano = 1491908400" by (simp_all add: nano_def)
  have "text_times (\<lambda>_. - 18000) (\<lambda>_ _. '''') wsqlite" by (simp add: text_times_def wsqlite_def)
  from sqlite_revoked_until [OF this, of wrevoked_db world0 _ 1491904800 "\<lambda>_. 1491904800 * nano" 1491908400] show ?thesis
    by (simp add: n wyear answers_def wsqlite_def wrevoked_db_def wenv_def wdb_def)
qed

text \<open>The list of current certificates compares local times, so that it is right as long as the offset of the zone does not change.\<close>

theorem sqlite_current_until:
  assumes "text_times zone rest env" and "\<not> as_bytes env" and "answers env d w"
    and "distinct (map row_key_id (rows d))" and "r \<in> set (rows d)"
    and "now = clk (ticks w) div nano" and "expiry = row_expires_at r div nano" and "zone now = zone expiry"
    and "four_digit_year (now + zone now)" and "four_digit_year (expiry + zone expiry)" and "now \<noteq> expiry"
  shows "\<exists>w' rs. sqlStore_List env clk False d w = (Return (Inr rs), d, w') \<and> (row_key_id r \<in> rec_KeyID ` set rs \<longleftrightarrow> now < expiry)"
proof -
  let ?c = "CExpiresFrom (Local, clk (ticks w))"
  have s: "shown_second zone Local (clk (ticks w)) = now + zone now" "shown_second zone Local (row_expires_at r) = expiry + zone expiry"
    using assms(6,7) by (simp_all add: shown_second_def)
  have h: "holds env ?c r \<longleftrightarrow> now < expiry"
    using text_times_le [OF assms(1), of Local "clk (ticks w)" Local "row_expires_at r"] assms(8-11) unfolding s by simp
  from answers_select [OF assms(2-5), of ?c "Suc (ticks w)"] h show ?thesis by (auto simp: sqlStore_List_def)
qed

end
