(* ===== verification/SQL_DDL.thy ===== *)
theory SQL_DDL
  imports Go_Prelude "HOL-Library.Multiset"
begin

text \<open>
  The part of SQL that the files of \<^verbatim>\<open>server/store/migrations\<close> and the statements of the SQL store use, in the two dialects: tables with their rows,
  indexes, and what a statement does to them or that it fails. The order in which a table is read is a parameter, \<open>scan\<close>.
\<close>

section \<open>Tables\<close>

datatype dialect = MySQL | SQLite

datatype sqlval = VNull | VInt int | VText string | VTime time

datatype coltype = TInt | TTinyint | TVarchar nat | TText | TDatetime

text \<open>An automatic column is numbered by the database where an insertion gives it no value.\<close>

record coldef =
  c_name :: string
  c_type :: coltype
  c_notnull :: bool
  c_default :: "sqlval option"
  c_unique :: bool
  c_auto :: bool

type_synonym trow = "string \<Rightarrow> sqlval"

record tbl =
  t_cols :: "coldef list"
  t_pkey :: "string list"
  t_rows :: "trow list"
  t_next :: int

record sql_index =
  ix_name :: string
  ix_table :: string
  ix_cols :: "string list"
  ix_unique :: bool

record catalog =
  tables :: "(string \<times> tbl) list"
  indexes :: "sql_index list"

definition find_col :: "tbl \<Rightarrow> string \<Rightarrow> coldef option" where
  "find_col t n = find (\<lambda>c. c_name c = n) (t_cols t)"

definition has_cols :: "tbl \<Rightarrow> string list \<Rightarrow> bool" where
  "has_cols t ns = list_all (\<lambda>n. n \<in> set (map c_name (t_cols t))) ns"

definition put_table :: "string \<Rightarrow> tbl \<Rightarrow> catalog \<Rightarrow> catalog" where
  "put_table name t cat = cat\<lparr>tables := map (\<lambda>(n, u). (n, if n = name then t else u)) (tables cat)\<rparr>"

text \<open>The name of an index is one of its table in MySQL and one of the database in SQLite.\<close>

definition index_taken :: "dialect \<Rightarrow> catalog \<Rightarrow> string \<Rightarrow> string \<Rightarrow> bool" where
  "index_taken d cat tname name = list_ex (\<lambda>ix. ix_name ix = name \<and> (d = MySQL \<longrightarrow> ix_table ix = tname)) (indexes cat)"

text \<open>The lists of columns that have to differ between any two rows.\<close>

definition unique_keys :: "catalog \<Rightarrow> string \<Rightarrow> tbl \<Rightarrow> string list list" where
  "unique_keys cat tname t =
     (if t_pkey t = [] then [] else [t_pkey t]) @ map (\<lambda>c. [c_name c]) (filter c_unique (t_cols t)) @
     map ix_cols (filter (\<lambda>ix. ix_table ix = tname \<and> ix_unique ix) (indexes cat))"

definition same_key :: "string list \<Rightarrow> trow \<Rightarrow> trow \<Rightarrow> bool" where
  "same_key k r r' = list_all (\<lambda>n. r n = r' n \<and> r n \<noteq> VNull) k"

section \<open>Rows\<close>

text \<open>MySQL refuses a text that is longer than its column; SQLite keeps no such limit.\<close>

fun fits :: "dialect \<Rightarrow> coltype \<Rightarrow> sqlval \<Rightarrow> bool" where
  "fits MySQL (TVarchar n) (VText s) = (length s \<le> n)"
| "fits MySQL TText (VText s) = (length s < 65536)"
| "fits _ _ _ = True"

definition new_row :: "tbl \<Rightarrow> (string \<times> sqlval) list \<Rightarrow> trow" where
  "new_row t vals n =
     (case find_col t n of
        None \<Rightarrow> VNull
      | Some c \<Rightarrow>
          (case map_of vals n of
             Some v \<Rightarrow> v
           | None \<Rightarrow> if c_auto c then VInt (t_next t) else case c_default c of Some v \<Rightarrow> v | None \<Rightarrow> VNull))"

definition row_ok :: "dialect \<Rightarrow> string list list \<Rightarrow> tbl \<Rightarrow> trow \<Rightarrow> bool" where
  "row_ok d keys t r \<longleftrightarrow>
     list_all (\<lambda>c. (c_notnull c \<longrightarrow> r (c_name c) \<noteq> VNull) \<and> fits d (c_type c) (r (c_name c))) (t_cols t) \<and>
     list_all (\<lambda>k. \<not> list_ex (same_key k r) (t_rows t)) keys"

text \<open>One row of an \<^verbatim>\<open>INSERT\<close>.\<close>

definition insert_values :: "dialect \<Rightarrow> string list list \<Rightarrow> (string \<times> sqlval) list \<Rightarrow> tbl \<Rightarrow> error + tbl" where
  "insert_values d keys vals t =
     (let r = new_row t vals
      in if has_cols t (map fst vals) \<and> row_ok d keys t r then Inr (t\<lparr>t_rows := t_rows t @ [r], t_next := t_next t + 1\<rparr>)
         else Inl (ENew ''constraint failed''))"

fun insert_all :: "dialect \<Rightarrow> string list list \<Rightarrow> (string \<times> sqlval) list list \<Rightarrow> tbl \<Rightarrow> error + tbl" where
  "insert_all d keys [] t = Inr t"
| "insert_all d keys (v # vs) t = (case insert_values d keys v t of Inl e \<Rightarrow> Inl e | Inr t' \<Rightarrow> insert_all d keys vs t')"

text \<open>The value of a new column in the rows there are: MySQL has an implicit default for a column that is not null.\<close>

definition added_value :: "dialect \<Rightarrow> coldef \<Rightarrow> error + sqlval" where
  "added_value d c =
     (case c_default c of
        Some v \<Rightarrow> Inr v
      | None \<Rightarrow>
          if \<not> c_notnull c then Inr VNull
          else if d = MySQL then Inr (case c_type c of TInt \<Rightarrow> VInt 0 | TTinyint \<Rightarrow> VInt 0 | _ \<Rightarrow> VText '''')
          else Inl (ENew ''Cannot add a NOT NULL column with default value NULL''))"

fun number_rows :: "string \<Rightarrow> int \<Rightarrow> trow list \<Rightarrow> trow list" where
  "number_rows n i [] = []"
| "number_rows n i (r # rs) = r(n := VInt i) # number_rows n (i + 1) rs"

section \<open>Statements\<close>

datatype alteration =
    DropPrimaryKey
  | AddPrimaryKey "string list"
  | AddColumn coldef bool bool
  | DropColumn string
  | AddIndex string "string list" bool
  | DropIndexOf string

text \<open>\<open>AddColumn c primary first\<close>; \<open>CreateTable\<close> says whether an existing table is left alone.\<close>

datatype statement =
    CreateTable bool string "coldef list" "string list"
  | CreateIndex string string "string list"
  | DropIndex string
  | DropTable string
  | RenameTable string string
  | InsertSelect string "string list" string
  | AlterTable string "alteration list"

definition add_index :: "dialect \<Rightarrow> string \<Rightarrow> string \<Rightarrow> string list \<Rightarrow> bool \<Rightarrow> catalog \<Rightarrow> error + catalog" where
  "add_index d tname name cols unique cat =
     (case map_of (tables cat) tname of
        None \<Rightarrow> Inl (ENew ''no such table'')
      | Some t \<Rightarrow>
          if index_taken d cat tname name then Inl (ENew ''Duplicate key name'')
          else if \<not> has_cols t cols then Inl (ENew ''no such column'')
          else if unique \<and> \<not> distinct (map (\<lambda>r. map r cols) (filter (\<lambda>r. VNull \<notin> set (map r cols)) (t_rows t))) then Inl (ENew ''Duplicate entry'')
          else Inr (cat\<lparr>indexes := indexes cat @ [\<lparr>ix_name = name, ix_table = tname, ix_cols = cols, ix_unique = unique\<rparr>]\<rparr>))"

fun alter :: "(trow list \<Rightarrow> trow list) \<Rightarrow> dialect \<Rightarrow> string \<Rightarrow> alteration \<Rightarrow> catalog \<Rightarrow> error + catalog" where
  "alter scan d tname DropPrimaryKey cat =
     (case map_of (tables cat) tname of
        None \<Rightarrow> Inl (ENew ''no such table'')
      | Some t \<Rightarrow> if t_pkey t = [] then Inl (ENew ''Cannot drop PRIMARY'') else Inr (put_table tname (t\<lparr>t_pkey := []\<rparr>) cat))"
| "alter scan d tname (AddPrimaryKey cols) cat =
     (case map_of (tables cat) tname of
        None \<Rightarrow> Inl (ENew ''no such table'')
      | Some t \<Rightarrow>
          if t_pkey t \<noteq> [] then Inl (ENew ''Multiple primary key defined'')
          else if \<not> has_cols t cols then Inl (ENew ''no such column'')
          else if \<not> distinct (map (\<lambda>r. map r cols) (t_rows t)) then Inl (ENew ''Duplicate entry'')
          else Inr (put_table tname (t\<lparr>t_pkey := cols\<rparr>) cat))"
| "alter scan d tname (AddColumn c primary first) cat =
     (case map_of (tables cat) tname of
        None \<Rightarrow> Inl (ENew ''no such table'')
      | Some t \<Rightarrow>
          if has_cols t [c_name c] then Inl (ENew ''Duplicate column name'')
          else if primary \<and> t_pkey t \<noteq> [] then Inl (ENew ''Multiple primary key defined'')
          else
            (let t = t\<lparr>t_cols := (if first then c # t_cols t else t_cols t @ [c]), t_pkey := (if primary then [c_name c] else t_pkey t)\<rparr>
             in if c_auto c then
                  Inr (put_table tname (t\<lparr>t_rows := number_rows (c_name c) 1 (scan (t_rows t)), t_next := 1 + int (length (t_rows t))\<rparr>) cat)
                else case added_value d c of
                       Inl e \<Rightarrow> Inl e
                     | Inr v \<Rightarrow> Inr (put_table tname (t\<lparr>t_rows := map (\<lambda>r. r(c_name c := v)) (t_rows t)\<rparr>) cat)))"
| "alter scan d tname (DropColumn n) cat =
     (case map_of (tables cat) tname of
        None \<Rightarrow> Inl (ENew ''no such table'')
      | Some t \<Rightarrow>
          if \<not> has_cols t [n] then Inl (ENew ''no such column'')
          else Inr (put_table tname (t\<lparr>t_cols := filter (\<lambda>c. c_name c \<noteq> n) (t_cols t), t_rows := map (\<lambda>r. r(n := VNull)) (t_rows t)\<rparr>) cat))"
| "alter scan d tname (AddIndex name cols unique) cat = add_index d tname name cols unique cat"
| "alter scan d tname (DropIndexOf name) cat =
     (if index_taken MySQL cat tname name
      then Inr (cat\<lparr>indexes := filter (\<lambda>ix. \<not> (ix_name ix = name \<and> ix_table ix = tname)) (indexes cat)\<rparr>)
      else Inl (ENew ''no such index''))"

fun alter_all :: "(trow list \<Rightarrow> trow list) \<Rightarrow> dialect \<Rightarrow> string \<Rightarrow> alteration list \<Rightarrow> catalog \<Rightarrow> error + catalog" where
  "alter_all scan d tname [] cat = Inr cat"
| "alter_all scan d tname (a # as) cat = (case alter scan d tname a cat of Inl e \<Rightarrow> Inl e | Inr cat' \<Rightarrow> alter_all scan d tname as cat')"

text \<open>When the alterations of a statement are done, an automatic column has to be a key.\<close>

definition autos_keyed :: "tbl \<Rightarrow> bool" where
  "autos_keyed t = list_all (\<lambda>c. c_auto c \<longrightarrow> t_pkey t = [c_name c]) (t_cols t)"

fun exec_statement :: "(trow list \<Rightarrow> trow list) \<Rightarrow> dialect \<Rightarrow> statement \<Rightarrow> catalog \<Rightarrow> error + catalog" where
  "exec_statement scan d (CreateTable if_not_exists name cols pkey) cat =
     (case map_of (tables cat) name of
        Some _ \<Rightarrow> if if_not_exists then Inr cat else Inl (ENew ''table already exists'')
      | None \<Rightarrow> Inr (cat\<lparr>tables := tables cat @ [(name, \<lparr>t_cols = cols, t_pkey = pkey, t_rows = [], t_next = 1\<rparr>)]\<rparr>))"
| "exec_statement scan d (CreateIndex name tname cols) cat = add_index d tname name cols False cat"
| "exec_statement scan d (DropIndex name) cat =
     (if list_ex (\<lambda>ix. ix_name ix = name) (indexes cat) then Inr (cat\<lparr>indexes := filter (\<lambda>ix. ix_name ix \<noteq> name) (indexes cat)\<rparr>)
      else Inl (ENew ''no such index''))"
| "exec_statement scan d (DropTable name) cat =
     (if map_of (tables cat) name = None then Inl (ENew ''no such table'')
      else Inr (cat\<lparr>tables := filter (\<lambda>p. fst p \<noteq> name) (tables cat), indexes := filter (\<lambda>ix. ix_table ix \<noteq> name) (indexes cat)\<rparr>))"
| "exec_statement scan d (RenameTable a b) cat =
     (if map_of (tables cat) a = None then Inl (ENew ''no such table'')
      else if map_of (tables cat) b \<noteq> None then Inl (ENew ''table already exists'')
      else Inr (cat\<lparr>tables := map (\<lambda>(n, t). (if n = a then b else n, t)) (tables cat),
                    indexes := map (\<lambda>ix. if ix_table ix = a then ix\<lparr>ix_table := b\<rparr> else ix) (indexes cat)\<rparr>))"
| "exec_statement scan d (InsertSelect into cols src) cat =
     (case (map_of (tables cat) into, map_of (tables cat) src) of
        (Some t, Some s) \<Rightarrow>
          if \<not> has_cols s cols then Inl (ENew ''no such column'')
          else (case insert_all d (unique_keys cat into t) (map (\<lambda>r. map (\<lambda>n. (n, r n)) cols) (scan (t_rows s))) t of
                  Inl e \<Rightarrow> Inl e
                | Inr t' \<Rightarrow> Inr (put_table into t' cat))
      | _ \<Rightarrow> Inl (ENew ''no such table''))"
| "exec_statement scan d (AlterTable tname as) cat =
     (case alter_all scan d tname as cat of
        Inl e \<Rightarrow> Inl e
      | Inr cat' \<Rightarrow>
          (case map_of (tables cat') tname of
             Some t \<Rightarrow> if autos_keyed t then Inr cat' else Inl (ENew ''Incorrect table definition'')
           | None \<Rightarrow> Inl (ENew ''no such table'')))"

fun exec_all :: "(trow list \<Rightarrow> trow list) \<Rightarrow> dialect \<Rightarrow> statement list \<Rightarrow> catalog \<Rightarrow> error + catalog" where
  "exec_all scan d [] cat = Inr cat"
| "exec_all scan d (s # ss) cat = (case exec_statement scan d s cat of Inl e \<Rightarrow> Inl e | Inr cat' \<Rightarrow> exec_all scan d ss cat')"

section \<open>Facts\<close>

lemma exec_all_append:
  "exec_all scan d (xs @ ys) cat = (case exec_all scan d xs cat of Inl e \<Rightarrow> Inl e | Inr cat' \<Rightarrow> exec_all scan d ys cat')"
  by (induction xs arbitrary: cat) (simp_all split: sum.split)

lemma length_number_rows [simp]: "length (number_rows n i rs) = length rs"
  by (induction rs arbitrary: i) simp_all

lemma number_rows_other: "n \<notin> set cols \<Longrightarrow> map (\<lambda>r. map r cols) (number_rows n i rs) = map (\<lambda>r. map r cols) rs"
  by (induction rs arbitrary: i) auto

lemma number_rows_numbers: "map (\<lambda>r. r n) (number_rows n i rs) = map VInt (map (\<lambda>k. i + int k) [0..<length rs])"
proof (induction rs arbitrary: i)
  case (Cons r rs)
  have "map VInt (map (\<lambda>k. i + int k) [0..<Suc (length rs)]) = VInt i # map VInt (map (\<lambda>k. i + 1 + int k) [0..<length rs])"
    by (simp add: upt_conv_Cons map_Suc_upt [symmetric] comp_def algebra_simps del: upt_Suc)
  with Cons show ?case by simp
qed simp

end
