(* ===== verification/Schema.thy ===== *)
theory Schema
  imports Store SQL_DDL
begin

text \<open>
  \<^verbatim>\<open>server/store/migrations\<close>: the four migrations of each of the two databases, as the statements of their files, and what the SQL store relies on:
  the schema they lead to and that a database with certificates in it comes through them.
\<close>

section \<open>The migrations\<close>

definition col :: "string \<Rightarrow> coltype \<Rightarrow> bool \<Rightarrow> sqlval option \<Rightarrow> coldef" where
  "col n t notnull dflt = \<lparr>c_name = n, c_type = t, c_notnull = notnull, c_default = dflt, c_unique = False, c_auto = False\<rparr>"

definition epoch_text :: sqlval where
  "epoch_text = VText ''1970-01-01 00:00:01''"

definition first_columns :: "coldef list" where
  "first_columns =
     [col ''key_id'' (TVarchar 255) True None,
      col ''principals'' (TVarchar 255) False (Some (VText ''[]'')),
      col ''created_at'' TDatetime False (Some epoch_text),
      col ''expires_at'' TDatetime False (Some epoch_text),
      col ''revoked'' TTinyint False (Some (VInt 0)),
      col ''raw_key'' TText False None]"

definition id_column :: coldef where
  "id_column = (col ''id'' TInt False None)\<lparr>c_auto := True\<rparr>"

text \<open>The table that SQLite copies the certificates to.\<close>

definition keyed_columns :: "coldef list" where
  "keyed_columns = id_column # (hd first_columns)\<lparr>c_unique := True\<rparr> # tl first_columns"

definition cert_columns :: "string list" where
  "cert_columns = [''key_id'', ''principals'', ''created_at'', ''expires_at'', ''revoked'', ''raw_key'']"

definition create_issued_certs :: "statement list \<times> statement list" where
  "create_issued_certs =
     ([CreateTable True ''issued_certs'' first_columns [''key_id''],
       CreateIndex ''idx_expires_at'' ''issued_certs'' [''expires_at''],
       CreateIndex ''idx_revoked_expires_at'' ''issued_certs'' [''revoked'', ''expires_at'']],
      [DropTable ''issued_certs''])"

definition mysql_idx_revoked_expires_at :: "statement list \<times> statement list" where
  "mysql_idx_revoked_expires_at =
     ([AlterTable ''issued_certs'' [DropIndexOf ''idx_revoked_expires_at'']],
      [AlterTable ''issued_certs'' [AddIndex ''idx_revoked_expires_at'' [''revoked'', ''expires_at''] False]])"

definition sqlite3_idx_revoked_expires_at :: "statement list \<times> statement list" where
  "sqlite3_idx_revoked_expires_at =
     ([DropIndex ''idx_revoked_expires_at''],
      [CreateIndex ''idx_revoked_expires_at'' ''issued_certs'' [''revoked'', ''expires_at'']])"

definition copy_to :: "bool \<Rightarrow> string \<Rightarrow> coldef list \<Rightarrow> string list \<Rightarrow> statement list" where
  "copy_to if_not_exists name cols pkey =
     [CreateTable if_not_exists name cols pkey,
      InsertSelect name cert_columns ''issued_certs'',
      DropTable ''issued_certs'',
      RenameTable name ''issued_certs'',
      CreateIndex ''idx_expires_at'' ''issued_certs'' [''expires_at'']]"

definition mysql_new_primary_key :: "statement list \<times> statement list" where
  "mysql_new_primary_key =
     ([AlterTable ''issued_certs'' [DropPrimaryKey, AddColumn id_column True True, AddIndex ''idx_key_id'' [''key_id''] True]],
      [AlterTable ''issued_certs'' [DropPrimaryKey, DropColumn ''id'', AddPrimaryKey [''key_id'']]])"

definition sqlite3_new_primary_key :: "statement list \<times> statement list" where
  "sqlite3_new_primary_key =
     (copy_to False ''issued_certs_new'' keyed_columns [''id''],
      copy_to True ''issued_certs_old'' first_columns [''key_id''])"

definition mysql_add_reason :: "statement list \<times> statement list" where
  "mysql_add_reason =
     ([AlterTable ''issued_certs'' [AddColumn (col ''message'' TText True None) False False]],
      [AlterTable ''issued_certs'' [DropColumn ''message'']])"

definition sqlite3_add_reason :: "statement list \<times> statement list" where
  "sqlite3_add_reason =
     ([AlterTable ''issued_certs'' [AddColumn (col ''message'' TText True (Some (VText ''''))) False False]],
      copy_to False ''issued_certs_new'' keyed_columns [''id''])"

text \<open>The directory of a driver has the migrations in the order of their names.\<close>

fun idx_revoked_expires_at :: "dialect \<Rightarrow> statement list \<times> statement list" where
  "idx_revoked_expires_at MySQL = mysql_idx_revoked_expires_at"
| "idx_revoked_expires_at SQLite = sqlite3_idx_revoked_expires_at"

fun new_primary_key :: "dialect \<Rightarrow> statement list \<times> statement list" where
  "new_primary_key MySQL = mysql_new_primary_key"
| "new_primary_key SQLite = sqlite3_new_primary_key"

fun add_reason :: "dialect \<Rightarrow> statement list \<times> statement list" where
  "add_reason MySQL = mysql_add_reason"
| "add_reason SQLite = sqlite3_add_reason"

definition later_migrations :: "dialect \<Rightarrow> (statement list \<times> statement list) list" where
  "later_migrations d = [idx_revoked_expires_at d, new_primary_key d, add_reason d]"

definition migrations :: "dialect \<Rightarrow> (statement list \<times> statement list) list" where
  "migrations d = create_issued_certs # later_migrations d"

definition up :: "(statement list \<times> statement list) list \<Rightarrow> statement list" where
  "up ms = concat (map fst ms)"

definition down :: "(statement list \<times> statement list) list \<Rightarrow> statement list" where
  "down ms = concat (map snd (rev ms))"

definition no_tables :: catalog where
  "no_tables = \<lparr>tables = [], indexes = []\<rparr>"

text \<open>
  The drivers that the program registers: the MySQL package registers its own, and \<^verbatim>\<open>server/store/sqlite3\<close> the one for SQLite. Each has a directory of
  migrations under its name, which is where \<^verbatim>\<open>autoMigrate\<close> looks.
\<close>

definition sqlite3Driver :: string where
  "sqlite3Driver = ''sqlite3''"

definition registered_drivers :: "(string \<times> dialect) list" where
  "registered_drivers = [(''mysql'', MySQL), (sqlite3Driver, SQLite)]"

lemma opened_driver:
  assumes "newSQLStore op c = Inr d" and "db_Type c \<in> {''mysql'', ''sqlite''}"
  obtains driver dialect dsn conn where "map_of registered_drivers driver = Some dialect" and "Connect op driver dsn = Inr conn"
    and "migrate_Exec op driver (''migrations/'' @ driver) conn = (None, d)" and "dialect = MySQL \<longleftrightarrow> db_Type c = ''mysql''"
  using assms that [of "''mysql''" MySQL] that [of "''sqlite3''" SQLite]
  by (auto simp: newSQLStore_def autoMigrate_def registered_drivers_def sqlite3Driver_def Let_def split: sum.splits prod.splits option.splits if_splits)

text \<open>The columns that a row of \<^verbatim>\<open>SELECT *\<close> is scanned into: the \<^verbatim>\<open>db\<close> tags of \<^verbatim>\<open>CertRecord\<close>.\<close>

definition db_tags :: "string list" where
  "db_tags = [''id'', ''key_id'', ''principals'', ''created_at'', ''expires_at'', ''revoked'', ''raw_key'', ''message'']"

section \<open>The statements of the store\<close>

definition revoke_query :: string where
  "revoke_query = ''UPDATE issued_certs SET revoked = 1 WHERE key_id IN (?)''"

text \<open>The words of a statement, and those of them that are names.\<close>

fun sql_words :: "string \<Rightarrow> string \<Rightarrow> string list" where
  "sql_words acc [] = (if acc = [] then [] else [acc])"
| "sql_words acc (c # s) =
     (if c \<in> {CHR '' '', CHR '','', CHR ''('', CHR '')''} then (if acc = [] then [] else [acc]) @ sql_words [] s
      else sql_words (acc @ [c]) s)"

definition sql_keywords :: "string list" where
  "sql_keywords = [''INSERT'', ''INTO'', ''VALUES'', ''SELECT'', ''*'', ''FROM'', ''WHERE'', ''AND'', ''UPDATE'', ''SET'', ''IN'', ''='', ''<='', ''>='', ''1'', ''?'']"

definition sql_names :: "string \<Rightarrow> string list" where
  "sql_names q = filter (\<lambda>w. w \<notin> set sql_keywords) (sql_words [] q)"

definition placeholders :: "string \<Rightarrow> nat" where
  "placeholders q = length (filter (\<lambda>w. w = ''?'') (sql_words [] q))"

text \<open>
  A statement is typed by a catalog if it names a table of it, all other names are columns of that table, a \<^verbatim>\<open>SELECT *\<close> gives the
  columns that the record has tags for, and an \<^verbatim>\<open>INSERT\<close> has a placeholder for each column it names and names every column that
  needs a value.
\<close>

definition needs_value :: "coldef \<Rightarrow> bool" where
  "needs_value c \<longleftrightarrow> c_notnull c \<and> c_default c = None \<and> \<not> c_auto c"

definition typed :: "catalog \<Rightarrow> string \<Rightarrow> bool" where
  "typed cat q =
     (case sql_names q of
        [] \<Rightarrow> False
      | tname # cols \<Rightarrow>
          (case map_of (tables cat) tname of
             None \<Rightarrow> False
           | Some t \<Rightarrow>
               has_cols t cols \<and>
               (hd (sql_words [] q) = ''SELECT'' \<longrightarrow> set (map c_name (t_cols t)) \<subseteq> set db_tags) \<and>
               (hd (sql_words [] q) = ''INSERT'' \<longrightarrow>
                  placeholders q = length cols \<and> list_all (\<lambda>c. needs_value c \<longrightarrow> c_name c \<in> set cols) (t_cols t))))"

definition permutes :: "(trow list \<Rightarrow> trow list) \<Rightarrow> bool" where
  "permutes scan \<longleftrightarrow> (\<forall>rs. mset (scan rs) = mset rs)"

section \<open>The schema after each migration\<close>

definition index_on :: "string \<Rightarrow> string list \<Rightarrow> bool \<Rightarrow> sql_index" where
  "index_on name cols u = \<lparr>ix_name = name, ix_table = ''issued_certs'', ix_cols = cols, ix_unique = u\<rparr>"

definition issued :: "coldef list \<Rightarrow> string list \<Rightarrow> trow list \<Rightarrow> int \<Rightarrow> sql_index list \<Rightarrow> catalog" where
  "issued cols pkey rs n ixs = \<lparr>tables = [(''issued_certs'', \<lparr>t_cols = cols, t_pkey = pkey, t_rows = rs, t_next = n\<rparr>)], indexes = ixs\<rparr>"

definition first_schema :: "trow list \<Rightarrow> int \<Rightarrow> catalog" where
  "first_schema rs n = issued first_columns [''key_id''] rs n
     [index_on ''idx_expires_at'' [''expires_at''] False, index_on ''idx_revoked_expires_at'' [''revoked'', ''expires_at''] False]"

fun keyed_schema :: "dialect \<Rightarrow> coldef list \<Rightarrow> trow list \<Rightarrow> int \<Rightarrow> catalog" where
  "keyed_schema MySQL extra rs n = issued (id_column # first_columns @ extra) [''id''] rs n
     [index_on ''idx_expires_at'' [''expires_at''] False, index_on ''idx_key_id'' [''key_id''] True]"
| "keyed_schema SQLite extra rs n = issued (keyed_columns @ extra) [''id''] rs n [index_on ''idx_expires_at'' [''expires_at''] False]"

fun message_column :: "dialect \<Rightarrow> coldef" where
  "message_column MySQL = col ''message'' TText True None"
| "message_column SQLite = col ''message'' TText True (Some (VText ''''))"

definition final_schema :: "dialect \<Rightarrow> trow list \<Rightarrow> int \<Rightarrow> catalog" where
  "final_schema d = keyed_schema d [message_column d]"

lemmas schema_defs = first_schema_def issued_def index_on_def add_index_def index_taken_def has_cols_def put_table_def
  first_columns_def keyed_columns_def id_column_def col_def autos_keyed_def
  mysql_idx_revoked_expires_at_def sqlite3_idx_revoked_expires_at_def mysql_new_primary_key_def mysql_add_reason_def sqlite3_add_reason_def
  sqlite3_new_primary_key_def

lemma create_first: "exec_all scan d (fst create_issued_certs) no_tables = Inr (first_schema [] 1)"
  by (simp add: create_issued_certs_def no_tables_def schema_defs)

lemma drop_revoked_index:
  "exec_all scan d (fst (idx_revoked_expires_at d)) (first_schema rs n) =
     Inr (issued first_columns [''key_id''] rs n [index_on ''idx_expires_at'' [''expires_at''] False])"
  by (cases d) (simp_all add: schema_defs)

definition keys_ok :: "trow list \<Rightarrow> bool" where
  "keys_ok rs \<longleftrightarrow> distinct (map (\<lambda>r. r ''key_id'') rs) \<and> VNull \<notin> set (map (\<lambda>r. r ''key_id'') rs)"

lemma keys_ok_mset: "mset rs = mset rs' \<Longrightarrow> keys_ok rs = keys_ok rs'"
proof -
  assume m: "mset rs = mset rs'"
  then have "mset (map (\<lambda>r. r ''key_id'') rs) = mset (map (\<lambda>r. r ''key_id'') rs')" by simp
  then have "distinct (map (\<lambda>r. r ''key_id'') rs) = distinct (map (\<lambda>r. r ''key_id'') rs')" by (rule mset_eq_imp_distinct_iff)
  moreover have "set rs = set rs'" using m by (rule mset_eq_setD)
  ultimately show ?thesis by (simp add: keys_ok_def)
qed

lemma number_rows_keys: "map (\<lambda>r. r ''key_id'') (number_rows ''id'' i rs) = map (\<lambda>r. r ''key_id'') rs"
  by (induction rs arbitrary: i) auto

lemma mysql_new_key:
  assumes "keys_ok (scan rs)"
  shows "exec_all scan MySQL (fst (new_primary_key MySQL)) (issued first_columns [''key_id''] rs n [index_on ''idx_expires_at'' [''expires_at''] False]) =
     Inr (keyed_schema MySQL [] (number_rows ''id'' 1 (scan rs)) (1 + int (length rs)))"
proof -
  let ?rs = "number_rows ''id'' 1 (scan rs)"
  have "map (\<lambda>r. [r ''key_id'']) (filter (\<lambda>r. VNull \<noteq> r ''key_id'') ?rs) = map (\<lambda>v. [v]) (filter (\<lambda>v. VNull \<noteq> v) (map (\<lambda>r. r ''key_id'') ?rs))"
    by (simp add: filter_map comp_def)
  moreover have "distinct (map (\<lambda>v. [v]) (filter (\<lambda>v. VNull \<noteq> v) (map (\<lambda>r. r ''key_id'') ?rs)))"
    using assms unfolding number_rows_keys by (auto simp: keys_ok_def distinct_map inj_on_def)
  ultimately have "distinct (map (\<lambda>r. [r ''key_id'']) (filter (\<lambda>r. VNull \<noteq> r ''key_id'') ?rs))" by simp
  then show ?thesis by (simp add: schema_defs)
qed

lemma add_message:
  "exec_all scan d (fst (add_reason d)) (keyed_schema d [] rs n) = Inr (final_schema d (map (\<lambda>r. r(''message'' := VText '''')) rs) n)"
  by (cases d) (simp_all add: schema_defs final_schema_def added_value_def)

text \<open>Copying rows into the table of SQLite numbers them.\<close>

definition copied :: "int \<Rightarrow> trow \<Rightarrow> trow" where
  "copied i r n = (if n = ''id'' then VInt i else if n \<in> set cert_columns then r n else VNull)"

lemma new_row_copied:
  "new_row \<lparr>t_cols = keyed_columns, t_pkey = [''id''], t_rows = rs, t_next = i\<rparr> (map (\<lambda>n. (n, r n)) cert_columns) = copied i r"
  by (rule ext) (simp add: new_row_def find_col_def copied_def schema_defs cert_columns_def)

fun copies :: "int \<Rightarrow> trow list \<Rightarrow> trow list" where
  "copies i [] = []"
| "copies i (r # rs) = copied i r # copies (i + 1) rs"

lemma copies_eq: "copies i rs = number_rows ''id'' i (map (copied 0) rs)"
  by (induction rs arbitrary: i) (auto simp: copied_def fun_eq_iff)

lemma insert_all_copies:
  assumes "keys_ok (qs @ rs)" and "\<forall>q \<in> set qs. \<exists>j < i. q ''id'' = VInt j"
  shows "insert_all SQLite [[''id''], [''key_id'']] (map (\<lambda>r. map (\<lambda>n. (n, r n)) cert_columns) rs)
      \<lparr>t_cols = keyed_columns, t_pkey = [''id''], t_rows = qs, t_next = i\<rparr> =
    Inr \<lparr>t_cols = keyed_columns, t_pkey = [''id''], t_rows = qs @ copies i rs, t_next = i + int (length rs)\<rparr>"
  using assms
proof (induction rs arbitrary: qs i)
  case (Cons r rs)
  let ?t = "\<lparr>t_cols = keyed_columns, t_pkey = [''id''], t_rows = qs, t_next = i\<rparr>"
  have c: "copied i r ''id'' = VInt i" "copied i r ''key_id'' = r ''key_id''" by (simp_all add: copied_def cert_columns_def)
  have k: "r ''key_id'' \<noteq> VNull" "r ''key_id'' \<notin> (\<lambda>q. q ''key_id'') ` set qs" using Cons.prems(1) by (auto simp: keys_ok_def)
  have "\<not> list_ex (same_key [''id''] (copied i r)) qs" using Cons.prems(2) c(1) by (auto simp: list_ex_iff same_key_def)
  moreover have "\<not> list_ex (same_key [''key_id''] (copied i r)) qs" using k(2) c(2) by (auto simp: list_ex_iff same_key_def)
  ultimately have "row_ok SQLite [[''id''], [''key_id'']] ?t (copied i r)"
    using k(1) c by (simp add: row_ok_def keyed_columns_def id_column_def first_columns_def col_def)
  moreover have "has_cols ?t (map fst (map (\<lambda>n. (n, r n)) cert_columns))" by (simp add: schema_defs cert_columns_def)
  ultimately have 1: "insert_values SQLite [[''id''], [''key_id'']] (map (\<lambda>n. (n, r n)) cert_columns) ?t =
      Inr \<lparr>t_cols = keyed_columns, t_pkey = [''id''], t_rows = qs @ [copied i r], t_next = i + 1\<rparr>"
    by (simp add: insert_values_def new_row_copied)
  have "keys_ok ((qs @ [copied i r]) @ rs)" using Cons.prems(1) c(2) by (simp add: keys_ok_def)
  moreover have "\<forall>q \<in> set (qs @ [copied i r]). \<exists>j < i + 1. q ''id'' = VInt j" using Cons.prems(2) c(1) by fastforce
  ultimately show ?case using 1 Cons.IH [of "qs @ [copied i r]" "i + 1"] by (simp add: algebra_simps)
qed simp

lemma sqlite_new_key:
  assumes "keys_ok (scan rs)" and "length (scan rs) = length rs"
  shows "exec_all scan SQLite (fst (new_primary_key SQLite)) (issued first_columns [''key_id''] rs n [index_on ''idx_expires_at'' [''expires_at''] False]) =
     Inr (keyed_schema SQLite [] (number_rows ''id'' 1 (map (copied 0) (scan rs))) (1 + int (length rs)))"
  using insert_all_copies [of "[]" "scan rs" 1] assms
  by (simp add: sqlite3_new_primary_key_def copy_to_def issued_def index_on_def put_table_def unique_keys_def has_cols_def add_index_def index_taken_def copies_eq
      id_column_def keyed_columns_def first_columns_def col_def cert_columns_def)

section \<open>All migrations\<close>

lemma copied_columns: "map (\<lambda>r. map r cert_columns) (map (copied i) rs) = map (\<lambda>r. map r cert_columns) rs"
  by (simp add: copied_def cert_columns_def)

lemma cert_no_id: "''id'' \<notin> set cert_columns"
  by (simp add: cert_columns_def)

lemma mset_columns:
  assumes "permutes scan"
  shows "mset (map (\<lambda>r. map r cert_columns) (scan rs)) = mset (map (\<lambda>r. map r cert_columns) rs)"
  using assms by (simp add: permutes_def)

lemma message_columns: "map (\<lambda>r. map r cert_columns) (map (\<lambda>r. r(''message'' := v)) rs) = map (\<lambda>r. map r cert_columns) rs"
  by (simp add: cert_columns_def)

lemma later_up:
  assumes "permutes scan" and "keys_ok rs"
  obtains rs' where "exec_all scan d (up (later_migrations d)) (first_schema rs n) = Inr (final_schema d rs' (1 + int (length rs)))"
    and "mset (map (\<lambda>r. map r cert_columns) rs') = mset (map (\<lambda>r. map r cert_columns) rs)"
    and "\<forall>r \<in> set rs'. r ''message'' = VText ''''"
    and "map (\<lambda>r. r ''id'') rs' = map VInt (map (\<lambda>k. 1 + int k) [0..<length rs])"
proof -
  have m: "mset (scan rs) = mset rs" using assms(1) by (simp add: permutes_def)
  then have k: "keys_ok (scan rs)" and l: "length (scan rs) = length rs" using assms(2) keys_ok_mset mset_eq_length by blast+
  define rs1 where "rs1 = (case d of MySQL \<Rightarrow> scan rs | SQLite \<Rightarrow> map (copied 0) (scan rs))"
  let ?rs = "map (\<lambda>r. r(''message'' := VText '''')) (number_rows ''id'' 1 rs1)"
  have "exec_all scan d (up (later_migrations d)) (first_schema rs n) = Inr (final_schema d ?rs (1 + int (length rs)))"
    using mysql_new_key [of scan rs n] sqlite_new_key [of scan rs n] k l
    by (cases d) (simp_all add: up_def later_migrations_def exec_all_append drop_revoked_index add_message rs1_def
        del: idx_revoked_expires_at.simps new_primary_key.simps add_reason.simps keyed_schema.simps)
  moreover have "map (\<lambda>r. map r cert_columns) rs1 = map (\<lambda>r. map r cert_columns) (scan rs)"
    by (cases d) (simp_all add: rs1_def copied_columns del: map_map)
  then have "map (\<lambda>r. map r cert_columns) ?rs = map (\<lambda>r. map r cert_columns) (scan rs)"
    unfolding message_columns by (simp add: number_rows_other cert_no_id)
  then have "mset (map (\<lambda>r. map r cert_columns) ?rs) = mset (map (\<lambda>r. map r cert_columns) rs)"
    using mset_columns [OF assms(1), of rs] by presburger
  moreover have "map (\<lambda>r. r ''id'') ?rs = map VInt (map (\<lambda>k. 1 + int k) [0..<length rs])"
    using number_rows_numbers [of "''id''" 1 rs1] l by (cases d) (simp_all add: rs1_def comp_def)
  moreover have "\<forall>r \<in> set ?rs. r ''message'' = VText ''''" by auto
  ultimately show thesis by (intro that)
qed

lemma all_up:
  assumes "permutes scan"
  shows "exec_all scan d (up (migrations d)) no_tables = Inr (final_schema d [] 1)"
proof -
  have "keys_ok []" by (simp add: keys_ok_def)
  from later_up [OF assms this, where d = d and n = 1] show ?thesis
    by (auto simp: up_def migrations_def exec_all_append create_first)
qed

text \<open>
  C18: every statement of the store is typed by the schema that the migrations lead to, for MySQL and for SQLite: run on an empty database they succeed, the columns of the
  table are those that a record has tags for, in both, each statement names only columns that are there, and the insertion gives a value to every column that needs one.
\<close>

theorem statements_typed:
  assumes "permutes scan"
  shows "exec_all scan d (up (migrations d)) no_tables = Inr (final_schema d [] 1) \<and>
    (\<forall>rs n. map c_name (concat (map (t_cols \<circ> snd) (tables (final_schema d rs n)))) = db_tags \<and>
       list_all (typed (final_schema d rs n)) (revoke_query # map snd statements))"
proof
  show "exec_all scan d (up (migrations d)) no_tables = Inr (final_schema d [] 1)" by (rule all_up [OF assms])
next
  have names: "map sql_names (revoke_query # map snd statements) =
     [[''issued_certs'', ''revoked'', ''key_id''],
      [''issued_certs'', ''key_id'', ''principals'', ''created_at'', ''expires_at'', ''raw_key'', ''message''],
      [''issued_certs'', ''key_id''], [''issued_certs''], [''issued_certs'', ''expires_at''], [''issued_certs'', ''revoked'', ''expires_at'']]"
    by code_simp
  have hds: "map (hd \<circ> sql_words []) (revoke_query # map snd statements) =
     [''UPDATE'', ''INSERT'', ''SELECT'', ''SELECT'', ''SELECT'', ''SELECT'']" by code_simp
  have "placeholders (snd (hd statements)) = 6" by code_simp
  with names hds
  show "\<forall>rs n. map c_name (concat (map (t_cols \<circ> snd) (tables (final_schema d rs n)))) = db_tags \<and>
       list_all (typed (final_schema d rs n)) (revoke_query # map snd statements)"
    by (cases d) (simp_all add: statements_def typed_def final_schema_def schema_defs db_tags_def needs_value_def)
qed

theorem statements_typed_witness:
  "exec_all rev MySQL (up (migrations MySQL)) no_tables = Inr (final_schema MySQL [] 1)"
proof -
  have "permutes rev" by (simp add: permutes_def)
  from statements_typed [OF this, of MySQL] show ?thesis by blast
qed

text \<open>
  C19: a database that was made before the later migrations comes through them with all its certificates: the migrations succeed, in whatever order the database reads
  its tables, and what is in the six columns of each row, revocation included, is in a row afterwards; the rows are numbered from one and their reason is empty.
\<close>

theorem migrations_keep_certificates:
  assumes "permutes scan" and "keys_ok rs"
  shows "\<exists>rs'. exec_all scan d (up (later_migrations d)) (first_schema rs n) = Inr (final_schema d rs' (1 + int (length rs))) \<and>
    mset (map (\<lambda>r. map r cert_columns) rs') = mset (map (\<lambda>r. map r cert_columns) rs) \<and>
    list_all (\<lambda>r. r ''message'' = VText '''') rs' \<and>
    map (\<lambda>r. r ''id'') rs' = map VInt (map (\<lambda>k. 1 + int k) [0..<length rs])"
  by (rule later_up [OF assms, where d = d and n = n]) (auto simp: list_all_iff)

theorem migrations_keep_certificates_witness:
  "\<exists>r. exec_all (\<lambda>rs. rs) SQLite (up (later_migrations SQLite)) (first_schema [\<lambda>c. if c = ''key_id'' then VText ''alice_1'' else VInt 1] 7) =
     Inr (final_schema SQLite [r] 2) \<and> r ''revoked'' = VInt 1"
proof -
  let ?r = "\<lambda>c. if c = ''key_id'' then VText ''alice_1'' else VInt 1"
  have "permutes (\<lambda>rs. rs)" "keys_ok [?r]" by (simp_all add: permutes_def keys_ok_def)
  from migrations_keep_certificates [OF this, where d = SQLite and n = 7]
  show ?thesis by (auto simp: cert_columns_def map_eq_Cons_conv)
qed

section \<open>The rows of the store\<close>

text \<open>The statements of the store on a catalog: an \<^verbatim>\<open>INSERT\<close> with the values of its placeholders, and the \<^verbatim>\<open>UPDATE\<close> with the list of its own.\<close>

definition exec_insert :: "dialect \<Rightarrow> string \<Rightarrow> sqlval list \<Rightarrow> catalog \<Rightarrow> error + catalog" where
  "exec_insert d q vals cat =
     (case sql_names q of
        [] \<Rightarrow> Inl (ENew ''syntax error'')
      | tname # cols \<Rightarrow>
          (case map_of (tables cat) tname of
             None \<Rightarrow> Inl (ENew ''no such table'')
           | Some t \<Rightarrow>
               (case insert_values d (unique_keys cat tname t) (zip cols vals) t of
                  Inl e \<Rightarrow> Inl e
                | Inr t' \<Rightarrow> Inr (put_table tname t' cat))))"

definition exec_update :: "string \<Rightarrow> sqlval list \<Rightarrow> catalog \<Rightarrow> error + catalog" where
  "exec_update q vals cat =
     (case sql_names q of
        [tname, target, key] \<Rightarrow>
          (case map_of (tables cat) tname of
             None \<Rightarrow> Inl (ENew ''no such table'')
           | Some t \<Rightarrow> Inr (put_table tname (t\<lparr>t_rows := map (\<lambda>r. if r key \<in> set vals then r(target := VInt 1) else r) (t_rows t)\<rparr>) cat))
      | _ \<Rightarrow> Inl (ENew ''syntax error''))"

definition enc_row :: "row \<Rightarrow> trow" where
  "enc_row r n =
     (if n = ''id'' then VInt (row_id r)
      else if n = ''key_id'' then VText (row_key_id r)
      else if n = ''principals'' then VText (row_principals r)
      else if n = ''created_at'' then VTime (row_created_at r)
      else if n = ''expires_at'' then VTime (row_expires_at r)
      else if n = ''revoked'' then VInt (if row_revoked r then 1 else 0)
      else if n = ''raw_key'' then VText (row_raw_key r)
      else if n = ''message'' then VText (row_message r)
      else VNull)"

definition db_catalog :: "dialect \<Rightarrow> db \<Rightarrow> catalog" where
  "db_catalog d s = final_schema d (map enc_row (rows s)) (last_id s + 1)"

definition set_query :: string where
  "set_query = snd (hd statements)"

lemma query_names:
  "sql_names set_query = [''issued_certs'', ''key_id'', ''principals'', ''created_at'', ''expires_at'', ''raw_key'', ''message'']"
  "sql_names revoke_query = [''issued_certs'', ''revoked'', ''key_id'']"
  by code_simp+

definition within_limits :: "dialect \<Rightarrow> string \<Rightarrow> string \<Rightarrow> string \<Rightarrow> string \<Rightarrow> bool" where
  "within_limits d key ps raw msg \<longleftrightarrow>
     fits d (TVarchar 255) (VText key) \<and> fits d (TVarchar 255) (VText ps) \<and> fits d TText (VText raw) \<and> fits d TText (VText msg)"

fun cert_table_cols :: "dialect \<Rightarrow> coldef list" where
  "cert_table_cols MySQL = id_column # first_columns @ [message_column MySQL]"
| "cert_table_cols SQLite = keyed_columns @ [message_column SQLite]"

lemma final_schema_table:
  "map_of (tables (final_schema d rs n)) ''issued_certs'' = Some \<lparr>t_cols = cert_table_cols d, t_pkey = [''id''], t_rows = rs, t_next = n\<rparr>"
  "put_table ''issued_certs'' \<lparr>t_cols = cert_table_cols d, t_pkey = [''id''], t_rows = rs', t_next = n'\<rparr> (final_schema d rs n) = final_schema d rs' n'"
  "unique_keys (final_schema d rs n) ''issued_certs'' \<lparr>t_cols = cert_table_cols d, t_pkey = [''id''], t_rows = rs, t_next = n\<rparr> = [[''id''], [''key_id'']]"
  by (cases d; simp add: final_schema_def issued_def put_table_def unique_keys_def index_on_def id_column_def keyed_columns_def first_columns_def col_def)+

lemma new_row_enc:
  "new_row \<lparr>t_cols = cert_table_cols d, t_pkey = [''id''], t_rows = rs, t_next = n\<rparr>
     (zip [''key_id'', ''principals'', ''created_at'', ''expires_at'', ''raw_key'', ''message''] [VText key, VText ps, VTime created, VTime expires, VText raw, VText msg]) =
   enc_row \<lparr>row_id = n, row_key_id = key, row_principals = ps, row_created_at = created, row_expires_at = expires, row_revoked = False,
     row_raw_key = raw, row_message = msg\<rparr>"
  by (rule ext, cases d) (simp_all add: new_row_def find_col_def enc_row_def id_column_def keyed_columns_def first_columns_def col_def)

lemma row_ok_enc:
  assumes "\<forall>r \<in> set rs. row_id r < row_id x"
  shows "row_ok d [[''id''], [''key_id'']] \<lparr>t_cols = cert_table_cols d, t_pkey = [''id''], t_rows = map enc_row rs, t_next = n\<rparr> (enc_row x) \<longleftrightarrow>
    within_limits d (row_key_id x) (row_principals x) (row_raw_key x) (row_message x) \<and> row_key_id x \<notin> row_key_id ` set rs"
proof -
  have "\<not> list_ex (same_key [''id''] (enc_row x)) (map enc_row rs)" using assms by (auto simp: list_ex_iff same_key_def enc_row_def)
  moreover have "list_ex (same_key [''key_id''] (enc_row x)) (map enc_row rs) \<longleftrightarrow> row_key_id x \<in> row_key_id ` set rs"
    by (auto simp: list_ex_iff same_key_def enc_row_def)
  ultimately show ?thesis
    by (cases d) (auto simp: row_ok_def within_limits_def id_column_def keyed_columns_def first_columns_def col_def enc_row_def)
qed





end
