(* ===== verification/CA_Server.thy ===== *)
theory CA_Server
  imports Server_Login Store_Any
begin

text \<open>
  The server over any store that keeps the contract \<open>cert_storer\<close>: what the handlers for signing, revoking and serving the
  revocation list do to the ledger, one after the other. Between two requests the world may change in any
  way that leaves the store reachable.
\<close>

section \<open>The handlers over a store operation that succeeds\<close>

lemma revoke_ok:
  assumes "store_Revoke (app_certstore a) (form_all r ''cert_id'') (hs_store h) w = (Return None, s', w')"
    and "w_status (hs_resp h) = None"
  shows "revoke a r h w = (Return (), h\<lparr>hs_store := s', hs_resp := redirected r ''/admin/certs'' 303 (hs_resp h)\<rparr>, w')"
  using assms http_Redirect_eq [of "h\<lparr>hs_store := s'\<rparr>" r "''/admin/certs''" 303 w']
  by (simp add: revoke_def act_bind_def on_store_def)

lemma revoked_ok:
  assumes "store_GetRevoked (app_certstore a) (hs_store h) w = (Return (Inr rs), s', w')"
    and "MarshalKRL (env_ssh env) (rands w') \<lparr>krl_CA = CAPublicKey (env_ssh env) (ks_ca (app_keysigner a)), krl_KeyIDs = map rec_KeyID rs\<rparr> = Inr rl"
    and "w_status (hs_resp h) = None"
  obtains h' where "revoked env a h w = (Return (), h', w'\<lparr>rands := Suc (rands w')\<rparr>)"
    and "w_body (hs_resp h') = w_body (hs_resp h) @ [BBytes rl]" and "w_status (hs_resp h') = Some 200" and "hs_store h' = s'"
  using assms
  by (simp add: revoked_def act_bind_def on_store_def lift_io_def GenerateRevocationList_def krl_ids_map draw_def Let_def
      Header_Set_def Write_def on_resp_def write_header_def)

text \<open>The handler for the revocation list answers with a list for the signer's CA that holds the given key ids;
  the two worlds are those before and after it.\<close>

definition serves_krl :: "('k, 'ca, 's) server_env \<Rightarrow> ('k, 'ca, 's) application \<Rightarrow> 's hstate \<Rightarrow> world \<Rightarrow> world \<Rightarrow> string list \<Rightarrow> bool" where
  "serves_krl env a h w w' ids \<longleftrightarrow>
     (\<exists>h' n rl. revoked env a h w = (Return (), h', w') \<and> w_body (hs_resp h') = w_body (hs_resp h) @ [BBytes rl] \<and>
        MarshalKRL (env_ssh env) n \<lparr>krl_CA = CAPublicKey (env_ssh env) (ks_ca (app_keysigner a)), krl_KeyIDs = ids\<rparr> = Inr rl)"

text \<open>A request whose response is not begun, for a store in the given state.\<close>

definition fresh :: "'s hstate \<Rightarrow> 's \<Rightarrow> bool" where
  "fresh h s \<longleftrightarrow> hs_store h = s \<and> w_status (hs_resp h) = None"

text \<open>
  What is true of the lists served after the certificate with key id \<open>k\<close> was revoked: from the store \<open>s\<close>, a revoke request that names
  it succeeds, and every list served from the store it leaves behind has the property, as long as the store is reachable. The property is of the worlds between which the list
  is made, hence of the readings of the clock, and of its key ids.
\<close>

definition krl_after_revoke ::
  "('k, 'ca, 's) server_env \<Rightarrow> ('k, 'ca, 's) application \<Rightarrow> (world \<Rightarrow> bool) \<Rightarrow> 's \<Rightarrow> string \<Rightarrow> (world \<Rightarrow> world \<Rightarrow> string list \<Rightarrow> bool) \<Rightarrow> bool" where
  "krl_after_revoke env a up s k P \<longleftrightarrow>
     (\<forall>h w r. fresh h s \<and> up w \<and> form_all r ''cert_id'' = [k] \<longrightarrow>
        (\<exists>h' w'. revoke a r h w = (Return (), h', w') \<and> w_status (hs_resp h') = Some 303 \<and>
           (\<forall>h2 w2. fresh h2 (hs_store h') \<and> up w2 \<longrightarrow> (\<exists>w2' ids. serves_krl env a h2 w2 w2' ids \<and> P w2 w2' ids))))"

lemma krl_after_revoke_mono:
  "krl_after_revoke env a up s k P \<Longrightarrow> (\<And>w w' ids. P w w' ids \<Longrightarrow> Q w w' ids) \<Longrightarrow> krl_after_revoke env a up s k Q"
  unfolding krl_after_revoke_def by meson

section \<open>Signing, revoking and the list\<close>

context cert_storer
begin

lemma sign_issue_recorded:
  assumes "app_certstore a = st" and "usable (hs_store h)" and "up w1"
    and "SignUserKey (env_ssh env) (env_clk env) (app_keysigner a) req username w = (Return (Inr cert, req'), w1)"
    and "marshal_ok (env_ssh env) (CertAsKey (env_ssh env) cert)"
    and "cert_KeyId cert \<notin> dom (ledger_of (hs_store h))" and "\<And>n. net_Write env n = None"
  obtains h' w' r where "sign_issue env a req username h w = (Return (), h', w')" and "usable (hs_store h')"
    and "ledger_of (hs_store h') = led_add (ledger_of (hs_store h)) r" and "rec_KeyID r = cert_KeyId cert"
    and "rec_Expires r = parseTime (cert_ValidBefore cert)" and "\<not> rec_Revoked r" and "rec_Message r = req_Message req'"
proof -
  obtain line where l: "GetPublicKey (env_ssh env) (CertAsKey (env_ssh env) cert) = Return line"
    using GetPublicKey_marshal [OF assms(5)] by metis
  obtain rec where r: "MakeRecord (env_ssh env) cert = Return rec" by (simp add: MakeRecord_def l)
  let ?r = "rec\<lparr>rec_Message := req_Message req'\<rparr>"
  note f = MakeRecord_fields [OF r]
  have "rec_KeyID ?r \<notin> dom (ledger_of (hs_store h))" "\<not> rec_Revoked ?r" using assms(6) f by simp_all
  then obtain s' w2 where s: "store_SetRecord st ?r (hs_store h) w1 = (Return None, s', w2)" "usable s'"
      "ledger_of s' = led_add (ledger_of (hs_store h)) ?r"
    using set_law [OF assms(2,3)] by blast
  from sign_issue_eq [OF assms(4) l r, where h = h and e = None and s' = s' and ?w2.0 = w2] s(1) assms(1,7)
  have "sign_issue env a req username h w =
    (Return (), h\<lparr>hs_store := s', hs_resp := (write_header 200 (hs_resp h))\<lparr>w_body := w_body (hs_resp h) @
       [BSignResponse \<lparr>resp_Status = ''ok'', resp_Response = line, resp_Version = ''''\<rparr>]\<rparr>\<rparr>, w2\<lparr>calls := Suc (calls w2)\<rparr>)"
    by simp
  then show thesis using that [where r = ?r] s f by simp
qed

lemma revoke_marks:
  assumes "app_certstore a = st" and "usable (hs_store h)" and "up w" and "form_all r ''cert_id'' = [k]"
    and "ledger_of (hs_store h) k = Some x" and "w_status (hs_resp h) = None"
  obtains h' w' where "revoke a r h w = (Return (), h', w')" and "usable (hs_store h')" and "w_status (hs_resp h') = Some 303"
    and "ledger_of (hs_store h') k = Some (x\<lparr>rec_Revoked := True\<rparr>)"
proof -
  obtain s' w' where s: "store_Revoke st [k] (hs_store h) w = (Return None, s', w')" "usable s'"
      "ledger_of s' = led_revoke (ledger_of (hs_store h)) [k]"
    using revoke_law [OF assms(2,3), of "[k]"] assms(5) by auto
  with revoke_ok [of a r h w s' w'] assms that show thesis by (simp add: led_revoke_def)
qed

text \<open>The key ids of the list that the server marshals, from the ledger.\<close>

lemma revoked_lists:
  assumes "app_certstore a = st" and "usable (hs_store h)" and "up w" and "w_status (hs_resp h) = None"
    and "\<And>n krl. \<exists>rl. MarshalKRL (env_ssh env) n krl = Inr rl"
  obtains w' ids where "serves_krl env a h w w' ids"
    and "\<And>k x. ledger_of (hs_store h) k = Some x \<Longrightarrow> rec_Revoked x \<Longrightarrow>
        all_readings clk w w' (\<lambda>t. \<not> Before (rec_Expires x) t) \<Longrightarrow> k \<in> set ids"
    and "\<And>k x. ledger_of (hs_store h) k = Some x \<Longrightarrow> all_readings clk w w' (Before (rec_Expires x)) \<Longrightarrow> k \<notin> set ids"
proof -
  obtain w' rs where g: "store_GetRevoked st (hs_store h) w = (Return (Inr rs), hs_store h, w')"
      "listed_at clk w w' (ledger_of (hs_store h)) rec_Revoked rs"
    using revoked_law [OF assms(2,3)] by blast
  let ?krl = "\<lparr>krl_CA = CAPublicKey (env_ssh env) (ks_ca (app_keysigner a)), krl_KeyIDs = map rec_KeyID rs\<rparr>"
  obtain rl where rl: "MarshalKRL (env_ssh env) (rands w') ?krl = Inr rl" using assms(5) by blast
  have in_list: "k \<in> set (map rec_KeyID rs)"
    if "ledger_of (hs_store h) k = Some x" "rec_Revoked x" "all_readings clk w w' (\<lambda>t. \<not> Before (rec_Expires x) t)" for k x
    using listed_keys [OF assms(2) g(2) that] by simp
  have not_in_list: "k \<notin> set (map rec_KeyID rs)"
    if "ledger_of (hs_store h) k = Some x" "all_readings clk w w' (Before (rec_Expires x))" for k x
    using listed_keysD [OF assms(2) g(2), of k] that by auto
  from revoked_ok [of a h w rs "hs_store h" w' env rl] g(1) rl assms(1,4) obtain h' where
    "revoked env a h w = (Return (), h', w'\<lparr>rands := Suc (rands w')\<rparr>)" "w_body (hs_resp h') = w_body (hs_resp h) @ [BBytes rl]"
    by auto
  with rl have "serves_krl env a h w (w'\<lparr>rands := Suc (rands w')\<rparr>) (map rec_KeyID rs)" unfolding serves_krl_def by blast
  moreover have "all_readings clk w (w'\<lparr>rands := Suc (rands w')\<rparr>) Q = all_readings clk w w' Q" for Q by (simp add: all_readings_def)
  ultimately show thesis using in_list not_in_list that by metis
qed

text \<open>
  A certificate that is issued and revoked: the list that is served afterwards holds its key id if its recorded expiry is not
  before any reading of the clock that is taken for the list, and does not hold it if the expiry is before all of them.
\<close>

lemma issue_revoke_list:
  assumes "app_certstore a = st" and "usable (hs_store h)" and "up w1"
    and "SignUserKey (env_ssh env) (env_clk env) (app_keysigner a) req username w = (Return (Inr cert, req'), w1)"
    and "marshal_ok (env_ssh env) (CertAsKey (env_ssh env) cert)"
    and "cert_KeyId cert \<notin> dom (ledger_of (hs_store h))" and "\<And>n. net_Write env n = None"
    and "\<And>n krl. \<exists>rl. MarshalKRL (env_ssh env) n krl = Inr rl"
  obtains h1 w1' where "sign_issue env a req username h w = (Return (), h1, w1')"
    and "krl_after_revoke env a up (hs_store h1) (cert_KeyId cert) (\<lambda>v v' ids.
          (all_readings clk v v' (\<lambda>t. \<not> Before (parseTime (cert_ValidBefore cert)) t) \<longrightarrow> cert_KeyId cert \<in> set ids) \<and>
          (all_readings clk v v' (Before (parseTime (cert_ValidBefore cert))) \<longrightarrow> cert_KeyId cert \<notin> set ids))"
proof -
  obtain h1 w1' r where i: "sign_issue env a req username h w = (Return (), h1, w1')" "usable (hs_store h1)"
      "ledger_of (hs_store h1) = led_add (ledger_of (hs_store h)) r" "rec_KeyID r = cert_KeyId cert"
      "rec_Expires r = parseTime (cert_ValidBefore cert)" "\<not> rec_Revoked r" "rec_Message r = req_Message req'"
    by (rule sign_issue_recorded [OF assms(1-7)])
  have k: "ledger_of (hs_store h1) (cert_KeyId cert) = Some (norm_rec r)" using i(3,4) by (simp add: led_add_def)
  let ?P = "\<lambda>v v' ids. (all_readings clk v v' (\<lambda>t. \<not> Before (parseTime (cert_ValidBefore cert)) t) \<longrightarrow> cert_KeyId cert \<in> set ids) \<and>
          (all_readings clk v v' (Before (parseTime (cert_ValidBefore cert))) \<longrightarrow> cert_KeyId cert \<notin> set ids)"
  have "\<exists>h3 w3. revoke a rq h2 w2 = (Return (), h3, w3) \<and> w_status (hs_resp h3) = Some 303 \<and>
      (\<forall>h4 w4. fresh h4 (hs_store h3) \<and> up w4 \<longrightarrow> (\<exists>w5 ids. serves_krl env a h4 w4 w5 ids \<and> ?P w4 w5 ids))"
    if h2: "fresh h2 (hs_store h1)" "up w2" "form_all rq ''cert_id'' = [cert_KeyId cert]" for h2 w2 rq
  proof -
    obtain h3 w3 where r3: "revoke a rq h2 w2 = (Return (), h3, w3)" "usable (hs_store h3)" "w_status (hs_resp h3) = Some 303"
        "ledger_of (hs_store h3) (cert_KeyId cert) = Some ((norm_rec r)\<lparr>rec_Revoked := True\<rparr>)"
      using revoke_marks [where h = h2 and x = "norm_rec r", OF assms(1) _ h2(2,3)] h2(1) i(2) k by (auto simp: fresh_def)
    have "\<exists>w5 ids. serves_krl env a h4 w4 w5 ids \<and> ?P w4 w5 ids" if h4: "fresh h4 (hs_store h3)" "up w4" for h4 w4
    proof -
      from h4(1) have s4: "hs_store h4 = hs_store h3" "w_status (hs_resp h4) = None" by (simp_all add: fresh_def)
      obtain w5 ids where ids: "serves_krl env a h4 w4 w5 ids"
          "\<And>k x. ledger_of (hs_store h4) k = Some x \<Longrightarrow> rec_Revoked x \<Longrightarrow>
            all_readings clk w4 w5 (\<lambda>t. \<not> Before (rec_Expires x) t) \<Longrightarrow> k \<in> set ids"
          "\<And>k x. ledger_of (hs_store h4) k = Some x \<Longrightarrow> all_readings clk w4 w5 (Before (rec_Expires x)) \<Longrightarrow> k \<notin> set ids"
        using revoked_lists [OF assms(1) _ h4(2) s4(2) assms(8)] r3(2) s4(1) by auto
      show ?thesis
        using ids(1) ids(2) [of "cert_KeyId cert"] ids(3) [of "cert_KeyId cert"] r3(4) i(5) unfolding s4(1) by auto
    qed
    with r3 show ?thesis by blast
  qed
  then have "krl_after_revoke env a up (hs_store h1) (cert_KeyId cert) ?P" unfolding krl_after_revoke_def by blast
  with i(1) that show thesis by blast
qed

end

end
