(* ===== verification/Record_JSON.thy ===== *)
theory Record_JSON
  imports Store_Record Auth_Types Go_Time
begin

text \<open>
  \<^verbatim>\<open>MarshalJSON\<close> of \<^verbatim>\<open>server/store/store.go\<close>: the form in which a record leaves the server. \<^verbatim>\<open>encoding/json\<close> writes the fields of the embedded
  record that no outer field hides, in their order, and then the outer fields; a field tagged with a dash is left out. \<open>zone\<close> gives the offset in seconds of
  the location of a time.
\<close>

section \<open>A record as JSON\<close>

definition format_time :: "(time \<Rightarrow> int) \<Rightarrow> time \<Rightarrow> string" where
  "format_time zone t = format_stamp (zone t) (t div nano)"

definition MarshalJSON :: "(time \<Rightarrow> int) \<Rightarrow> CertRecord \<Rightarrow> json" where
  "MarshalJSON zone c =
     JObject
       [(''key_id'', JString (rec_KeyID c)),
        (''principals'', if rec_Principals c = [] then JNull else JArray (map JString (rec_Principals c))),
        (''revoked'', JBool (rec_Revoked c)),
        (''message'', JString (rec_Message c)),
        (''created_at'', JString (format_time zone (rec_CreatedAt c))),
        (''expires'', JString (format_time zone (rec_Expires c)))]"

section \<open>Reading it back\<close>

fun json_text :: "json \<Rightarrow> string" where
  "json_text (JString s) = s"
| "json_text j = ''''"

fun json_texts :: "json \<Rightarrow> string list" where
  "json_texts (JArray js) = map json_text js"
| "json_texts j = []"

fun json_flag :: "json \<Rightarrow> bool" where
  "json_flag (JBool b) = b"
| "json_flag j = False"

fun json_get :: "json \<Rightarrow> string \<Rightarrow> json" where
  "json_get (JObject fs) k = (case map_of fs k of Some j \<Rightarrow> j | None \<Rightarrow> JNull)"
| "json_get j k = JNull"

definition read_record :: "json \<Rightarrow> CertRecord" where
  "read_record j =
     \<lparr>rec_ID = 0, rec_KeyID = json_text (json_get j ''key_id''), rec_Principals = json_texts (json_get j ''principals''),
      rec_CreatedAt = parse_stamp (json_text (json_get j ''created_at'')) * nano,
      rec_Expires = parse_stamp (json_text (json_get j ''expires'')) * nano,
      rec_Revoked = json_flag (json_get j ''revoked''), rec_Raw = '''', rec_Message = json_text (json_get j ''message'')\<rparr>"

text \<open>A time that the layout can show: a year of four digits and an offset of whole minutes and less than a hundred hours.\<close>

definition shown_time :: "(time \<Rightarrow> int) \<Rightarrow> time \<Rightarrow> bool" where
  "shown_time zone t \<longleftrightarrow>
     (let y = fst (date_at (t div nano + zone t)) in 0 \<le> y \<and> y \<le> 9999 \<and> zone t mod 60 = 0 \<and> \<bar>zone t\<bar> < 360000)"

lemma parse_format_time: "shown_time zone t \<Longrightarrow> parse_stamp (format_time zone t) = t div nano"
  unfolding shown_time_def format_time_def Let_def by (rule parse_format_stamp) simp_all

section \<open>Properties\<close>

text \<open>
  C34: what the server lists about a certificate is what its record says: the JSON form gives back the key id, the principals, the message, whether it is revoked, and the
  seconds of its creation and expiry, in any location; it depends on neither the database's number of the record nor the certificate itself, which are not handed out.
\<close>

theorem MarshalJSON_roundtrip:
  assumes "shown_time zone (rec_CreatedAt c)" and "shown_time zone (rec_Expires c)"
  shows "read_record (MarshalJSON zone c) = c\<lparr>rec_ID := 0, rec_Raw := '''', rec_CreatedAt := rec_CreatedAt c div nano * nano,
      rec_Expires := rec_Expires c div nano * nano\<rparr> \<and>
    MarshalJSON zone (c\<lparr>rec_ID := n, rec_Raw := raw\<rparr>) = MarshalJSON zone c"
proof -
  have "map (json_text \<circ> JString) ps = ps" for ps by (induction ps) simp_all
  then show ?thesis
    using parse_format_time [OF assms(1)] parse_format_time [OF assms(2)] by (cases c) (simp add: read_record_def MarshalJSON_def)
qed

definition wjson_record :: CertRecord where
  "wjson_record = \<lparr>rec_ID = 7, rec_KeyID = ''alice_0'', rec_Principals = [''alice''], rec_CreatedAt = 1491904800 * nano, rec_Expires = 1491904860 * nano,
     rec_Revoked = True, rec_Raw = ''raw'', rec_Message = ''why''\<rparr>"

lemma wjson_times:
  "date_at 1491904800 = (2017, 4, 11)" "date_at 1491904860 = (2017, 4, 11)" "format_stamp 0 1491904800 = ''2017-04-11 10:00:00 +0000''"
proof -
  show d: "date_at 1491904800 = (2017, 4, 11)" "date_at 1491904860 = (2017, 4, 11)"
    by (simp_all add: date_at_def date_def year_day_def epoch_day_def Let_def leap_def month_days_def)
  have "show_nat 2017 = ''2017''" "show_nat 4 = ''4''" "show_nat 11 = ''11''" "show_nat 10 = ''10''" "show_nat 0 = ''0''" by code_simp+
  with d(1) show "format_stamp 0 1491904800 = ''2017-04-11 10:00:00 +0000''"
    by (simp add: format_stamp_def format_datetime_def clock_at_def Let_def show_year_def pad_def show_zone_def)
qed

theorem MarshalJSON_roundtrip_witness:
  "read_record (MarshalJSON (\<lambda>_. 0) wjson_record) = wjson_record\<lparr>rec_ID := 0, rec_Raw := ''''\<rparr> \<and>
   format_time (\<lambda>_. 0) (rec_CreatedAt wjson_record) = ''2017-04-11 10:00:00 +0000''"
  using MarshalJSON_roundtrip [of "\<lambda>_. 0" wjson_record] wjson_times
  by (simp add: wjson_record_def shown_time_def format_time_def nano_def)

end
