(* ===== verification/Server_History.thy ===== *)
theory Server_History
  imports Server_Start Server_Login
begin

text \<open>
  The server over a whole history of requests, from any clients and with any faults of the database: what one request can do to the store, where the
  sessions that clients send come from, and what both mean for the revocations in the store.
\<close>

section \<open>What a request does to the store\<close>

text \<open>An action that leaves the store alone or changes it in one step of the given kind.\<close>

definition store_by :: "('s \<Rightarrow> 's \<Rightarrow> bool) \<Rightarrow> ('s, 'a) act \<Rightarrow> bool" where
  "store_by S m \<longleftrightarrow> (\<forall>h w. hs_store (fst (snd (m h w))) = hs_store h \<or> S (hs_store h) (hs_store (fst (snd (m h w)))))"

lemma store_by_kept: "store_kept m \<Longrightarrow> store_by S m"
  by (simp add: store_kept_def store_by_def)

lemma store_by_before:
  assumes "store_kept m" and "\<And>x. store_by S (f x)"
  shows "store_by S (act_bind m f)"
  unfolding store_by_def
proof (intro allI)
  fix h w
  obtain r h1 w1 where m: "m h w = (r, h1, w1)" by (cases "m h w")
  with assms(1) have "hs_store h1 = hs_store h" by (auto dest: store_keptD)
  with assms(2) m show "hs_store (fst (snd (act_bind m f h w))) = hs_store h \<or> S (hs_store h) (hs_store (fst (snd (act_bind m f h w))))"
    by (cases r) (simp_all add: act_bind_def store_by_def, metis)
qed

lemma store_by_after:
  assumes "store_by S m" and "\<And>x. store_kept (f x)"
  shows "store_by S (act_bind m f)"
  unfolding store_by_def
proof (intro allI)
  fix h w
  obtain r h1 w1 where m: "m h w = (r, h1, w1)" by (cases "m h w")
  with assms(1) have "hs_store h1 = hs_store h \<or> S (hs_store h) (hs_store h1)" unfolding store_by_def by (metis fst_conv snd_conv)
  with assms(2) m show "hs_store (fst (snd (act_bind m f h w))) = hs_store h \<or> S (hs_store h) (hs_store (fst (snd (act_bind m f h w))))"
    by (cases r) (simp_all add: act_bind_def store_kept_def)
qed

lemma store_by_on_store:
  assumes "\<And>s w. fst (snd (op s w)) = s \<or> S s (fst (snd (op s w)))"
  shows "store_by S (on_store op)"
  unfolding store_by_def
proof (intro allI)
  fix h w
  show "hs_store (fst (snd (on_store op h w))) = hs_store h \<or> S (hs_store h) (hs_store (fst (snd (on_store op h w))))"
    using assms [of "hs_store h" w] by (simp add: on_store_def split: prod.split) (metis fst_conv snd_conv)
qed

lemma store_by_authed:
  assumes "store_by S next"
  shows "store_by S (authed env a r next)"
  unfolding authed_def
  by (intro store_by_before) (use assms in \<open>auto intro: store_by_kept\<close>)

lemma store_by_csrf:
  assumes "csrf_ok env" and "store_by S next"
  shows "store_by S (csrf_Protect env conf r next)"
  unfolding store_by_def
proof (intro allI)
  fix h w
  from assms(1) consider h' where "hs_store h' = hs_store h" "csrf_Protect env conf r next h w = next h' w"
    | h' w' where "csrf_Protect env conf r next h w = (Return (), h', w')" "hs_store h' = hs_store h"
    unfolding csrf_ok_def by blast
  then show "hs_store (fst (snd (csrf_Protect env conf r next h w))) = hs_store h \<or>
      S (hs_store h) (hs_store (fst (snd (csrf_Protect env conf r next h w))))"
    using assms(2) by cases (simp_all add: store_by_def, metis)
qed

text \<open>The two kinds of step: a fresh record is set, or the certificates that the form names are revoked.\<close>

definition sets_record :: "('k, 'ca, 's) application \<Rightarrow> 's \<Rightarrow> 's \<Rightarrow> bool" where
  "sets_record a s s' \<longleftrightarrow> (\<exists>rec w res w'. \<not> rec_Revoked rec \<and> store_SetRecord (app_certstore a) rec s w = (res, s', w'))"

definition revokes :: "('k, 'ca, 's) application \<Rightarrow> request \<Rightarrow> 's \<Rightarrow> 's \<Rightarrow> bool" where
  "revokes a r s s' \<longleftrightarrow> (\<exists>w res w'. store_Revoke (app_certstore a) (form_all r ''cert_id'') s w = (res, s', w'))"

lemma act_bind_lift_Return: "act_bind (lift_outcome (Return x)) f = f x"
  by (intro ext) (simp add: act_bind_def lift_outcome_def)

lemma sign_issue_store: "store_by (sets_record a) (sign_issue env a req username)"
proof -
  have "store_by (sets_record a) (act_bind (lift_outcome (MakeRecord (env_ssh env) cert)) (\<lambda>rec.
      act_bind (on_store (store_SetRecord (app_certstore a) (rec\<lparr>rec_Message := msg\<rparr>))) f))" if f: "\<And>x. store_kept (f x)" for cert msg f
  proof (cases "MakeRecord (env_ssh env) cert")
    case (Return rec)
    then have "\<not> rec_Revoked (rec\<lparr>rec_Message := msg\<rparr>)" using MakeRecord_fields [OF Return] by simp
    then have "store_by (sets_record a) (on_store (store_SetRecord (app_certstore a) (rec\<lparr>rec_Message := msg\<rparr>)))"
      by (intro store_by_on_store) (metis sets_record_def prod.collapse)
    then have "store_by (sets_record a) (act_bind (on_store (store_SetRecord (app_certstore a) (rec\<lparr>rec_Message := msg\<rparr>))) f)"
      using f by (rule store_by_after)
    then show ?thesis using Return by (simp add: act_bind_lift_Return)
  next
    case Panic
    then show ?thesis by (simp add: store_by_def act_bind_def lift_outcome_def)
  qed
  note issue = this
  show ?thesis
    unfolding sign_issue_def
    by (intro store_by_before, simp)
      (auto split: sum.split prod.split option.split intro!: issue intro: store_by_kept)
qed

lemma sign_store: "store_by (sets_record a) (sign env a r)"
  unfolding sign_def Let_def
  by (intro store_by_before, simp)
    (auto split: sum.split intro!: store_by_before sign_issue_store intro: store_by_kept)

lemma revoke_store: "store_by (revokes a r) (revoke a r)"
  unfolding revoke_def
  by (intro store_by_after store_by_on_store) (auto simp: revokes_def split: option.split, metis prod.collapse)

lemma serve_store_cases:
  assumes "mux_ok env" and "csrf_ok env" and "recovery_ok env" and "reads_keep (app_certstore a)"
    and "serve env a r s w = (res, h', w')"
  obtains (kept) "hs_store h' = s"
  | (signed) "r_Method r = ''POST''" "r_Path r = ''/sign''" "\<exists>w1. prov_Valid (app_provider a) (tokenFromRequest r) w = (Return True, w1)"
      "sets_record a s (hs_store h')"
  | (revoked) "r_Method r = ''POST''" "r_Path r = ''/admin/revoke''" "\<exists>w1. logged_in env a (r_Session r) w w1"
      "revokes a r s (hs_store h')"
proof (cases "hs_store h' = s")
  case False
  note g = store_change_guard [OF assms False]
  from False assms(5) obtain hn where hn: "mux env setupRoutes r = Inr hn"
    by (cases "mux env setupRoutes r") (auto simp: serve_def WriteHeader_def on_resp_def)
  let ?h = "start_state env r s"
  have st: "hs_store ?h = s" by (simp add: start_state_def)
  have s': "hs_store h' = hs_store (fst (snd (serve_handler env a r hn ?h w)))"
    using serve_store [OF assms(3) hn, of a s w] assms(5) by simp
  have step: "S s (hs_store h')" if "store_by S (serve_handler env a r hn)" for S
    using that False unfolding s' store_by_def by (metis st)
  from assms(1) hn obtain rt where "rt \<in> set setupRoutes" "route_matches rt r" and rt: "hn = route_handler rt"
    unfolding mux_ok_def by blast
  then show thesis
  proof (cases rule: setupRoutes_cases)
    case revoke
    then have "store_by (revokes a r) (serve_handler env a r hn)"
      using rt by (auto intro!: store_by_authed store_by_csrf [OF assms(2)] revoke_store)
    from step [OF this] g revoke show thesis by (intro revoked) auto
  next
    case sign
    then have "store_by (sets_record a) (serve_handler env a r hn)" using rt sign_store by simp
    from step [OF this] g sign show thesis by (intro signed) auto
  qed (use s' False rt store_kept_reads [OF assms(4)] assms(2) serve_handler_other store_kept_at st in
      \<open>metis authed_kept csrf_kept serve_handler.simps store_kept_index store_kept_getAllCerts store_kept_auth\<close>)+
qed (rule kept)

section \<open>Where sessions come from\<close>

text \<open>
  A state of the request \<open>r\<close> in which the value for a key in the session, and the one in the cookie that was set if there is one, is among \<open>T\<close>; in a callback the state of the session is
  the one that came with the request.
\<close>

definition session_in :: "request \<Rightarrow> string \<Rightarrow> string option set \<Rightarrow> 's hstate \<Rightarrow> bool" where
  "session_in r key T h \<longleftrightarrow> map_of (hs_session h) key \<in> T \<and> (\<forall>vs. w_cookie (hs_resp h) = Some vs \<longrightarrow> map_of vs key \<in> T) \<and>
     (r_Path r = ''/auth/callback'' \<longrightarrow> session_value (hs_session h) ''state'' = session_value (r_Session r) ''state'')"

lemma keeps_session_resp: "(\<And>rw. w_cookie (f rw) = w_cookie rw) \<Longrightarrow> keeps (session_in r key T) (on_resp f)"
  by (simp add: keeps_def on_resp_def session_in_def)

lemma keeps_session_store [simp]: "keeps (session_in r key T) (on_store op)"
  by (simp add: keeps_def on_store_def session_in_def split: prod.split)

lemma keeps_session_writes [simp]:
  "keeps (session_in r key T) (WriteHeader c)" "keeps (session_in r key T) (Write b)" "keeps (session_in r key T) (Header_Set k v)"
  "keeps (session_in r key T) (Header_Add k v)"
  by (auto simp: WriteHeader_def Write_def Header_Set_def Header_Add_def intro!: keeps_session_resp)

lemma keeps_session_Encode [simp]: "keeps (session_in r key T) (Encode nw b)"
  by (auto simp: Encode_def split: option.split)

lemma keeps_session_Redirect [simp]: "keeps (session_in r key T) (http_Redirect r' url code)"
  by (auto simp: http_Redirect_def)

lemma keeps_session_get [simp]: "keeps I (getSessionVariable k)" "keeps I (getAuthToken env)"
  by (auto simp: getAuthToken_def) (simp_all add: keeps_def getSessionVariable_def)

lemma keeps_session_bind_get:
  assumes "\<And>h. I h \<Longrightarrow> keeps I (f (session_value (hs_session h) k))"
  shows "keeps I (act_bind (getSessionVariable k) f)"
  using assms by (simp add: keeps_def act_bind_def getSessionVariable_eq)

lemma keeps_session_set:
  assumes "k = key \<Longrightarrow> Some v \<in> T" and "k = ''state'' \<Longrightarrow> r_Path r \<noteq> ''/auth/callback''"
  shows "keeps (session_in r key T) (setSessionVariable env k v)"
  using assms by (auto simp: keeps_def session_in_def setSessionVariable_def Let_def update_conv')

lemma keeps_session_pages [simp]:
  "keeps (session_in r key T) (sign_fail env code e)" "keeps (session_in r key T) unauthorized_page" "keeps (session_in r key T) error_page"
  by (auto simp: sign_fail_def unauthorized_page_def error_page_def)

text \<open>What a session is asked for here: its token or its state.\<close>

lemma keeps_session_authed:
  "key \<noteq> ''origin_url'' \<Longrightarrow> keeps (session_in r key T) next \<Longrightarrow> keeps (session_in r key T) (authed env a r' next)"
  by (auto simp: authed_def intro!: keeps_session_set)

lemma keeps_session_handlers [simp]:
  "keeps (session_in r key T) (sign env a r')" "keeps (session_in r key T) (revoked env a)" "keeps (session_in r key T) (getCertsJSON env a r')"
  "keeps (session_in r key T) (revoke a r')" "keeps (session_in r key T) (index env r')" "keeps (session_in r key T) (getAllCerts env r')"
  by (auto simp: sign_def sign_issue_def revoked_def getCertsJSON_def revoke_def index_def getAllCerts_def Let_def split: sum.split option.split prod.split)

text \<open>The tokens that the provider gave for the code of a callback whose state is that of its session, and the states that a login drew.\<close>

definition exchanged :: "('k, 'ca, 's) application \<Rightarrow> request \<Rightarrow> Token \<Rightarrow> bool" where
  "exchanged a r t \<longleftrightarrow> r_Path r = ''/auth/callback'' \<and> FormValue r ''state'' = session_value (r_Session r) ''state'' \<and>
     (\<exists>w w'. prov_Exchange (app_provider a) (FormValue r ''code'') w = (Return (Inr t), w'))"

definition drawn :: "('k, 'ca, 's) server_env \<Rightarrow> request \<Rightarrow> string \<Rightarrow> bool" where
  "drawn env r st \<longleftrightarrow> r_Path r = ''/auth/login'' \<and> (\<exists>n. st = hex_EncodeToString (env_rand env n))"

definition new_value :: "('k, 'ca, 's) server_env \<Rightarrow> ('k, 'ca, 's) application \<Rightarrow> request \<Rightarrow> string \<Rightarrow> string \<Rightarrow> bool" where
  "new_value env a r key v \<longleftrightarrow>
     (key = ''token'' \<and> (\<exists>t. exchanged a r t \<and> v = token_Marshal env t)) \<or> (key = ''state'' \<and> drawn env r v)"

lemma keeps_session_auth:
  assumes "\<And>v. new_value env a r key v \<Longrightarrow> Some v \<in> T"
  shows "keeps (session_in r key T) (auth env a r)"
proof -
  have "keeps (session_in r key T) (auth_login env a r)" if p: "r_Path r = ''/auth/login''"
    by (auto simp: auth_login_def Let_def draw_def p new_value_def drawn_def intro!: keeps_session_set keeps_io assms)
  moreover have "keeps (session_in r key T) (auth_callback env a r)" if p: "r_Path r = ''/auth/callback''"
  proof -
    have "keeps (session_in r key T) (setAuthToken env t)" if "prov_Exchange (app_provider a) (FormValue r ''code'') w = (Return (Inr t), w')"
        "FormValue r ''state'' = session_value (r_Session r) ''state''" for t w w'
      unfolding setAuthToken_def by (rule keeps_session_set) (use that p assms [of "token_Marshal env t"] in \<open>auto simp: new_value_def exchanged_def\<close>)
    then show ?thesis
      unfolding auth_callback_def Let_def
      by (intro keeps_session_bind_get) (auto simp: session_in_def p split: sum.split intro!: keeps_io)
  qed
  ultimately show ?thesis by (simp add: auth_def)
qed

text \<open>CSRF protection has a cookie of its own and leaves the one of the session alone.\<close>

definition csrf_session_ok :: "('k, 'ca, 's) server_env \<Rightarrow> bool" where
  "csrf_session_ok env \<longleftrightarrow>
     (\<forall>conf r next h w.
        (\<exists>h'. hs_session h' = hs_session h \<and> w_cookie (hs_resp h') = w_cookie (hs_resp h) \<and> csrf_Protect env conf r next h w = next h' w) \<or>
        (\<exists>h' w'. csrf_Protect env conf r next h w = (Return (), h', w') \<and> hs_session h' = hs_session h \<and> w_cookie (hs_resp h') = w_cookie (hs_resp h)))"

lemma keeps_session_csrf:
  fixes env :: "('k, 'ca, 's) server_env"
  assumes "csrf_session_ok env" and "keeps (session_in r key T) next"
  shows "keeps (session_in r key T) (csrf_Protect env conf r' next)"
  unfolding keeps_def
proof (intro allI impI)
  fix h :: "'s hstate" and w assume h: "session_in r key T h"
  from assms(1) consider h' where "hs_session h' = hs_session h" "w_cookie (hs_resp h') = w_cookie (hs_resp h)" "csrf_Protect env conf r' next h w = next h' w"
    | h' w' where "csrf_Protect env conf r' next h w = (Return (), h', w')" "hs_session h' = hs_session h" "w_cookie (hs_resp h') = w_cookie (hs_resp h)"
    unfolding csrf_session_ok_def by blast
  then show "session_in r key T (fst (snd (csrf_Protect env conf r' next h w)))"
  proof cases
    case (1 h')
    then have "session_in r key T h'" using h by (simp add: session_in_def)
    with 1 assms(2) show ?thesis by (simp add: keeps_def)
  next
    case (2 h' w')
    with h show ?thesis by (simp add: session_in_def)
  qed
qed

lemma serve_session:
  assumes "recovery_ok env" and "csrf_session_ok env" and "serve env a r s w = (res, h', w')"
    and "w_cookie (hs_resp h') = Some vs" and "key \<noteq> ''origin_url''"
  shows "map_of vs key = map_of (r_Session r) key \<or> (\<exists>v. new_value env a r key v \<and> map_of vs key = Some v)"
proof -
  let ?T = "{map_of (r_Session r) key} \<union> {Some v |v. new_value env a r key v}"
  have k: "keeps (session_in r key ?T) (serve_handler env a r hn)" for hn
    by (induction hn) (auto intro!: keeps_session_authed [OF assms(5)] keeps_session_csrf [OF assms(2)] keeps_session_auth)
  have "session_in r key ?T h'"
  proof (cases "mux env setupRoutes r")
    case (Inl code)
    with assms(3) show ?thesis by (auto simp: serve_def WriteHeader_def on_resp_def session_in_def new_response_def)
  next
    case (Inr hn)
    have "session_in r key ?T (start_state env r s)" by (simp add: session_in_def start_state_def new_response_def)
    with k [of hn] have "session_in r key ?T (fst (snd (serve_handler env a r hn (start_state env r s) w)))" by (simp add: keeps_def)
    with assms(3) show ?thesis
      unfolding serve_eq [OF assms(1) Inr] by (auto simp: session_in_def split: prod.splits outcome.splits)
  qed
  with assms(4) show ?thesis by (auto simp: session_in_def)
qed

section \<open>Histories\<close>

text \<open>
  A history is the list of the requests that were served, each with the world it started in and the state it left. A client can send what it likes, with one
  exception: the session of a request is empty or was handed out in a cookie, since the cookies are authenticated with the server's secret.
\<close>

record 's event =
  ev_request :: request
  ev_world :: world
  ev_after :: "'s hstate"

definition genuine :: "'s event list \<Rightarrow> request \<Rightarrow> bool" where
  "genuine es r \<longleftrightarrow> r_Session r = [] \<or> (\<exists>e \<in> set es. w_cookie (hs_resp (ev_after e)) = Some (r_Session r))"

inductive served :: "('k, 'ca, 's) server_env \<Rightarrow> ('k, 'ca, 's) application \<Rightarrow> 's \<Rightarrow> 's event list \<Rightarrow> 's \<Rightarrow> bool"
  for env a s0 where
  none_served: "served env a s0 [] s0"
| one_more: "served env a s0 es s \<Longrightarrow> genuine es r \<Longrightarrow> serve env a r s w = (res, h', w') \<Longrightarrow>
    served env a s0 (es @ [\<lparr>ev_request = r, ev_world = w, ev_after = h'\<rparr>]) (hs_store h')"

text \<open>Where something that is true of the store became true.\<close>

lemma served_became:
  assumes "served env a s0 es s" and "P s" and "\<not> P s0"
  obtains es1 e es2 s1 res w' where "es = es1 @ e # es2" and "served env a s0 es1 s1" and "genuine es1 (ev_request e)"
    and "serve env a (ev_request e) s1 (ev_world e) = (res, ev_after e, w')" and "\<not> P s1" and "P (hs_store (ev_after e))"
proof -
  from assms have "\<exists>es1 e es2 s1 res w'. es = es1 @ e # es2 \<and> served env a s0 es1 s1 \<and> genuine es1 (ev_request e) \<and>
      serve env a (ev_request e) s1 (ev_world e) = (res, ev_after e, w') \<and> \<not> P s1 \<and> P (hs_store (ev_after e))"
  proof (induction rule: served.induct)
    case (one_more es s r w res h' w')
    let ?e = "\<lparr>ev_request = r, ev_world = w, ev_after = h'\<rparr>"
    show ?case
    proof (cases "P s")
      case True
      then obtain es1 e es2 s1 res1 w1 where "es = es1 @ e # es2" "served env a s0 es1 s1" "genuine es1 (ev_request e)"
          "serve env a (ev_request e) s1 (ev_world e) = (res1, ev_after e, w1)" "\<not> P s1" "P (hs_store (ev_after e))"
        using one_more.IH one_more.prems by blast
      moreover from this(1) have "es @ [?e] = es1 @ e # (es2 @ [?e])" by simp
      ultimately show ?thesis by blast
    next
      case False
      with one_more.hyps one_more.prems show ?thesis
        by (intro exI [of _ es] exI [of _ ?e] exI [of _ "[]"] exI [of _ s] exI [of _ res] exI [of _ w']) simp
    qed
  qed simp
  then show thesis using that by blast
qed

lemma served_session:
  assumes "served env a s0 es s" and "recovery_ok env" and "csrf_session_ok env" and "key \<noteq> ''origin_url''"
    and "e \<in> set es" and "w_cookie (hs_resp (ev_after e)) = Some vs" and "map_of vs key = Some v"
  shows "\<exists>e0 \<in> set es. new_value env a (ev_request e0) key v"
  using assms(1,5-7)
proof (induction arbitrary: e vs rule: served.induct)
  case (one_more es s r w res h' w')
  show ?case
  proof (cases "e \<in> set es")
    case True
    from one_more.IH [OF this one_more.prems(2,3)] show ?thesis by auto
  next
    case False
    with one_more.prems(1,2) have c: "w_cookie (hs_resp h') = Some vs" by auto
    from serve_session [OF assms(2,3) one_more.hyps(3) c assms(4)] show ?thesis
    proof
      assume t: "map_of vs key = map_of (r_Session r) key"
      then obtain e1 where "e1 \<in> set es" "w_cookie (hs_resp (ev_after e1)) = Some (r_Session r)"
        using one_more.hyps(2) one_more.prems(3) by (auto simp: genuine_def)
      from one_more.IH [OF this] t one_more.prems(3) show ?thesis by auto
    qed (use one_more.prems(3) in auto)
  qed
qed simp

text \<open>The values of the session that a genuine request brings along.\<close>

lemma genuine_session:
  assumes "served env a s0 es s" and "recovery_ok env" and "csrf_session_ok env" and "key \<noteq> ''origin_url''" and "genuine es r" and "map_of (r_Session r) key = Some v"
  shows "\<exists>e0 \<in> set es. new_value env a (ev_request e0) key v"
  using assms(5,6) served_session [OF assms(1-4)] by (auto simp: genuine_def)

text \<open>A session that the login guard lets in has a token that the provider gave to this server, if the text of no token reads as an empty one.\<close>

lemma logged_in_exchanged:
  assumes "served env a s0 es s" and "recovery_ok env" and "csrf_session_ok env" and "genuine es r"
    and "token_valid_ok (env_oauth env)" and "token_Unmarshal env '''' = empty_Token" and "logged_in env a (r_Session r) w w1"
  shows "\<exists>e0 \<in> set es. \<exists>t. exchanged a (ev_request e0) t \<and> session_token env (r_Session r) = token_Unmarshal env (token_Marshal env t)"
proof -
  have "AccessToken (session_token env (r_Session r)) \<noteq> ''''" using assms(5,7) by (auto simp: logged_in_def token_valid_ok_def)
  then have n: "map_of (r_Session r) ''token'' \<noteq> None"
    using assms(6) by (cases "map_of (r_Session r) ''token''") (auto simp: session_token_def empty_Token_def)
  then obtain v where t: "map_of (r_Session r) ''token'' = Some v" by blast
  obtain e0 tok where "e0 \<in> set es" "exchanged a (ev_request e0) tok" and v: "v = token_Marshal env tok"
    using genuine_session [OF assms(1-3) _ assms(4) t] by (auto simp: new_value_def)
  moreover from t v have "session_token env (r_Session r) = token_Unmarshal env (token_Marshal env tok)" by (simp add: session_token_def)
  ultimately show ?thesis by blast
qed

section \<open>The ledger over a history\<close>

definition revoked_in :: "any_store \<Rightarrow> string \<Rightarrow> bool" where
  "revoked_in s k \<longleftrightarrow> (case any_ledger s k of Some r \<Rightarrow> rec_Revoked r | None \<Rightarrow> False)"

lemma any_sqlE:
  "store_SetRecord (anyStorer clk order env) rec (Inr d) w = (res, s', w') \<Longrightarrow> \<exists>d'. sqlStore_SetRecord env rec d w = (res, d', w') \<and> s' = Inr d'"
  "store_Revoke (anyStorer clk order env) ids (Inr d) w = (res, s', w') \<Longrightarrow> \<exists>d'. sqlStore_Revoke env ids d w = (res, d', w') \<and> s' = Inr d'"
  by (auto simp: dispatch_def sqlStorer_def split: prod.splits)

text \<open>The in-memory store after a revocation, whether it returned or panicked.\<close>

lemma any_memE:
  assumes "store_Revoke (anyStorer clk order env) ids (Inl ms) w = (res, s', w')"
  obtains "s' = Inl ms" | m o' m' where "certs ms = Some m" "revoke_loop m ids = (o', m')" "s' = Inl (ms\<lparr>certs := Some m'\<rparr>)"
proof (cases "certs ms")
  case None
  with assms that(1) show thesis by (auto simp: dispatch_def memoryStorer_def memoryStore_Revoke_def split: if_splits)
next
  case (Some m)
  obtain o' m' where l: "revoke_loop m ids = (o', m')" by (cases "revoke_loop m ids")
  with assms Some have "s' = Inl (ms\<lparr>certs := Some m'\<rparr>)"
    by (cases o') (auto simp: dispatch_def memoryStorer_def memoryStore_Revoke_def)
  with Some l show thesis by (rule that(2))
qed

lemma sql_SetRecord_cases:
  assumes "sqlStore_SetRecord env r d w = (res, d', w')"
  obtains "d' = d" | ps where "d' = snd (insert_row (rec_KeyID r) ps (rec_CreatedAt r) (rec_Expires r) (rec_Raw r) (rec_Message r) d)"
  using assms that(2) [of "json_Marshal (rec_Principals r)"] that(1)
  by (auto simp: sqlStore_SetRecord_def StringSlice_Value_def Exec_def Let_def case_prod_unfold split: option.splits fault.splits)

lemma sql_Revoke_cases:
  assumes "sqlStore_Revoke env ids d w = (res, d', w')"
  obtains "d' = d" | "d' = snd (update_revoked ids d)"
  using assms by (auto simp: sqlStore_Revoke_def Exec_def Let_def case_prod_unfold split: option.splits fault.splits)


lemma sql_insert_ledger:
  "\<exists>x. \<not> rec_Revoked x \<and> sql_ledger (snd (insert_row k ps c e raw msg d)) = (if sql_ledger d k = None then (sql_ledger d)(k \<mapsto> x) else sql_ledger d)"
proof (cases "k \<in> dom (sql_ledger d)")
  case True
  then have "sql_ledger (snd (insert_row k ps c e raw msg d)) = sql_ledger d" "sql_ledger d k \<noteq> None"
    by (simp_all add: insert_row_def dom_sql_ledger [symmetric] domIff)
  moreover have "\<exists>x. \<not> rec_Revoked x" by (intro exI [of _ "undefined\<lparr>rec_Revoked := False\<rparr>"]) simp
  ultimately show ?thesis by auto
next
  case False
  let ?new = "\<lparr>row_id = last_id d + 1, row_key_id = k, row_principals = ps, row_created_at = c, row_expires_at = e, row_revoked = False,
      row_raw_key = raw, row_message = msg\<rparr>"
  from False have n: "sql_ledger d k = None" and k: "k \<notin> row_key_id ` set (rows d)" by (auto simp: dom_sql_ledger [symmetric] domIff)
  have "sql_ledger (snd (insert_row k ps c e raw msg d)) = (sql_ledger d)(k \<mapsto> row_rec ?new)"
    using n k by (auto simp: insert_row_def sql_ledger_def fun_eq_iff map_add_def split: option.split)
  then show ?thesis using n by (intro exI [of _ "row_rec ?new"]) simp
qed

lemma sql_update_ledger: "sql_ledger (snd (update_revoked ids d)) = led_revoke (sql_ledger d) ids"
  by (rule update_revoked_ledger [of ids d]) simp

lemma revoke_loop_revoked:
  assumes "revoke_loop m ids = (res, m')" and "map_of m' k = Some r'" and "rec_Revoked r'"
  shows "k \<in> set ids \<or> (\<exists>r. map_of m k = Some r \<and> rec_Revoked r)"
  using assms
  by (induction m ids rule: revoke_loop.induct) (fastforce simp: update_conv' split: option.splits if_splits)+

lemma revoke_loop_dom: "revoke_loop m ids = (res, m') \<Longrightarrow> dom (map_of m') = dom (map_of m)"
  by (induction m ids rule: revoke_loop.induct) (auto simp: update_conv' split: option.splits if_splits)

text \<open>Setting a record that is not revoked revokes nothing, and revoking revokes what it names and adds nothing.\<close>

lemma sets_record_revoked:
  assumes "app_certstore a = anyStorer clk order env" and "sets_record a s s'" and "revoked_in s' k"
  shows "revoked_in s k"
proof -
  obtain rec w res w' where r: "\<not> rec_Revoked rec" "store_SetRecord (anyStorer clk order env) rec s w = (res, s', w')"
    using assms(1,2) by (auto simp: sets_record_def)
  show ?thesis
  proof (cases s)
    case (Inl ms)
    with r assms(3) show ?thesis
      by (auto simp: dispatch_def memoryStorer_def memoryStore_SetRecord_def revoked_in_def mem_ledger_def entries_def update_conv'
          split: option.splits prod.splits if_splits)
  next
    case (Inr d)
    with r(2) obtain d' where d: "sqlStore_SetRecord env rec d w = (res, d', w')" "s' = Inr d'" using any_sqlE(1) by blast
    from d(1) show ?thesis
    proof (cases rule: sql_SetRecord_cases)
      case (2 ps)
      with sql_insert_ledger [of "rec_KeyID rec" ps "rec_CreatedAt rec" "rec_Expires rec" "rec_Raw rec" "rec_Message rec" d] assms(3) Inr d(2)
      show ?thesis by (auto simp: revoked_in_def split: option.splits if_splits)
    qed (use assms(3) Inr d(2) in simp)
  qed
qed

lemma revokes_revoked:
  assumes "app_certstore a = anyStorer clk order env" and "revokes a r s s'" and "revoked_in s' k"
  shows "revoked_in s k \<or> k \<in> set (form_all r ''cert_id'')"
proof -
  let ?ids = "form_all r ''cert_id''"
  obtain w res w' where r: "store_Revoke (anyStorer clk order env) ?ids s w = (res, s', w')"
    using assms(1,2) by (auto simp: revokes_def)
  show ?thesis
  proof (cases s)
    case (Inl ms)
    from r [unfolded Inl] show ?thesis
    proof (cases rule: any_memE)
      case (2 m o' m')
      with assms(3) obtain x where "map_of m' k = Some x" "rec_Revoked x"
        by (auto simp: revoked_in_def mem_ledger_def entries_def split: option.splits)
      from revoke_loop_revoked [OF 2(2) this] Inl 2(1) show ?thesis by (auto simp: revoked_in_def mem_ledger_def entries_def)
    qed (use assms(3) Inl in simp)
  next
    case (Inr d)
    with r obtain d' where d: "sqlStore_Revoke env ?ids d w = (res, d', w')" "s' = Inr d'" using any_sqlE(2) by blast
    from d(1) show ?thesis
    proof (cases rule: sql_Revoke_cases)
      case 2
      with assms(3) Inr d(2) show ?thesis by (auto simp: revoked_in_def sql_update_ledger led_revoke_def split: option.splits if_splits)
    qed (use assms(3) Inr d(2) in simp)
  qed
qed

lemma sets_record_dom:
  assumes "app_certstore a = anyStorer clk order env" and "sets_record a s s'"
  shows "dom (any_ledger s) \<subseteq> dom (any_ledger s')"
proof -
  obtain rec w res w' where r: "store_SetRecord (anyStorer clk order env) rec s w = (res, s', w')"
    using assms(1,2) by (auto simp: sets_record_def)
  show ?thesis
  proof (cases s)
    case (Inl ms)
    with r show ?thesis
      by (auto simp: dispatch_def memoryStorer_def memoryStore_SetRecord_def mem_ledger_def entries_def update_conv'
          split: option.splits prod.splits if_splits)
  next
    case (Inr d)
    with r obtain d' where d: "sqlStore_SetRecord env rec d w = (res, d', w')" "s' = Inr d'" using any_sqlE(1) by blast
    from d(1) show ?thesis
    proof (cases rule: sql_SetRecord_cases)
      case (2 ps)
      with sql_insert_ledger [of "rec_KeyID rec" ps "rec_CreatedAt rec" "rec_Expires rec" "rec_Raw rec" "rec_Message rec" d] Inr d(2)
      show ?thesis by (auto split: if_splits)
    qed (use Inr d(2) in simp)
  qed
qed

lemma revokes_dom:
  assumes "app_certstore a = anyStorer clk order env" and "revokes a r s s'"
  shows "dom (any_ledger s') = dom (any_ledger s)"
proof -
  let ?ids = "form_all r ''cert_id''"
  obtain w res w' where r: "store_Revoke (anyStorer clk order env) ?ids s w = (res, s', w')"
    using assms(1,2) by (auto simp: revokes_def)
  show ?thesis
  proof (cases s)
    case (Inl ms)
    from r [unfolded Inl] show ?thesis
    proof (cases rule: any_memE)
      case (2 m o' m')
      with revoke_loop_dom [OF 2(2)] Inl show ?thesis by (auto simp: mem_ledger_def entries_def dom_def set_eq_iff)
    qed (use Inl in simp)
  next
    case (Inr d)
    with r obtain d' where d: "sqlStore_Revoke env ?ids d w = (res, d', w')" "s' = Inr d'" using any_sqlE(2) by blast
    from d(1) show ?thesis
      by (cases rule: sql_Revoke_cases) (use Inr d(2) in \<open>auto simp: sql_update_ledger led_revoke_def split: option.splits if_splits\<close>)
  qed
qed

text \<open>In the SQL store no step takes a revocation back.\<close>

lemma sql_step_keeps_revoked:
  assumes "app_certstore a = anyStorer clk order env" and "sets_record a (Inr d) s' \<or> revokes a r (Inr d) s'" and "revoked_in (Inr d) k"
  shows "revoked_in s' k" and "\<exists>d'. s' = Inr d'"
proof -
  have "revoked_in s' k \<and> (\<exists>d'. s' = Inr d')"
    using assms(2)
  proof
    assume "sets_record a (Inr d) s'"
    then obtain rec w res w' where "store_SetRecord (anyStorer clk order env) rec (Inr d) w = (res, s', w')"
      using assms(1) by (auto simp: sets_record_def)
    then obtain d' where d: "sqlStore_SetRecord env rec d w = (res, d', w')" "s' = Inr d'" using any_sqlE(1) by blast
    from d(1) show ?thesis
    proof (cases rule: sql_SetRecord_cases)
      case (2 ps)
      with sql_insert_ledger [of "rec_KeyID rec" ps "rec_CreatedAt rec" "rec_Expires rec" "rec_Raw rec" "rec_Message rec" d] d(2) assms(3)
      show ?thesis by (auto simp: revoked_in_def split: option.splits if_splits)
    qed (use d(2) assms(3) in simp)
  next
    assume "revokes a r (Inr d) s'"
    then obtain w res w' where "store_Revoke (anyStorer clk order env) (form_all r ''cert_id'') (Inr d) w = (res, s', w')"
      using assms(1) by (auto simp: revokes_def)
    then obtain d' where d: "sqlStore_Revoke env (form_all r ''cert_id'') d w = (res, d', w')" "s' = Inr d'" using any_sqlE(2) by blast
    from d(1) show ?thesis
      by (cases rule: sql_Revoke_cases) (use d(2) assms(3) in \<open>auto simp: revoked_in_def sql_update_ledger led_revoke_def split: option.splits if_splits\<close>)
  qed
  then show "revoked_in s' k" and "\<exists>d'. s' = Inr d'" by simp_all
qed

section \<open>A concrete history for the witnesses\<close>

text \<open>What is assumed of the packages around the handlers.\<close>

definition packages_ok :: "('k, 'ca, 's) server_env \<Rightarrow> bool" where
  "packages_ok env \<longleftrightarrow> mux_ok env \<and> csrf_ok env \<and> csrf_session_ok env \<and> recovery_ok env \<and>
     token_valid_ok (env_oauth env) \<and> token_Unmarshal env '''' = empty_Token"

definition whenv :: "(string, unit, any_store) server_env" where
  "whenv = wserver\<lparr>token_Unmarshal := (\<lambda>s. if s = '''' then empty_Token else wtoken\<lparr>AccessToken := s, Expiry := 50 + Hour\<rparr>)\<rparr>"

definition wany :: "(string, unit, any_store) application" where
  "wany = \<lparr>app_provider = wprovider, app_certstore = anyStorer (\<lambda>_. 50) (\<lambda>_ _. 0) wenv, app_keysigner = wsigner,
     app_config = wconf, app_requireReason = True\<rparr>"

definition wcallback :: request where
  "wcallback = (wrequest ''GET'' ''/auth/callback'')\<lparr>r_Form := [(''code'', [''good''])], r_Session := []\<rparr>"

definition wrevoked :: db where
  "wrevoked = snd (update_revoked [''alice_1''] wdb)"

lemma whenv_fields [simp]:
  "mux whenv = first_route" "session_Save whenv vs = None" "env_oauth whenv = wapi" "env_clk whenv = (\<lambda>_. 50)" "token_Marshal whenv = AccessToken"
  "csrf_Protect whenv c r next = next" "env_ssh whenv = wssh"
  by (simp_all add: whenv_def)

lemma whenv_ok [simp]: "packages_ok whenv"
proof -
  have "mux_ok whenv" using first_route_matches by (simp add: mux_ok_def)
  moreover have "csrf_ok whenv" by (auto simp: csrf_ok_def)
  moreover have "csrf_session_ok whenv" by (auto simp: csrf_session_ok_def)
  moreover have "recovery_ok whenv" by (simp add: recovery_ok_def whenv_def wserver_def)
  ultimately show ?thesis by (simp add: packages_ok_def) (simp add: whenv_def)
qed

lemma wlogged: "\<exists>w1. logged_in whenv wany [(''token'', ''tok'')] w w1"
  using wprovider_Valid [of "wtoken\<lparr>AccessToken := ''tok'', Expiry := 50 + Hour\<rparr>" "w\<lparr>ticks := Suc (ticks w)\<rparr>"]
  by (simp add: logged_in_def session_token_def wany_def) (simp add: wapi_def wtoken_def Hour_def nano_def whenv_def)

lemma wcallback_served:
  obtains res h' w' where "serve whenv wany wcallback s world0 = (res, h', w')" and "hs_store h' = s" and "w_cookie (hs_resp h') = Some [(''token'', ''tok'')]"
proof -
  have m: "mux whenv setupRoutes wcallback = Inr HAuth"
    by (simp add: first_route_def setupRoutes_def on_path_def route_matches_def wcallback_def wrequest_def HasPrefix_def)
  have r: "recovery_ok whenv" using whenv_ok by (simp add: packages_ok_def)
  obtain res h' w' where h: "serve whenv wany wcallback s world0 = (res, h', w')" by (cases "serve whenv wany wcallback s world0")
  let ?h = "start_state whenv wcallback s"
  obtain res1 h1 w1 where c: "auth_callback whenv wany wcallback ?h world0 = (res1, h1, w1)"
    by (cases "auth_callback whenv wany wcallback ?h world0")
  have a: "serve_handler whenv wany wcallback HAuth ?h world0 = (res1, h1, w1)"
    using c by (simp add: auth_def wcallback_def wrequest_def)
  obtain t w2 where t: "prov_Exchange (app_provider wany) (FormValue wcallback ''code'') world0 = (Return (Inr t), w2)" "AccessToken t = ''tok''"
    by (cases "Unix zero_time \<le> 0")
      (simp_all add: wany_def wcallback_def wprovider_def github_provider_def github_Exchange_def FormValue_def values_Get_def wapi_def empty_Token_def io_defs)
  have "w_cookie (hs_resp h1) = Some [(''token'', ''tok'')]"
    using auth_callback_cookie [OF _ _ _ t(1) c] t(2)
    by (simp add: start_state_def new_response_def FormValue_def values_Get_def session_value_def wcallback_def)
  moreover have "hs_store h1 = s"
    using store_keptD [OF store_kept_auth, of whenv wany wcallback ?h world0] a by (simp add: start_state_def)
  ultimately show thesis using that h serve_eq [OF r m, of wany s world0] a by (cases res1) auto
qed

lemma wrevoke_served:
  assumes "s = Inl wmem \<or> s = Inr wdb"
  obtains res h' w' where "serve whenv wany (wrequest ''POST'' ''/admin/revoke'') s w = (res, h', w')" and "revoked_in (hs_store h') ''alice_1''"
    and "any_ledger (hs_store h') = led_revoke (any_ledger s) [''alice_1'']"
proof -
  let ?r = "wrequest ''POST'' ''/admin/revoke''"
  have m: "mux whenv setupRoutes ?r = Inr (Authed (Csrf HRevoke))"
    by (simp add: first_route_def setupRoutes_def on_path_def route_matches_def wrequest_def HasPrefix_def)
  have rec: "recovery_ok whenv" using whenv_ok by (simp add: packages_ok_def)
  obtain w1 where l: "logged_in whenv wany (hs_session (start_state whenv ?r s)) w w1"
    using wlogged by (auto simp: start_state_def wrequest_def)
  have e: "serve_handler whenv wany ?r (Authed (Csrf HRevoke)) (start_state whenv ?r s) w = revoke wany ?r (start_state whenv ?r s) w1"
    by (simp add: authed_logged_in [OF l])
  have f: "form_all ?r ''cert_id'' = [''alice_1'']" by (simp add: form_all_def wrequest_def)
  have d: "any_usable s" "set [''alice_1''] \<subseteq> dom (any_ledger s)" using assms by (elim disjE; simp)+
  then obtain s' w2 where s': "store_Revoke (app_certstore wany) [''alice_1''] s w1 = (Return None, s', w2)" "any_ledger s' = led_revoke (any_ledger s) [''alice_1'']"
    using any.revoke_law [where clk = "\<lambda>_. 50" and order = "\<lambda>_ _. 0" and env = wenv and s = s and w = w1 and ids = "[''alice_1'']"]
    by (auto simp: wany_def simp del: anyStorer_fields)
  have "\<exists>h' w'. revoke wany ?r (start_state whenv ?r s) w1 = (Return (), h', w') \<and> hs_store h' = s'"
    using s'(1) f http_Redirect_eq [of "(start_state whenv ?r s)\<lparr>hs_store := s'\<rparr>" ?r "''/admin/certs''" 303 w2]
    by (simp add: revoke_def act_bind_def on_store_def start_state_def new_response_def)
  then obtain h' w' where "serve whenv wany ?r s w = (Return (), h', w')" "hs_store h' = s'"
    unfolding serve_eq [OF rec m] e by auto
  moreover have "revoked_in s' ''alice_1''" using s'(2) d(2) by (auto simp: revoked_in_def led_revoke_def)
  ultimately show thesis using that s'(2) by blast
qed

text \<open>The history of a login and a revocation.\<close>

lemma whistory:
  obtains es s where "served whenv wany (Inl wmem) es s" and "revoked_in s ''alice_1''" and "any_ledger s = led_revoke (any_ledger (Inl wmem)) [''alice_1'']"
proof -
  let ?r = "wrequest ''POST'' ''/admin/revoke''"
  obtain res h1 w1 where 1: "serve whenv wany wcallback (Inl wmem) world0 = (res, h1, w1)" "hs_store h1 = Inl wmem" "w_cookie (hs_resp h1) = Some [(''token'', ''tok'')]"
    by (rule wcallback_served)
  obtain res2 h2 w2 where 2: "serve whenv wany ?r (Inl wmem) w1 = (res2, h2, w2)" "revoked_in (hs_store h2) ''alice_1''"
      "any_ledger (hs_store h2) = led_revoke (any_ledger (Inl wmem)) [''alice_1'']"
    by (rule wrevoke_served [of "Inl wmem" w1]) simp
  let ?e = "\<lparr>ev_request = wcallback, ev_world = world0, ev_after = h1\<rparr>"
  have "genuine [] wcallback" by (simp add: genuine_def wcallback_def)
  from one_more [OF none_served this 1(1)] have "served whenv wany (Inl wmem) [?e] (Inl wmem)" using 1(2) by simp
  moreover have "genuine [?e] ?r" using 1(3) by (simp add: genuine_def wrequest_def)
  ultimately have "served whenv wany (Inl wmem) ([?e] @ [\<lparr>ev_request = ?r, ev_world = w1, ev_after = h2\<rparr>]) (hs_store h2)"
    using 2(1) by (rule one_more)
  then show thesis using 2(2,3) by (rule that)
qed

lemma wsign_served:
  obtains res h' w' where "serve whenv wany (wsign\<lparr>r_Session := []\<rparr>) (Inl newMemoryStore) world0 = (res, h', w')" and "any_ledger (hs_store h') \<noteq> Map.empty"
proof -
  let ?r = "wsign\<lparr>r_Session := []\<rparr>"
  have m: "mux whenv setupRoutes ?r = Inr HSign"
    by (simp add: first_route_def setupRoutes_def on_path_def route_matches_def wsign_def wrequest_def HasPrefix_def)
  have rec: "recovery_ok whenv" using whenv_ok by (simp add: packages_ok_def)
  let ?h = "start_state whenv ?r (Inl newMemoryStore)"
  have t: "tokenFromRequest ?r = tokenFromRequest wsign" by (simp add: tokenFromRequest_def)
  have dc: "decode_request whenv (r_Body wsign) = Inr wsreq" 
    by (simp add: decode_request_def whenv_def wserver_def wsign_def wrequest_def request_field_def equal_fold_def ToUpper_def upper_def wsreq_def)
  obtain w1 w2 w3 where p: "prov_Valid wprovider (tokenFromRequest wsign) world0 = (Return True, w1)"
      "prov_Username wprovider (tokenFromRequest wsign) w1 = (Return ''alice'', w2)"
      "prov_Revoke wprovider (tokenFromRequest wsign) w2 = (Return None, w3)"
    by (rule wsign_provider)
  obtain cert req' w4 where c: "SignUserKey wssh (\<lambda>_. 50) wsigner wsreq ''alice'' w3 = (Return (Inr cert, req'), w4)"
    by (rule wsign_cert)
  obtain line where l: "GetPublicKey wssh (CertAsKey wssh cert) = Return line" by (simp add: GetPublicKey_def wssh_def Let_def)
  obtain rc where r: "MakeRecord wssh cert = Return rc" by (simp add: MakeRecord_def l)
  let ?ms = "newMemoryStore\<lparr>certs := Some [(rec_KeyID rc, rc\<lparr>rec_Message := req_Message req'\<rparr>)]\<rparr>"
  have m': "store_SetRecord (app_certstore wany) (rc\<lparr>rec_Message := req_Message req'\<rparr>) (hs_store ?h) w4 = (Return None, Inl ?ms, w4)"
    by (simp add: wany_def dispatch_def memoryStorer_def memoryStore_SetRecord_def start_state_def newMemoryStore_def)
  have "sign whenv wany ?r ?h world0 = sign_issue whenv wany wsreq ''alice'' ?h w3"
    by (rule sign_accepted [where ?w1.0 = w1 and ?w2.0 = w2 and e = None]) (simp_all add: p t dc wany_def wsreq_def [THEN arg_cong [where f = req_Message]])
  moreover have "\<exists>u h' w'. sign_issue whenv wany wsreq ''alice'' ?h w3 = (Return u, h', w') \<and> hs_store h' = Inl ?ms"
    using sign_issue_eq [where env = whenv and a = wany and h = ?h and rec = rc and e = None and s' = "Inl ?ms" and ?w2.0 = w4] c l r m'
    by (auto simp: wany_def whenv_def)
  ultimately obtain h' w' where "serve whenv wany ?r (Inl newMemoryStore) world0 = (Return (), h', w')" "hs_store h' = Inl ?ms"
    unfolding serve_eq [OF rec m] by auto
  moreover have "any_ledger (Inl ?ms) \<noteq> Map.empty" by (auto simp: mem_ledger_def entries_def fun_eq_iff)
  ultimately show thesis using that by metis
qed

section \<open>Properties\<close>

text \<open>
  C6: nothing is revoked without a login at this server: in every history of requests, a certificate that is revoked at the end and was not at the beginning was
  named in a POST to /admin/revoke whose session the provider accepted, and the token of that session is one that the provider gave for the code of an earlier
  callback of the history. This holds for either store, with any faults of the database and handlers that panic.
\<close>

theorem revocation_traced:
  assumes "app_certstore a = anyStorer clk order senv" and "packages_ok env" and "served env a s0 es s"
    and "revoked_in s k" and "\<not> revoked_in s0 k"
  shows "\<exists>es1 e es2 w1 e0 t. es = es1 @ e # es2 \<and> r_Method (ev_request e) = ''POST'' \<and> r_Path (ev_request e) = ''/admin/revoke'' \<and>
    k \<in> set (form_all (ev_request e) ''cert_id'') \<and> logged_in env a (r_Session (ev_request e)) (ev_world e) w1 \<and>
    e0 \<in> set es1 \<and> exchanged a (ev_request e0) t \<and>
    session_token env (r_Session (ev_request e)) = token_Unmarshal env (token_Marshal env t)"
proof -
  have ok: "mux_ok env" "csrf_ok env" "recovery_ok env" "csrf_session_ok env" "token_valid_ok (env_oauth env)" "token_Unmarshal env '''' = empty_Token"
    using assms(2) by (simp_all add: packages_ok_def)
  have reads: "reads_keep (app_certstore a)" by (simp only: assms(1) anyStorer_reads_keep)
  obtain es1 e es2 s1 res w' where h: "es = es1 @ e # es2" "served env a s0 es1 s1" "genuine es1 (ev_request e)"
      "serve env a (ev_request e) s1 (ev_world e) = (res, ev_after e, w')" "\<not> revoked_in s1 k" "revoked_in (hs_store (ev_after e)) k"
    by (rule served_became [where P = "\<lambda>s. revoked_in s k", OF assms(3-5)])
  from serve_store_cases [OF ok(1-3) reads h(4)] show ?thesis
  proof cases
    case 3
    then obtain w1 where l: "logged_in env a (r_Session (ev_request e)) (ev_world e) w1" by blast
    have "k \<in> set (form_all (ev_request e) ''cert_id'')" using revokes_revoked [OF assms(1) 3(4) h(6)] h(5) by simp
    with logged_in_exchanged [OF h(2) ok(3,4) h(3) ok(5,6) l] 3(1,2) l h(1) show ?thesis by blast
  qed (use h(5,6) sets_record_revoked [OF assms(1)] in auto)
qed

theorem revocation_traced_witness:
  "\<exists>es s e0 t. served whenv wany (Inl wmem) es s \<and> revoked_in s ''alice_1'' \<and> e0 \<in> set es \<and> exchanged wany (ev_request e0) t"
proof -
  obtain es s where s: "served whenv wany (Inl wmem) es s" "revoked_in s ''alice_1''" by (rule whistory)
  have "\<not> revoked_in (Inl wmem) ''alice_1''" by (simp add: revoked_in_def wrec_def)
  moreover have "app_certstore wany = anyStorer (\<lambda>_. 50) (\<lambda>_ _. 0) wenv" by (simp add: wany_def)
  ultimately obtain es1 e es2 e0 t where q: "es = es1 @ e # es2" "e0 \<in> set es1" "exchanged wany (ev_request e0) t"
    using revocation_traced [OF _ whenv_ok s] by meson
  from q(1,2) have "e0 \<in> set es" by simp
  with s q(3) show ?thesis by blast
qed


text \<open>
  C8: a revocation in a database is for ever: in every history of requests, with any faults of the database, a certificate that is revoked stays
  revoked. In the in-memory store a new record with the same key id takes its place.
\<close>

theorem sql_revocation_permanent:
  assumes "app_certstore a = anyStorer clk order senv" and "packages_ok env" and "served env a (Inr d) es s" and "revoked_in (Inr d) k"
  shows "revoked_in s k"
proof -
  have ok: "mux_ok env" "csrf_ok env" "recovery_ok env" using assms(2) by (simp_all add: packages_ok_def)
  have reads: "reads_keep (app_certstore a)" by (simp only: assms(1) anyStorer_reads_keep)
  from assms(3) have "revoked_in s k \<and> (\<exists>d'. s = Inr d')"
  proof (induction rule: served.induct)
    case (one_more es s r w res h' w')
    then obtain d' where d': "s = Inr d'" by blast
    from serve_store_cases [OF ok reads one_more.hyps(3)] show ?case
      by cases (use one_more.IH d' sql_step_keeps_revoked [OF assms(1), of d' "hs_store h'" r k] in auto)
  qed (simp add: assms(4))
  then show ?thesis by simp
qed

theorem sql_revocation_permanent_witness:
  "\<exists>es s. served whenv wany (Inr wrevoked) es s \<and> es \<noteq> [] \<and> revoked_in s ''alice_1''"
proof -
  obtain res h1 w1 where 1: "serve whenv wany wcallback (Inr wrevoked) world0 = (res, h1, w1)" by (rule wcallback_served)
  have "genuine [] wcallback" by (simp add: genuine_def wcallback_def)
  from one_more [OF none_served this 1]
  have s: "served whenv wany (Inr wrevoked) [\<lparr>ev_request = wcallback, ev_world = world0, ev_after = h1\<rparr>] (hs_store h1)" by simp
  have c: "app_certstore wany = anyStorer (\<lambda>_. 50) (\<lambda>_ _. 0) wenv" by (simp add: wany_def)
  have "revoked_in (Inr wrevoked) ''alice_1''" by (simp add: revoked_in_def sql_ledger_def wrevoked_def update_revoked_def wdb_def row_rec_def)
  from sql_revocation_permanent [OF c whenv_ok s this] s show ?thesis by blast
qed


end
