(* ===== verification/Certs_Page.thy ===== *)
theory Certs_Page
  imports CA_Server Record_JSON Server_History
begin

text \<open>
  The page with the issued certificates: the elements of \<^verbatim>\<open>server/templates/certs.go\<close> that act, and the script \<^verbatim>\<open>server/static/js/table.js\<close> that fills its
  table from \<^verbatim>\<open>/admin/certs.json\<close>. The table is kept as the markup that the script assigns to \<^verbatim>\<open>innerHTML\<close> of each cell. The package \<^verbatim>\<open>list.min.js\<close>
  (a search over the rows that are there) is not part of the model.
\<close>

section \<open>The page\<close>

record certs_page =
  form_action :: string
  form_method :: string
  csrfField :: string
  columns :: "string list"
  tbody :: "string list list"
  toggle_label :: string
  SHOW_ALL :: bool
  requested :: "string list"
  thrown :: bool

text \<open>The page as the server sends it; its table has one row of empty cells.\<close>

definition Certs :: "string \<Rightarrow> certs_page" where
  "Certs csrf =
     \<lparr>form_action = ''/admin/revoke'', form_method = ''POST'', csrfField = csrf,
      columns = [''ID'', ''Created'', ''Expires'', ''Principals'', ''Message'', ''Revoked'', ''Revoke''],
      tbody = [replicate 7 ''''], toggle_label = ''Show Expired'', SHOW_ALL = False, requested = [], thrown = False\<rparr>"

section \<open>The script\<close>

text \<open>What assigning a value to \<^verbatim>\<open>innerHTML\<close> makes of it: an array is joined with commas, and null is the empty text.\<close>

fun js_text :: "json \<Rightarrow> string" where
  "js_text JNull = ''''"
| "js_text (JString s) = s"
| "js_text (JBool b) = (if b then ''true'' else ''false'')"
| "js_text (JArray js) = join (CHR '','') (map json_text js)"
| "js_text j = ''''"

text \<open>The markup of a check box in front of its value and behind it.\<close>

definition box_open :: string where
  "box_open = ''<input style='' @ [quote] @ ''margin:0;'' @ [quote] @ '' type='' @ [quote] @ ''checkbox'' @ [quote] @ '' value='' @ [quote]"

definition box_close :: string where
  "box_close = [quote] @ '' name='' @ [quote] @ ''cert_id'' @ [quote] @ '' id='' @ [quote] @ ''cert_id'' @ [quote] @ '' />''"

definition makeTable :: "json \<Rightarrow> string list" where
  "makeTable el =
     [js_text (json_get el ''key_id''), js_text (json_get el ''created_at''), js_text (json_get el ''expires''),
      js_text (json_get el ''principals''), js_text (json_get el ''message''), js_text (json_get el ''revoked''),
      if json_flag (json_get el ''revoked'') then '''' else box_open @ js_text (json_get el ''key_id'') @ box_close]"

text \<open>The rows are deleted first; \<^verbatim>\<open>forEach\<close> of null throws.\<close>

fun reqListener :: "json \<Rightarrow> certs_page \<Rightarrow> certs_page" where
  "reqListener (JArray recs) p = p\<lparr>tbody := map makeTable recs\<rparr>"
| "reqListener recs p = p\<lparr>tbody := [], thrown := True\<rparr>"

definition table_loadCerts :: "bool \<Rightarrow> certs_page \<Rightarrow> certs_page" where
  "table_loadCerts all p = p\<lparr>requested := requested p @ [''/admin/certs.json'' @ (if all then ''?all=true'' else '''')]\<rparr>"

definition toggleExpired :: "certs_page \<Rightarrow> certs_page" where
  "toggleExpired p =
     (let p = p\<lparr>SHOW_ALL := \<not> SHOW_ALL p\<rparr>; p = table_loadCerts (SHOW_ALL p) p
      in p\<lparr>toggle_label := (if SHOW_ALL p then ''Hide Expired'' else ''Show Expired'')\<rparr>)"

text \<open>The body of the page asks for the current certificates when it has loaded.\<close>

definition certs_opened :: "string \<Rightarrow> certs_page" where
  "certs_opened csrf = table_loadCerts False (Certs csrf)"

section \<open>The browser\<close>

text \<open>
  The value of a check box, as the browser reads it from the markup: the attribute ends at the next quote. Character references are not decoded here; the texts below
  have none. Submitting the form sends the values of the boxes that are checked, in the order of the rows.
\<close>

definition box_value :: "string \<Rightarrow> string option" where
  "box_value markup = (if HasPrefix markup box_open then Some (takeWhile (\<lambda>c. c \<noteq> quote) (drop (length box_open) markup)) else None)"

definition checked_values :: "(string list \<Rightarrow> bool) \<Rightarrow> certs_page \<Rightarrow> string list" where
  "checked_values chosen p = List.map_filter (\<lambda>row. if chosen row then box_value (last row) else None) (tbody p)"

definition submit :: "(string list \<Rightarrow> bool) \<Rightarrow> certs_page \<Rightarrow> request \<Rightarrow> request" where
  "submit chosen p r =
     r\<lparr>r_Method := form_method p, r_Path := form_action p,
       r_Form := (''gorilla.csrf.Token'', [csrfField p]) #
         (if checked_values chosen p = [] then [] else [(''cert_id'', checked_values chosen p)])\<rparr>"

text \<open>The document that \<^verbatim>\<open>getCertsJSON\<close> encodes; the list of neither store is ever nil.\<close>

definition certs_document :: "(time \<Rightarrow> int) \<Rightarrow> CertRecord list \<Rightarrow> json" where
  "certs_document zone recs = JArray (map (MarshalJSON zone) recs)"

section \<open>Lemmas\<close>

lemma makeTable_MarshalJSON:
  "makeTable (MarshalJSON zone c) =
     [rec_KeyID c, format_time zone (rec_CreatedAt c), format_time zone (rec_Expires c), join (CHR '','') (rec_Principals c), rec_Message c,
      if rec_Revoked c then ''true'' else ''false'', if rec_Revoked c then '''' else box_open @ rec_KeyID c @ box_close]"
proof -
  have "map (json_text \<circ> JString) ps = ps" for ps by (induction ps) simp_all
  then show ?thesis by (simp add: makeTable_def MarshalJSON_def)
qed

text \<open>A key id that the markup of a check box can hold.\<close>

definition attribute_text :: "string \<Rightarrow> bool" where
  "attribute_text s \<longleftrightarrow> quote \<notin> set s \<and> CHR ''&'' \<notin> set s"

lemma box_value_box:
  assumes "attribute_text k"
  shows "box_value (box_open @ k @ box_close) = Some k"
proof -
  have "takeWhile (\<lambda>c. c \<noteq> quote) (k @ box_close) = k"
    using assms by (simp add: takeWhile_append attribute_text_def box_close_def)
  then show ?thesis by (simp add: box_value_def HasPrefix_def)
qed

lemma box_value_none: "box_value '''' = None"
  by (simp add: box_value_def HasPrefix_def box_open_def)

lemma norm_rec_Message: "rec_Message (norm_rec r) = rec_Message r"
  by (simp add: norm_rec_def)

lemma loaded_rows:
  "tbody (reqListener (certs_document zone recs) p) = map (\<lambda>c. makeTable (MarshalJSON zone c)) recs"
  by (simp add: certs_document_def)

lemma loaded_fields [simp]:
  "form_action (reqListener j p) = form_action p" "form_method (reqListener j p) = form_method p" "csrfField (reqListener j p) = csrfField p"
  by (cases j; simp)+

lemma checked_listed:
  assumes "list_all (\<lambda>c. attribute_text (rec_KeyID c)) recs"
  shows "checked_values (\<lambda>row. chosen (hd row)) (reqListener (certs_document zone recs) p) =
    map rec_KeyID (filter (\<lambda>c. chosen (rec_KeyID c) \<and> \<not> rec_Revoked c) recs)"
proof -
  have "List.map_filter (\<lambda>row. if chosen (hd row) then box_value (last row) else None) (map (\<lambda>c. makeTable (MarshalJSON zone c)) recs) =
      map rec_KeyID (filter (\<lambda>c. chosen (rec_KeyID c) \<and> \<not> rec_Revoked c) recs)"
    using assms
    by (induction recs) (auto simp: map_filter_simps makeTable_MarshalJSON box_value_box box_value_none)
  then show ?thesis by (simp add: checked_values_def loaded_rows)
qed

lemma any_listed:
  assumes "any_usable s" and "sql_up senv w" and "store_List (anyStorer clk order senv) all s w = (Return (Inr recs), s1, w1)"
  shows "norm_rec ` set recs \<subseteq> ran (any_ledger s)" and "all \<Longrightarrow> norm_rec ` set recs = ran (any_ledger s)"
  using any.list_all_law [OF assms(1,2), of clk order] any.list_law [OF assms(1,2), of clk order] assms(3)
  by (cases all; auto simp: listed_at_def simp del: anyStorer_fields)+

lemma listed_key:
  assumes "any_usable s" and "norm_rec ` set recs \<subseteq> ran (any_ledger s)" and "c \<in> set recs"
  shows "rec_KeyID c \<in> dom (any_ledger s)"
proof -
  have "norm_rec c \<in> ran (any_ledger s)" using assms(2,3) by blast
  then obtain k where k: "any_ledger s k = Some (norm_rec c)" by (auto simp: ran_def)
  have "rec_KeyID (norm_rec c) = k" by (rule any.keys_law [OF assms(1) k])
  with k show ?thesis by auto
qed

section \<open>Properties\<close>



text \<open>
  C22: the reason that a user gives is markup of the page: when a certificate was issued for a request with a reason, the page of everyone who lists all certificates afterwards
  has a row for it in which that text, whatever it is, is assigned to innerHTML as it stands.
\<close>

theorem reason_is_markup:
  assumes "app_certstore a = anyStorer clk order senv" and "any_usable (hs_store h)" and "sql_up senv w1"
    and "SignUserKey (env_ssh env) (env_clk env) (app_keysigner a) req username w = (Return (Inr cert, req'), w1)"
    and "marshal_ok (env_ssh env) (CertAsKey (env_ssh env) cert)"
    and "cert_KeyId cert \<notin> dom (any_ledger (hs_store h))" and "\<And>n. net_Write env n = None"
  shows "\<exists>h1 w1'. sign_issue env a req username h w = (Return (), h1, w1') \<and>
    (\<forall>h2 w2 r. fresh h2 (hs_store h1) \<and> sql_up senv w2 \<and> values_Get (r_Query r) ''all'' = ''true'' \<longrightarrow>
       (\<exists>h3 w3 recs. getCertsJSON env a r h2 w2 = (Return (), h3, w3) \<and> w_body (hs_resp h3) = w_body (hs_resp h2) @ [BCertsJSON recs] \<and>
          (\<exists>row \<in> set (tbody (reqListener (certs_document zone recs) p)). row ! 0 = cert_KeyId cert \<and> row ! 4 = req_Message req)))"
proof -
  obtain h1 w1' rc where i: "sign_issue env a req username h w = (Return (), h1, w1')" "any_usable (hs_store h1)"
      "any_ledger (hs_store h1) = led_add (any_ledger (hs_store h)) rc" "rec_KeyID rc = cert_KeyId cert" "rec_Message rc = req_Message req'"
    by (rule any.sign_issue_recorded [OF assms])
  have msg: "req_Message req' = req_Message req"
    using assms(4) by (auto simp: SignUserKey_def io_defs Let_def split: sum.splits if_splits)
  have "\<exists>h3 w3 recs. getCertsJSON env a r h2 w2 = (Return (), h3, w3) \<and> w_body (hs_resp h3) = w_body (hs_resp h2) @ [BCertsJSON recs] \<and>
          (\<exists>row \<in> set (tbody (reqListener (certs_document zone recs) p)). row ! 0 = cert_KeyId cert \<and> row ! 4 = req_Message req)"
    if h2: "fresh h2 (hs_store h1)" "sql_up senv w2" "values_Get (r_Query r) ''all'' = ''true''" for h2 w2 r
  proof -
    obtain w3 recs where l: "store_List (app_certstore a) True (hs_store h1) w2 = (Return (Inr recs), hs_store h1, w3)"
        "norm_rec ` set recs = ran (any_ledger (hs_store h1))"
      using any.list_all_law [OF i(2) h2(2), of clk order] assms(1) by metis
    have "any_ledger (hs_store h1) (rec_KeyID rc) = Some (norm_rec rc)" using i(3) by (simp add: led_add_def)
    then have "norm_rec rc \<in> norm_rec ` set recs" unfolding l(2) by (rule ranI)
    then obtain c where c: "c \<in> set recs" "norm_rec c = norm_rec rc" by auto
    then have "rec_KeyID c = cert_KeyId cert" "rec_Message c = req_Message req"
      using i(4,5) msg by (metis norm_rec_fields(1), metis norm_rec_Message)
    with c(1) have "\<exists>row \<in> set (tbody (reqListener (certs_document zone recs) p)). row ! 0 = cert_KeyId cert \<and> row ! 4 = req_Message req"
      unfolding loaded_rows by (auto simp: makeTable_MarshalJSON intro!: bexI [of _ c])
    moreover have "ParseBool ''true''" by (simp add: ParseBool_def)
    moreover have "hs_store h2 = hs_store h1" using h2(1) by (simp add: fresh_def)
    ultimately show ?thesis
      using l(1) h2(3) assms(7) by (simp add: getCertsJSON_def act_bind_def on_store_def Encode_def lift_io_def remote_def Write_def on_resp_def act_ret_def)
  qed
  with i(1) show ?thesis by blast
qed

definition wscript :: SignRequest where
  "wscript = wsreq\<lparr>req_Message := ''<img src=x onerror=go()>''\<rparr>"

theorem reason_is_markup_witness:
  "\<exists>h1 w1' r h3 w3 recs. sign_issue whenv wany wscript ''alice'' \<lparr>hs_store = Inr wdb, hs_session = [], hs_resp = new_response\<rparr> world0 = (Return (), h1, w1') \<and>
     getCertsJSON whenv wany r \<lparr>hs_store = hs_store h1, hs_session = [], hs_resp = new_response\<rparr> world0 = (Return (), h3, w3) \<and>
     w_body (hs_resp h3) = [BCertsJSON recs] \<and>
     (\<exists>row \<in> set (tbody (reqListener (certs_document (\<lambda>_. 0) recs) (certs_opened ''''))). row ! 4 = ''<img src=x onerror=go()>'')"
proof -
  let ?h = "\<lambda>s. \<lparr>hs_store = s, hs_session = [], hs_resp = new_response\<rparr>"
  let ?r = "(wrequest ''GET'' ''/admin/certs.json'')\<lparr>r_Query := [(''all'', [''true''])]\<rparr>"
  have a: "app_certstore wany = anyStorer (\<lambda>_. 50) (\<lambda>_ _. 0) wenv" "app_keysigner wany = wsigner" by (simp_all add: wany_def)
  obtain cert req' w1 where c: "SignUserKey (env_ssh whenv) (env_clk whenv) (app_keysigner wany) wscript ''alice'' world0 = (Return (Inr cert, req'), w1)"
    by (simp add: a(2) SignUserKey_eq wscript_def wsreq_def wssh_def Let_def)
  note f = SignUserKey_fields [OF c, unfolded whenv_fields, OF wssh_sign_cert_ok]
  have "keyId ''alice'' 50 \<noteq> ''alice_1''" by code_simp
  then have k: "cert_KeyId cert \<notin> dom (any_ledger (hs_store (?h (Inr wdb))))" using f(4) by simp
  have m: "marshal_ok (env_ssh whenv) (CertAsKey (env_ssh whenv) cert)" unfolding whenv_fields by (rule wssh_marshal_ok) (simp add: wssh_def)
  have n: "net_Write whenv i = None" for i by (simp add: whenv_def)
  from reason_is_markup [OF a(1) _ _ c m k n, of "\<lambda>_. 0" "certs_opened ''''"] obtain h1 w1' where
      s: "sign_issue whenv wany wscript ''alice'' (?h (Inr wdb)) world0 = (Return (), h1, w1')" and
      g: "\<forall>h2 w2 r. fresh h2 (hs_store h1) \<and> sql_up wenv w2 \<and> values_Get (r_Query r) ''all'' = ''true'' \<longrightarrow>
       (\<exists>h3 w3 recs. getCertsJSON whenv wany r h2 w2 = (Return (), h3, w3) \<and> w_body (hs_resp h3) = w_body (hs_resp h2) @ [BCertsJSON recs] \<and>
          (\<exists>row \<in> set (tbody (reqListener (certs_document (\<lambda>_. 0) recs) (certs_opened ''''))). row ! 0 = cert_KeyId cert \<and> row ! 4 = req_Message wscript))"
    by auto
  have "fresh (?h (hs_store h1)) (hs_store h1)" "values_Get (r_Query ?r) ''all'' = ''true''" "req_Message wscript = ''<img src=x onerror=go()>''"
    "w_body (hs_resp (?h (hs_store h1))) = []"
    by (simp_all add: fresh_def new_response_def values_Get_def wscript_def)
  with g [rule_format, of "?h (hs_store h1)" world0 ?r] s show ?thesis by auto
qed

text \<open>
  The button says what the list that was asked for last holds.
\<close>

lemma toggle_consistent:
  "requested (toggleExpired p) = requested p @ [''/admin/certs.json'' @ (if toggle_label (toggleExpired p) = ''Hide Expired'' then ''?all=true'' else '''')]"
  by (simp add: toggleExpired_def table_loadCerts_def Let_def)

end
