(* ===== verification/Server_Atomic.thy ===== *)
theory Server_Atomic
  imports Server_History
begin

text \<open>
  How requests that are served at the same time meet: only in the store. A request calls the store once at most, and what it does before the call does not depend on the
  store, and what it does afterwards depends on it only through the answer of the call. Since each operation of a store is atomic, requests that interleave have
  the effect of requests that are served one after the other, in the order of their calls.
\<close>

section \<open>One call of the store\<close>

text \<open>The operations that the handlers call, with their answers in one type.\<close>

datatype answer = AErr "error option" | ARecords "error + CertRecord list"

datatype call = CallSet CertRecord | CallRevoke "string list" | CallList bool | CallRevoked

fun answer_of_call :: "('a \<Rightarrow> answer) \<Rightarrow> 'a outcome \<times> 's \<times> world \<Rightarrow> answer outcome \<times> 's \<times> world" where
  "answer_of_call f (Return x, s, w) = (Return (f x), s, w)"
| "answer_of_call f (Panic, s, w) = (Panic, s, w)"

fun perform :: "'s CertStorer \<Rightarrow> call \<Rightarrow> ('s, answer) store_op" where
  "perform st (CallSet r) s w = answer_of_call AErr (store_SetRecord st r s w)"
| "perform st (CallRevoke ids) s w = answer_of_call AErr (store_Revoke st ids s w)"
| "perform st (CallList b) s w = answer_of_call ARecords (store_List st b s w)"
| "perform st CallRevoked s w = answer_of_call ARecords (store_GetRevoked st s w)"

text \<open>
  \<open>plan\<close> says what an action does when the store is left open: an end without a call, or a call in some world and what follows for each of its answers. The state is one without
  a store; \<open>()\<close> stands in its place.
\<close>

datatype ('a, 'h) plan = Ends "'a outcome" 'h world | Calls call world "answer outcome \<Rightarrow> world \<Rightarrow> 'a outcome \<times> 'h \<times> world"

definition with_store :: "'s \<Rightarrow> unit hstate \<Rightarrow> 's hstate" where
  "with_store s h = \<lparr>hs_store = s, hs_session = hs_session h, hs_resp = hs_resp h\<rparr>"

fun carry_out :: "'s CertStorer \<Rightarrow> ('a, unit hstate) plan \<Rightarrow> 's \<Rightarrow> 'a outcome \<times> 's hstate \<times> world" where
  "carry_out st (Ends r h w) s = (r, with_store s h, w)"
| "carry_out st (Calls c w k) s = (case perform st c s w of (x, s', w') \<Rightarrow> case k x w' of (r, h, w'') \<Rightarrow> (r, with_store s' h, w''))"

definition one_call :: "'s CertStorer \<Rightarrow> ('s, 'a) act \<Rightarrow> bool" where
  "one_call st m \<longleftrightarrow> (\<forall>h w. \<exists>p. \<forall>s. m (with_store s h) w = carry_out st p s)"

definition no_call :: "('s, 'a) act \<Rightarrow> bool" where
  "no_call m \<longleftrightarrow> (\<forall>h w. \<exists>r h' w'. \<forall>s. m (with_store s h) w = (r, with_store s h', w'))"

lemma no_call_one: "no_call m \<Longrightarrow> one_call st m"
  unfolding no_call_def one_call_def by (metis carry_out.simps(1))

lemma no_call_bind [intro!]:
  assumes "no_call m" and "\<And>x. no_call (f x)"
  shows "no_call (act_bind m f)"
  unfolding no_call_def
proof (intro allI)
  fix h w
  obtain r h1 w1 where m: "\<And>s. m (with_store s h) w = (r, with_store s h1, w1)" using assms(1) unfolding no_call_def by metis
  show "\<exists>r h' w'. \<forall>s. act_bind m f (with_store s h) w = (r, with_store s h', w')"
  proof (cases r)
    case (Return x)
    with assms(2) [of x] m show ?thesis by (simp add: no_call_def act_bind_def)
  next
    case Panic
    with m have "\<forall>s. act_bind m f (with_store s h) w = (Panic, with_store s h1, w1)" by (simp add: act_bind_def)
    then show ?thesis by blast
  qed
qed

lemma one_call_before:
  assumes "no_call m" and "\<And>x. one_call st (f x)"
  shows "one_call st (act_bind m f)"
  unfolding one_call_def
proof (intro allI)
  fix h w
  obtain r h1 w1 where m: "\<And>s. m (with_store s h) w = (r, with_store s h1, w1)" using assms(1) unfolding no_call_def by metis
  show "\<exists>p. \<forall>s. act_bind m f (with_store s h) w = carry_out st p s"
  proof (cases r)
    case (Return x)
    with assms(2) [of x] m show ?thesis by (simp add: one_call_def act_bind_def)
  next
    case Panic
    with m have "\<forall>s. act_bind m f (with_store s h) w = carry_out st (Ends Panic h1 w1) s" by (simp add: act_bind_def)
    then show ?thesis by blast
  qed
qed

lemma one_call_store:
  assumes "\<And>s w. perform st c s w = answer_of_call g (op s w)" and "\<And>x. ung (g x) = x" and "\<And>x. no_call (f x)"
  shows "one_call st (act_bind (on_store op) f)"
  unfolding one_call_def
proof (intro allI)
  fix h w
  define after where "after x w' t \<longleftrightarrow> (\<forall>s. f x (with_store s h) w' = (fst t, with_store s (fst (snd t)), snd (snd t)))" for x w' t
  have "\<exists>t. after x w' t" for x w'
  proof -
    obtain r h' w'' where "\<forall>s. f x (with_store s h) w' = (r, with_store s h', w'')" using assms(3) [of x] unfolding no_call_def by metis
    then have "after x w' (r, h', w'')" by (simp add: after_def)
    then show ?thesis ..
  qed
  then obtain t where t: "\<And>x w'. after x w' (t x w')" by metis
  let ?k = "\<lambda>a w'. case a of Panic \<Rightarrow> (Panic, h, w') | Return y \<Rightarrow> t (ung y) w'"
  have "act_bind (on_store op) f (with_store s h) w = carry_out st (Calls c w ?k) s" for s
  proof (cases "op s w")
    case (fields x s' w')
    have h': "(with_store s h)\<lparr>hs_store := s'\<rparr> = with_store s' h" "hs_store (with_store s h) = s" by (simp_all add: with_store_def)
    show ?thesis
    proof (cases x)
      case (Return y)
      with t [of y w'] fields assms(1) [of s w] assms(2) h' show ?thesis
        by (simp add: act_bind_def on_store_def after_def split: prod.split)
    next
      case Panic
      with fields assms(1) [of s w] h' show ?thesis by (simp add: act_bind_def on_store_def)
    qed
  qed
  then show "\<exists>p. \<forall>s. act_bind (on_store op) f (with_store s h) w = carry_out st p s" by blast
qed

lemmas one_call_ops =
  one_call_store [where c = "CallSet r" and g = AErr and ung = "\<lambda>a. case a of AErr e \<Rightarrow> e | _ \<Rightarrow> None" for r, simplified]
  one_call_store [where c = "CallRevoke ids" and g = AErr and ung = "\<lambda>a. case a of AErr e \<Rightarrow> e | _ \<Rightarrow> None" for ids, simplified]
  one_call_store [where c = "CallList b" and g = ARecords and ung = "\<lambda>a. case a of ARecords e \<Rightarrow> e | _ \<Rightarrow> Inr []" for b, simplified]
  one_call_store [where c = CallRevoked and g = ARecords and ung = "\<lambda>a. case a of ARecords e \<Rightarrow> e | _ \<Rightarrow> Inr []", simplified]

section \<open>The handlers\<close>

lemma no_call_prims [simp]: "no_call (act_ret x)" "no_call (lift_io m)" "no_call (lift_outcome r)" "no_call (on_resp f)"
proof -
  show "no_call (act_ret x)" "no_call (lift_outcome r)" by (auto simp: no_call_def act_ret_def lift_outcome_def)
  show "no_call (lift_io m)"
    unfolding no_call_def by (intro allI, rename_tac h w, case_tac "m w") (auto simp: lift_io_def)
  show "no_call (on_resp f)"
    unfolding no_call_def
  proof (intro allI)
    fix h :: "unit hstate" and w
    have "\<forall>s. on_resp f (with_store s h) w = (Return (), with_store s (h\<lparr>hs_resp := f (hs_resp h)\<rparr>), w)"
      by (simp add: on_resp_def with_store_def)
    then show "\<exists>r h' w'. \<forall>s. on_resp f (with_store s h) w = (r, with_store s h', w')" by blast
  qed
qed

lemma no_call_writes [simp]:
  "no_call (WriteHeader c)" "no_call (Write b)" "no_call (Header_Set k v)" "no_call (Header_Add k v)"
  by (simp_all add: WriteHeader_def Write_def Header_Set_def Header_Add_def)

lemma no_call_Encode [simp]: "no_call (Encode nw b)"
  by (auto simp: Encode_def split: option.split)

lemma no_call_Redirect [simp]: "no_call (http_Redirect r url code)"
  by (auto simp: http_Redirect_def)

lemma no_call_session [simp]: "no_call (getSessionVariable k)" "no_call (setSessionVariable env k v)"
proof -
  show "no_call (getSessionVariable k)" by (auto simp: no_call_def getSessionVariable_def with_store_def)
  show "no_call (setSessionVariable env k v)"
    unfolding no_call_def
  proof (intro allI)
    fix h :: "unit hstate" and w
    have "\<forall>s. setSessionVariable env k v (with_store s h) w =
      (Return (), with_store s (h\<lparr>hs_session := AList.update k v (hs_session h),
         hs_resp := (if session_Save env (AList.update k v (hs_session h)) = None \<and> w_status (hs_resp h) = None
           then (hs_resp h)\<lparr>w_cookie := Some (AList.update k v (hs_session h))\<rparr> else hs_resp h)\<rparr>), w)"
      by (simp add: setSessionVariable_def with_store_def Let_def)
    then show "\<exists>r h' w'. \<forall>s. setSessionVariable env k v (with_store s h) w = (r, with_store s h', w')" by blast
  qed
qed

lemma no_call_tokens [simp]: "no_call (getAuthToken env)" "no_call (setAuthToken env t)"
  by (auto simp: getAuthToken_def setAuthToken_def)

lemma no_call_pages [simp]:
  "no_call (sign_fail env code e)" "no_call unauthorized_page" "no_call error_page" "no_call (auth env a r)" "no_call (index env r)" "no_call (getAllCerts env r)"
  by (auto simp: sign_fail_def unauthorized_page_def error_page_def auth_def auth_login_def auth_callback_def index_def getAllCerts_def Let_def split: sum.split)

lemma one_call_handlers:
  "one_call (app_certstore a) (sign env a r)" "one_call (app_certstore a) (revoke a r)"
  "one_call (app_certstore a) (revoked env a)" "one_call (app_certstore a) (getCertsJSON env a r)"
proof -
  show "one_call (app_certstore a) (revoke a r)"
    unfolding revoke_def by (rule one_call_ops(2)) (auto split: option.split)
  show "one_call (app_certstore a) (revoked env a)"
    unfolding revoked_def by (rule one_call_ops(4)) (auto split: sum.split)
  show "one_call (app_certstore a) (getCertsJSON env a r)"
    unfolding getCertsJSON_def Let_def by (rule one_call_ops(3)) (auto split: sum.split option.split)
  have "one_call (app_certstore a) (sign_issue env a req username)" for req username
    unfolding sign_issue_def
    by (rule one_call_before, simp)
      (auto split: sum.split prod.split option.split intro!: one_call_before one_call_ops(1) intro: no_call_one)
  then show "one_call (app_certstore a) (sign env a r)"
    unfolding sign_def Let_def
    by (intro one_call_before, simp) (auto split: sum.split intro!: one_call_before intro: no_call_one)
qed

text \<open>CSRF protection does not look at the store: what it decides and what it adds to the response is the same for all of them.\<close>

definition csrf_uniform :: "('k, 'ca, 's) server_env \<Rightarrow> bool" where
  "csrf_uniform env \<longleftrightarrow>
     (\<forall>conf r next h w.
        (\<exists>h'. \<forall>s. csrf_Protect env conf r next (with_store s h) w = next (with_store s h') w) \<or>
        (\<exists>h' w'. \<forall>s. csrf_Protect env conf r next (with_store s h) w = (Return (), with_store s h', w')))"

lemma one_call_csrf:
  assumes "csrf_uniform env" and "one_call st next"
  shows "one_call st (csrf_Protect env conf r next)"
  unfolding one_call_def
proof (intro allI)
  fix h w
  consider h' where "\<forall>s. csrf_Protect env conf r next (with_store s h) w = next (with_store s h') w"
    | h' w' where "\<forall>s. csrf_Protect env conf r next (with_store s h) w = (Return (), with_store s h', w')"
    using assms(1) unfolding csrf_uniform_def by blast
  then show "\<exists>p. \<forall>s. csrf_Protect env conf r next (with_store s h) w = carry_out st p s"
  proof cases
    case 1
    then show ?thesis using assms(2) by (simp add: one_call_def)
  next
    case 2
    then have "\<forall>s. csrf_Protect env conf r next (with_store s h) w = carry_out st (Ends (Return ()) h' w') s" by simp
    then show ?thesis by blast
  qed
qed

lemma one_call_authed: "one_call st next \<Longrightarrow> one_call st (authed env a r next)"
  unfolding authed_def by (intro one_call_before) (auto intro: no_call_one)

lemma one_call_handler:
  assumes "csrf_uniform env"
  shows "one_call (app_certstore a) (serve_handler env a r hn)"
  by (induction hn) (auto intro!: one_call_handlers one_call_authed one_call_csrf [OF assms] intro: no_call_one)

text \<open>What the recovery handler makes of an end.\<close>

fun recovered :: "unit outcome \<times> 's hstate \<times> world \<Rightarrow> unit outcome \<times> 's hstate \<times> world" where
  "recovered (Return u, h, w) = (Return u, h, w)"
| "recovered (Panic, h, w) = (Return (), h\<lparr>hs_resp := write_header 500 (hs_resp h)\<rparr>, w)"

lemma recovered_with_store: "recovered (r, with_store s h, w) = (case recovered (r, h, w) of (r', h', w') \<Rightarrow> (r', with_store s h', w'))"
  by (cases r) (simp_all add: with_store_def)

lemma recovered_plan: "\<exists>p'. \<forall>s. recovered (carry_out st p s) = carry_out st p' s"
proof (cases p)
  case (Ends r h w)
  obtain r' h' w' where "recovered (r, h, w) = (r', h', w')" by (cases "recovered (r, h, w)")
  with Ends have "\<forall>s. recovered (carry_out st p s) = carry_out st (Ends r' h' w') s" by (simp add: recovered_with_store)
  then show ?thesis by blast
next
  case (Calls c w k)
  have "\<forall>s. recovered (carry_out st p s) = carry_out st (Calls c w (\<lambda>x w'. recovered (k x w'))) s"
    by (auto simp: Calls recovered_with_store split: prod.split)
  then show ?thesis by blast
qed

lemma serve_plan:
  assumes "recovery_ok env" and "csrf_uniform env"
  shows "\<exists>p. \<forall>s. serve env a r s w = carry_out (app_certstore a) p s"
proof (cases "mux env setupRoutes r")
  case (Inl code)
  have "\<forall>s. serve env a r s w = carry_out (app_certstore a)
      (Ends (Return ()) \<lparr>hs_store = (), hs_session = r_Session r, hs_resp = write_header code new_response\<rparr> w) s"
    by (simp add: serve_def Inl WriteHeader_def on_resp_def with_store_def)
  then show ?thesis by blast
next
  case (Inr hn)
  let ?h = "\<lparr>hs_store = (), hs_session = r_Session r, hs_resp = new_response\<lparr>w_header := [(''X-Cashier-Version'', lib_Version env)]\<rparr>\<rparr>"
  have st: "start_state env r s = with_store s ?h" for s by (simp add: start_state_def with_store_def)
  obtain p where p: "\<And>s. serve_handler env a r hn (with_store s ?h) w = carry_out (app_certstore a) p s"
    using one_call_handler [OF assms(2), of a r hn] unfolding one_call_def by metis
  obtain p' where p': "\<And>s. recovered (carry_out (app_certstore a) p s) = carry_out (app_certstore a) p' s"
    using recovered_plan by metis
  have "serve env a r s w = recovered (serve_handler env a r hn (start_state env r s) w)" for s
    unfolding serve_eq [OF assms(1) Inr] by (simp split: prod.split outcome.split)
  then have "\<forall>s. serve env a r s w = carry_out (app_certstore a) p' s" using p p' st by simp
  then show ?thesis by blast
qed

section \<open>Interleaving\<close>

text \<open>
  Requests that have arrived wait with their plans; one of them goes on to its end, on the store as it is then. A client that sends a session got it from a request that has ended.
\<close>

inductive interleaved ::
  "('k, 'ca, 's) server_env \<Rightarrow> ('k, 'ca, 's) application \<Rightarrow> 's \<Rightarrow> (request \<times> world \<times> (unit, unit hstate) plan) list \<Rightarrow> 's event list \<Rightarrow> 's \<Rightarrow> bool"
  for env a s0 where
  idle: "interleaved env a s0 [] [] s0"
| arrives: "interleaved env a s0 pool es s \<Longrightarrow> genuine es r \<Longrightarrow> (\<And>s. serve env a r s w = carry_out (app_certstore a) p s) \<Longrightarrow>
    interleaved env a s0 (pool @ [(r, w, p)]) es s"
| completes: "interleaved env a s0 (xs @ (r, w, p) # ys) es s \<Longrightarrow> carry_out (app_certstore a) p s = (res, h', w') \<Longrightarrow>
    interleaved env a s0 (xs @ ys) (es @ [\<lparr>ev_request = r, ev_world = w, ev_after = h'\<rparr>]) (hs_store h')"

lemma genuine_append: "genuine es r \<Longrightarrow> genuine (es @ es') r"
  by (auto simp: genuine_def)

lemma interleaved_served:
  assumes "interleaved env a s0 pool es s"
  shows "served env a s0 es s \<and>
    (\<forall>r w p. (r, w, p) \<in> set pool \<longrightarrow> genuine es r \<and> (\<forall>s. serve env a r s w = carry_out (app_certstore a) p s))"
  using assms
proof (induction rule: interleaved.induct)
  case idle
  then show ?case by (simp add: none_served)
next
  case (arrives pool es s r w p)
  then show ?case by auto
next
  case (completes xs r w p ys es s res h' w')
  then have "genuine es r" "serve env a r s w = (res, h', w')" by simp_all
  with completes have "served env a s0 (es @ [\<lparr>ev_request = r, ev_world = w, ev_after = h'\<rparr>]) (hs_store h')"
    by (intro one_more) simp_all
  moreover have "genuine (es @ [\<lparr>ev_request = r, ev_world = w, ev_after = h'\<rparr>]) r'"
    and "\<forall>s. serve env a r' s v = carry_out (app_certstore a) q s" if "(r', v, q) \<in> set (xs @ ys)" for r' v q
    using that completes.IH genuine_append [of es r'] by auto
  ultimately show ?case by blast
qed

section \<open>Properties\<close>



end
