(* ===== verification/Server_List.thy ===== *)
theory Server_List
  imports Server_History CA_Server
begin

text \<open>
  The revocation list over a whole history of requests: the invariant of the store is kept by everything that a request can do to it, whatever the faults of the
  database, so every list that the server serves while the store can be reached is made from a store that keeps its contract.
\<close>

section \<open>The invariant over a history\<close>

lemma insert_row_usable:
  "sql_inv d \<Longrightarrow> sql_inv (snd (insert_row k (json_Marshal ps) c e raw msg d))"
  "is_closed (snd (insert_row k ps' c e raw msg d)) = is_closed d"
  by (auto simp: insert_row_def sql_inv_def readable_def json_roundtrip)

lemma update_revoked_usable:
  "sql_inv d \<Longrightarrow> sql_inv (snd (update_revoked ids d))" "is_closed (snd (update_revoked ids d)) = is_closed d"
  by (rule update_revoked_ledger [of ids d]; simp)+

lemma sql_SetRecord_usable:
  assumes "sqlStore_SetRecord env r d w = (res, d', w')" and "any_usable (Inr d)"
  shows "any_usable (Inr d')"
  using assms
  by (auto simp: sqlStore_SetRecord_def StringSlice_Value_def Exec_def Let_def case_prod_unfold insert_row_usable sql_open_conn_def
      split: option.splits fault.splits)

lemma sets_record_usable:
  assumes "app_certstore a = anyStorer clk order env" and "sets_record a s s'" and "any_usable s"
  shows "any_usable s'"
proof -
  obtain rec w res w' where r: "store_SetRecord (anyStorer clk order env) rec s w = (res, s', w')"
    using assms(1,2) by (auto simp: sets_record_def)
  show ?thesis
  proof (cases s)
    case (Inl ms)
    with r obtain ms' where "memoryStore_SetRecord rec ms w = (res, ms', w')" "s' = Inl ms'"
      by (auto simp: dispatch_def memoryStorer_def split: prod.splits)
    with assms(3) Inl mem_SetRecord_inv [of ms rec w] mem_SetRecord_ledger [of ms rec w] show ?thesis by auto
  next
    case (Inr d)
    with r obtain d' where "sqlStore_SetRecord env rec d w = (res, d', w')" "s' = Inr d'" using any_sqlE(1) by blast
    with sql_SetRecord_usable assms(3) Inr show ?thesis by blast
  qed
qed

lemma revokes_usable:
  assumes "app_certstore a = anyStorer clk order env" and "revokes a r s s'" and "any_usable s"
  shows "any_usable s'"
proof -
  let ?ids = "form_all r ''cert_id''"
  obtain w res w' where r: "store_Revoke (anyStorer clk order env) ?ids s w = (res, s', w')"
    using assms(1,2) by (auto simp: revokes_def)
  show ?thesis
  proof (cases s)
    case (Inl ms)
    from r [unfolded Inl] show ?thesis
    proof (cases rule: any_memE)
      case (2 m o' m')
      with revoke_loop_keyed [of m ?ids] assms(3) Inl show ?thesis by (auto simp: mem_inv_def mem_open_def entries_def)
    qed (use assms(3) Inl in simp)
  next
    case (Inr d)
    with r obtain d' where d: "sqlStore_Revoke env ?ids d w = (res, d', w')" "s' = Inr d'" using any_sqlE(2) by blast
    from d(1) show ?thesis
      by (cases rule: sql_Revoke_cases) (use Inr d(2) assms(3) in \<open>auto simp: update_revoked_usable sql_open_conn_def\<close>)
  qed
qed

lemma served_usable:
  assumes "app_certstore a = anyStorer clk order senv" and "packages_ok env" and "served env a s0 es s" and "any_usable s0"
  shows "any_usable s"
  using assms(3)
proof (induction rule: served.induct)
  case (one_more es s r w res h' w')
  have ok: "mux_ok env" "csrf_ok env" "recovery_ok env" using assms(2) by (simp_all add: packages_ok_def)
  have "reads_keep (app_certstore a)" by (simp only: assms(1) anyStorer_reads_keep)
  from serve_store_cases [OF ok this one_more.hyps(3)] show ?case
    by cases (use one_more.IH sets_record_usable [OF assms(1)] revokes_usable [OF assms(1)] in auto)
qed (rule assms(4))

section \<open>The list behind the router\<close>

text \<open>A request that is answered with status 200 and a revocation list for the signer's CA with the given key ids, and leaves the store alone.\<close>

definition answers_krl ::
  "('k, 'ca, 's) server_env \<Rightarrow> ('k, 'ca, 's) application \<Rightarrow> request \<Rightarrow> 's \<Rightarrow> world \<Rightarrow> world \<Rightarrow> string list \<Rightarrow> bool" where
  "answers_krl env a r s w w' ids \<longleftrightarrow>
     (\<exists>h' n rl. serve env a r s w = (Return (), h', w') \<and> hs_store h' = s \<and> w_status (hs_resp h') = Some 200 \<and>
        w_body (hs_resp h') = [BBytes rl] \<and>
        MarshalKRL (env_ssh env) n \<lparr>krl_CA = CAPublicKey (env_ssh env) (ks_ca (app_keysigner a)), krl_KeyIDs = ids\<rparr> = Inr rl)"

context cert_storer
begin

lemma served_krl:
  assumes "app_certstore a = st" and "usable s" and "up w" and "recovery_ok env" and "mux env setupRoutes r = Inr HRevoked"
    and "\<And>n krl. \<exists>rl. MarshalKRL (env_ssh env) n krl = Inr rl"
  obtains w' rs where "answers_krl env a r s w w' (map rec_KeyID rs)" and "listed_at clk w w' (ledger_of s) rec_Revoked rs"
    and "distinct (map rec_KeyID rs)"
proof -
  let ?h = "start_state env r s"
  have h: "hs_store ?h = s" "w_status (hs_resp ?h) = None" "w_body (hs_resp ?h) = []" by (simp_all add: start_state_def new_response_def)
  obtain w1 rs where g: "store_GetRevoked st s w = (Return (Inr rs), s, w1)" "listed_at clk w w1 (ledger_of s) rec_Revoked rs"
      "distinct (map rec_KeyID rs)"
    using revoked_law [OF assms(2,3)] by blast
  let ?w = "w1\<lparr>rands := Suc (rands w1)\<rparr>"
  obtain rl where rl: "MarshalKRL (env_ssh env) (rands w1)
      \<lparr>krl_CA = CAPublicKey (env_ssh env) (ks_ca (app_keysigner a)), krl_KeyIDs = map rec_KeyID rs\<rparr> = Inr rl"
    using assms(6) by blast
  obtain h' where "revoked env a ?h w = (Return (), h', ?w)" "w_body (hs_resp h') = [BBytes rl]" "w_status (hs_resp h') = Some 200" "hs_store h' = s"
    using revoked_ok [of a ?h w rs s w1 env rl] g(1) rl h assms(1) by auto
  moreover from this(1) have "serve env a r s w = (Return (), h', ?w)" by (simp add: serve_eq [OF assms(4,5)])
  ultimately have "answers_krl env a r s w ?w (map rec_KeyID rs)" using rl unfolding answers_krl_def by blast
  moreover have "listed_at clk w ?w (ledger_of s) rec_Revoked rs" using g(2) by (simp add: listed_at_def)
  ultimately show thesis using that g(3) by blast
qed

end

section \<open>Properties\<close>



end
