(* ===== verification/Server_Logins.thy ===== *)
theory Server_Logins
  imports Server_History
begin

text \<open>
  Logins over a whole history of requests: which request put the token into a session, and where the state that let it do so came from.
\<close>

section \<open>A concrete login\<close>

definition wstate :: string where
  "wstate = hex_EncodeToString (replicate 32 (CHR ''x''))"

definition wlogin_request :: request where
  "wlogin_request = (wrequest ''GET'' ''/auth/login'')\<lparr>r_Form := [], r_Session := []\<rparr>"

definition wreturn :: request where
  "wreturn = wcallback\<lparr>r_Form := [(''code'', [''good'']), (''state'', [wstate])], r_Session := [(''state'', wstate)]\<rparr>"

lemma wlogin_served:
  obtains res h' w' where "serve whenv wany wlogin_request s w = (res, h', w')" and "hs_store h' = s" and "w_cookie (hs_resp h') = Some [(''state'', wstate)]"
proof -
  have m: "mux whenv setupRoutes wlogin_request = Inr HAuth"
    by (simp add: first_route_def setupRoutes_def on_path_def route_matches_def wlogin_request_def wrequest_def HasPrefix_def)
  have r: "recovery_ok whenv" using whenv_ok by (simp add: packages_ok_def)
  have "env_rand whenv n = replicate 32 (CHR ''x'')" for n by (simp add: whenv_def)
  then have "\<exists>h' w'. serve_handler whenv wany wlogin_request HAuth (start_state whenv wlogin_request s) w = (Return (), h', w') \<and> hs_store h' = s \<and>
      w_cookie (hs_resp h') = Some [(''state'', wstate)]"
    using auth_login_eq [of whenv "start_state whenv wlogin_request s" wany wlogin_request w]
    by (simp add: auth_def wlogin_request_def wrequest_def start_state_def new_response_def wstate_def)
  with that serve_eq [OF r m, of wany s w] show thesis by auto
qed

lemma wreturn_served:
  obtains res h' w' where "serve whenv wany wreturn s w = (res, h', w')" and "w_cookie (hs_resp h') = Some [(''state'', wstate), (''token'', ''tok'')]"
proof -
  have m: "mux whenv setupRoutes wreturn = Inr HAuth"
    by (simp add: first_route_def setupRoutes_def on_path_def route_matches_def wreturn_def wcallback_def wrequest_def HasPrefix_def)
  have r: "recovery_ok whenv" using whenv_ok by (simp add: packages_ok_def)
  let ?h = "start_state whenv wreturn s"
  obtain res1 h1 w1 where c: "auth_callback whenv wany wreturn ?h w = (res1, h1, w1)" by (cases "auth_callback whenv wany wreturn ?h w")
  have a: "serve_handler whenv wany wreturn HAuth ?h w = (res1, h1, w1)"
    using c by (simp add: auth_def wreturn_def wcallback_def wrequest_def)
  obtain t w2 where t: "prov_Exchange (app_provider wany) (FormValue wreturn ''code'') w = (Return (Inr t), w2)" "AccessToken t = ''tok''"
    by (cases "Unix zero_time \<le> 0")
      (simp_all add: wany_def wreturn_def wcallback_def wprovider_def github_provider_def github_Exchange_def FormValue_def values_Get_def wapi_def empty_Token_def io_defs)
  have "w_cookie (hs_resp h1) = Some [(''state'', wstate), (''token'', ''tok'')]"
    using auth_callback_cookie [OF _ _ _ t(1) c] t(2)
    by (simp add: start_state_def new_response_def FormValue_def values_Get_def session_value_def wreturn_def)
  with that serve_eq [OF r m, of wany s w] a show thesis by (cases res1) auto
qed

section \<open>Properties\<close>



end
