(* ===== verification/JSON_Text.thy ===== *)
theory JSON_Text
  imports String_Slice Auth_Types
begin

text \<open>
  JSON as text, as \<^verbatim>\<open>encoding/json\<close> reads and writes it: \<^verbatim>\<open>Decode\<close> of any document, and \<^verbatim>\<open>Marshal\<close> of a struct whose fields are strings, which is what the
  two wire types of \<^verbatim>\<open>lib/proto.go\<close> are. Strings are those of \<open>String_Slice\<close>.
\<close>

section \<open>Reading\<close>

text \<open>The fraction and the exponent of a number, and the number: one with neither of them is an integer.\<close>

definition frac_part :: "string \<Rightarrow> (bool \<times> string) option" where
  "frac_part s =
     (case s of
        c # r \<Rightarrow>
          if c = CHR ''.'' then (if takeWhile is_digit r = [] then None else Some (True, dropWhile is_digit r))
          else Some (False, s)
      | [] \<Rightarrow> Some (False, s))"

definition exp_part :: "string \<Rightarrow> (bool \<times> string) option" where
  "exp_part s =
     (case s of
        c # r \<Rightarrow>
          if c = CHR ''e'' \<or> c = CHR ''E'' then
            (let r' = (case r of d # t \<Rightarrow> if d = CHR ''+'' \<or> d = CHR ''-'' then t else r | [] \<Rightarrow> r)
             in if takeWhile is_digit r' = [] then None else Some (True, dropWhile is_digit r'))
          else Some (False, s)
      | [] \<Rightarrow> Some (False, s))"

definition json_number :: "string \<Rightarrow> (json \<times> string) option" where
  "json_number s =
     (let neg = (take 1 s = ''-''); s1 = (if neg then drop 1 s else s);
          ds = takeWhile is_digit s1; s2 = dropWhile is_digit s1
      in if ds = [] \<or> (take 1 ds = ''0'' \<and> 1 < length ds) then None
         else case frac_part s2 of
                None \<Rightarrow> None
              | Some (f, s3) \<Rightarrow>
                  (case exp_part s3 of
                     None \<Rightarrow> None
                   | Some (e, s4) \<Rightarrow>
                       Some (if f \<or> e then JNumber
                             else JInt (if neg then - int (read_digits 0 ds) else int (read_digits 0 ds)), s4)))"

definition json_scalar :: "string \<Rightarrow> (json \<times> string) option" where
  "json_scalar s =
     (if take 4 s = ''null'' then Some (JNull, drop 4 s)
      else if take 4 s = ''true'' then Some (JBool True, drop 4 s)
      else if take 5 s = ''false'' then Some (JBool False, drop 5 s)
      else json_number s)"

text \<open>A value, the members of an object after its brace and the elements of an array after its bracket. The fuel bounds the depth of the calls.\<close>

fun json_value :: "nat \<Rightarrow> string \<Rightarrow> (json \<times> string) option"
  and json_members :: "nat \<Rightarrow> string \<Rightarrow> ((string \<times> json) list \<times> string) option"
  and json_elements :: "nat \<Rightarrow> string \<Rightarrow> (json list \<times> string) option" where
  "json_value 0 s = None"
| "json_value (Suc n) s =
     (case skip_ws s of
        [] \<Rightarrow> None
      | c # r \<Rightarrow>
          if c = quote then map_option (map_prod JString id) (unquote r)
          else if c = CHR ''{'' then
            (case skip_ws r of
               [] \<Rightarrow> None
             | d # r' \<Rightarrow> if d = CHR ''}'' then Some (JObject [], r') else map_option (map_prod JObject id) (json_members n r))
          else if c = CHR ''['' then
            (case skip_ws r of
               [] \<Rightarrow> None
             | d # r' \<Rightarrow> if d = CHR '']'' then Some (JArray [], r') else map_option (map_prod JArray id) (json_elements n r))
          else json_scalar (c # r))"
| "json_members 0 s = None"
| "json_members (Suc n) s =
     (case skip_ws s of
        [] \<Rightarrow> None
      | c # r \<Rightarrow>
          if c \<noteq> quote then None
          else case unquote r of
                 None \<Rightarrow> None
               | Some (k, r1) \<Rightarrow>
                   (case skip_ws r1 of
                      [] \<Rightarrow> None
                    | d # r2 \<Rightarrow>
                        if d \<noteq> CHR '':'' then None
                        else case json_value n r2 of
                               None \<Rightarrow> None
                             | Some (v, r3) \<Rightarrow>
                                 (case skip_ws r3 of
                                    [] \<Rightarrow> None
                                  | e # r4 \<Rightarrow>
                                      if e = CHR ''}'' then Some ([(k, v)], r4)
                                      else if e = CHR '','' then map_option (map_prod (Cons (k, v)) id) (json_members n r4)
                                      else None)))"
| "json_elements 0 s = None"
| "json_elements (Suc n) s =
     (case json_value n s of
        None \<Rightarrow> None
      | Some (v, r) \<Rightarrow>
          (case skip_ws r of
             [] \<Rightarrow> None
           | e # r' \<Rightarrow>
               if e = CHR '']'' then Some ([v], r')
               else if e = CHR '','' then map_option (map_prod (Cons v) id) (json_elements n r')
               else None))"

declare json_value.simps(2) [simp del] json_members.simps(2) [simp del] json_elements.simps(2) [simp del]

text \<open>\<^verbatim>\<open>Decode\<close> reads the first value of its input and leaves the rest alone.\<close>

definition json_Decode :: "string \<Rightarrow> error + json" where
  "json_Decode s =
     (case json_value (2 * length s + 2) s of
        Some (j, _) \<Rightarrow> Inr j
      | None \<Rightarrow> Inl (ENew ''invalid JSON''))"

section \<open>The fuel is enough\<close>

lemma skip_ws_length: "length (skip_ws s) \<le> length s"
  unfolding skip_ws_def by (rule length_dropWhile_le)

lemma skip_ws_Cons: "skip_ws s = c # r \<Longrightarrow> length r < length s"
  using skip_ws_length [of s] by simp

text \<open>What is left over after something was read is shorter than a bound.\<close>

definition leaves :: "nat \<Rightarrow> ('a \<times> string) option \<Rightarrow> bool" where
  "leaves n x \<longleftrightarrow> (\<forall>v t. x = Some (v, t) \<longrightarrow> length t < n)"

lemma leaves_simps [simp]: "leaves n None" "leaves n (Some (v, t)) = (length t < n)"
  by (simp_all add: leaves_def)

lemma leaves_map [intro!]: "leaves n x \<Longrightarrow> leaves n (map_option (map_prod f id) x)"
  by (cases x) auto

lemma leaves_mono: "leaves m x \<Longrightarrow> m \<le> n \<Longrightarrow> leaves n x"
  by (force simp: leaves_def)

lemma unquote_leaves: "leaves (length s) (unquote s)"
proof (induction s rule: length_induct)
  case (1 s)
  have IH: "leaves (length s) (map_option (map_prod f id) (unquote t))" if "length t < length s" for t and f :: "string \<Rightarrow> string"
    using 1 that by (blast intro: leaves_map leaves_mono less_imp_le)
  show ?case
  proof (cases s)
    case (Cons c r)
    note c = Cons
    define N where "N = length s"
    show ?thesis
    proof (cases r)
      case Nil
      with c show ?thesis by (simp add: unquote.simps(2))
    next
      case (Cons e r')
      then have l: "length (e # r') < N" "length r' < N" using c by (simp_all add: N_def)
      then have d: "length (drop k r') < N" for k by simp
      show ?thesis
        unfolding N_def [symmetric] unfolding c Cons unquote.simps(2) [of c "e # r'"] list.case
        using l by (simp add: IH [folded N_def] d del: length_drop split: option.split bool.split)
    qed
  qed simp
qed

lemma part_leaves: "leaves (Suc (length s)) (frac_part s)" "leaves (Suc (length s)) (exp_part s)"
proof -
  have d: "length (dropWhile is_digit r) \<le> length r" for r by (rule length_dropWhile_le)
  show "leaves (Suc (length s)) (frac_part s)"
    using d [of "tl s"] by (auto simp: frac_part_def split: list.split)
  show "leaves (Suc (length s)) (exp_part s)"
    using d [of "tl s"] d [of "tl (tl s)"] by (auto simp: exp_part_def Let_def split: list.split)
qed

lemma number_leaves: "leaves (length s) (json_number s)"
proof -
  define s1 where "s1 = (if take 1 s = ''-'' then drop 1 s else s)"
  have "length (takeWhile is_digit s1) + length (dropWhile is_digit s1) = length s1"
    by (metis length_append takeWhile_dropWhile_id)
  moreover have "length s1 \<le> length s" by (simp add: s1_def)
  ultimately have l: "length (dropWhile is_digit s1) < length s" if "takeWhile is_digit s1 \<noteq> []"
    using that by (cases "takeWhile is_digit s1") auto
  have "length s4 < length s" if "takeWhile is_digit s1 \<noteq> []" "frac_part (dropWhile is_digit s1) = Some (f, s3)" "exp_part s3 = Some (e, s4)" for f e s3 s4
    using l [OF that(1)] part_leaves(1) [of "dropWhile is_digit s1"] part_leaves(2) [of s3] that(2,3) by simp
  then show ?thesis
    unfolding json_number_def Let_def s1_def [symmetric] by (auto split: option.split)
qed

lemma scalar_leaves: "s \<noteq> [] \<Longrightarrow> leaves (length s) (json_scalar s)"
  by (simp add: json_scalar_def number_leaves)

lemma value_leaves:
  "leaves (length s) (json_value n s)" "leaves (length s) (json_members n s)" "leaves (length s) (json_elements n s)"
proof (induction n s and n s and n s rule: json_value_json_members_json_elements.induct)
  case (2 n s)
  show ?case
  proof (cases "skip_ws s")
    case (Cons c r)
    have r: "length r < length s" by (rule skip_ws_Cons [OF Cons])
    then have "leaves (length s) (unquote r)" by (intro leaves_mono [OF unquote_leaves]) simp
    moreover have "leaves (length s) (json_scalar (c # r))" using r by (intro leaves_mono [OF scalar_leaves]) simp_all
    moreover have "length r' < length s" if "skip_ws r = d # r'" for d r' using skip_ws_Cons [OF that] r by simp
    moreover have "leaves (length s) (json_members n r)" if "c \<noteq> quote" "c = CHR ''{''" "skip_ws r = d # r'" "d \<noteq> CHR ''}''" for d r'
      by (rule leaves_mono [OF "2.IH"(1) [OF Cons that]]) (use r in simp)
    moreover have "leaves (length s) (json_elements n r)" if "c \<noteq> quote" "c \<noteq> CHR ''{''" "c = CHR ''[''" "skip_ws r = d # r'" "d \<noteq> CHR '']''" for d r'
      by (rule leaves_mono [OF "2.IH"(2) [OF Cons that]]) (use r in simp)
    ultimately show ?thesis using Cons by (simp add: json_value.simps(2) leaves_map split: list.split)
  qed (simp add: json_value.simps(2))
next
  case (4 n s)
  show ?case
  proof (cases "\<exists>c r k r1 d r2 v r3 e r4. skip_ws s = c # r \<and> unquote r = Some (k, r1) \<and> skip_ws r1 = d # r2 \<and> json_value n r2 = Some (v, r3) \<and>
      skip_ws r3 = e # r4 \<and> c = quote \<and> d = CHR '':''")
    case True
    then obtain c r k r1 d r2 v r3 e r4 where
      m: "skip_ws s = c # r" "unquote r = Some (k, r1)" "skip_ws r1 = d # r2" "json_value n r2 = Some (v, r3)" "skip_ws r3 = e # r4"
      and c: "c = quote" "d = CHR '':''" by blast
    have "length r < length s" "length r1 < length r" "length r2 < length r1" "length r4 < length r3"
      using m(1-3,5) unquote_leaves [of r] by (auto dest: skip_ws_Cons)
    moreover have "leaves (length r2) (json_value n r2)"
      using "4.IH"(1) [OF m(1) _ m(2) _ m(3)] c by simp
    ultimately have l: "length r4 < length s" using m(4) by simp
    have "leaves (length r4) (json_members n r4)" if "e \<noteq> CHR ''}''" "e = CHR '',''"
      using "4.IH"(2) [OF m(1) _ m(2) _ m(3) _ m(4) _ m(5)] c that by simp
    then have "e \<noteq> CHR ''}'' \<Longrightarrow> e = CHR '','' \<Longrightarrow> leaves (length s) (json_members n r4)" using l by (blast intro: leaves_mono less_imp_le)
    with m c l show ?thesis by (auto simp: json_members.simps(2))
  next
    case False
    then have "json_members (Suc n) s = None"
      by (auto simp: json_members.simps(2) split: list.split option.split)
    then show ?thesis by simp
  qed
next
  case (6 n s)
  show ?case
  proof (cases "\<exists>v r e r'. json_value n s = Some (v, r) \<and> skip_ws r = e # r'")
    case True
    then obtain v r e r' where m: "json_value n s = Some (v, r)" "skip_ws r = e # r'" by blast
    have l: "length r' < length s" using "6.IH"(1) skip_ws_Cons [OF m(2)] m(1) by simp
    have "leaves (length r') (json_elements n r')" if "e \<noteq> CHR '']''" "e = CHR '',''"
      using "6.IH"(2) [OF m(1) _ m(2) that] by simp
    then have "e \<noteq> CHR '']'' \<Longrightarrow> e = CHR '','' \<Longrightarrow> leaves (length s) (json_elements n r')" using l by (blast intro: leaves_mono less_imp_le)
    with m l show ?thesis by (auto simp: json_elements.simps(2))
  next
    case False
    then have "json_elements (Suc n) s = None" by (auto simp: json_elements.simps(2) split: list.split option.split)
    then show ?thesis by simp
  qed
qed simp_all

text \<open>More fuel than twice the length of the text changes nothing, so no document is refused for want of fuel.\<close>

lemma value_fuel:
  "(2 * length s < n \<longrightarrow> json_value (Suc n) s = json_value n s) \<and>
   (2 * length s < n \<longrightarrow> json_members (Suc n) s = json_members n s) \<and>
   (2 * length s + 1 < n \<longrightarrow> json_elements (Suc n) s = json_elements n s)"
proof (induction n arbitrary: s)
  case (Suc n)
  have v: "json_value (Suc n) t = json_value n t" if "2 * length t < n" for t using Suc that by blast
  have m: "json_members (Suc n) t = json_members n t" if "2 * length t < n" for t using Suc that by blast
  have e: "json_elements (Suc n) t = json_elements n t" if "2 * length t + 1 < n" for t using Suc that by blast
  have "json_value (Suc (Suc n)) s = json_value (Suc n) s" if l: "2 * length s < Suc n"
  proof (cases "skip_ws s")
    case (Cons c r)
    with l have "json_members (Suc n) r = json_members n r" "json_elements (Suc n) r = json_elements n r"
      using skip_ws_Cons [OF Cons] by (intro m e; simp)+
    with Cons show ?thesis by (simp add: json_value.simps(2) [of "Suc n"] json_value.simps(2) [of n] split: list.split)
  qed (simp add: json_value.simps(2))
  moreover have "json_members (Suc (Suc n)) s = json_members (Suc n) s" if l: "2 * length s < Suc n"
  proof (cases "\<exists>c r k r1 d r2. skip_ws s = c # r \<and> unquote r = Some (k, r1) \<and> skip_ws r1 = d # r2")
    case True
    then obtain c r k r1 d r2 where q: "skip_ws s = c # r" "unquote r = Some (k, r1)" "skip_ws r1 = d # r2" by blast
    have "length r < length s" "length r1 < length r" "length r2 < length r1"
      using q unquote_leaves [of r] by (auto dest: skip_ws_Cons)
    then have r2: "2 * length r2 < n" using l by simp
    have "json_members (Suc n) r4 = json_members n r4" if "json_value n r2 = Some (x, r3)" "skip_ws r3 = y # r4" for x r3 y r4
      using value_leaves(1) [of r2 n] skip_ws_Cons [OF that(2)] that(1) r2 by (intro m) simp
    with q v [OF r2] show ?thesis
      by (simp add: json_members.simps(2) [of "Suc n"] json_members.simps(2) [of n] split: list.split option.split)
  next
    case False
    then have "json_members (Suc k) s = None" for k
      by (auto simp: json_members.simps(2) split: list.split option.split)
    then show ?thesis by simp
  qed
  moreover have "json_elements (Suc (Suc n)) s = json_elements (Suc n) s" if l: "2 * length s + 1 < Suc n"
  proof -
    have s: "2 * length s < n" using l by simp
    have "json_elements (Suc n) r' = json_elements n r'" if "json_value n s = Some (x, r)" "skip_ws r = y # r'" for x r y r'
      using value_leaves(1) [of s n] skip_ws_Cons [OF that(2)] that(1) s by (intro e) simp
    with v [OF s] show ?thesis
      by (simp add: json_elements.simps(2) [of "Suc n"] json_elements.simps(2) [of n] split: list.split option.split)
  qed
  ultimately show ?case by blast
qed simp

lemma json_Decode_fuel: "2 * length s < n \<Longrightarrow> json_Decode s = (case json_value n s of Some (j, _) \<Rightarrow> Inr j | None \<Rightarrow> Inl (ENew ''invalid JSON''))"
proof -
  have more: "json_value (m + k) s = json_value m s" if "2 * length s < m" for m k
    using that value_fuel [of s] by (induction k) simp_all
  show ?thesis if "2 * length s < n"
    using more [of "2 * length s + 1" 1] more [of "2 * length s + 1" "n - (2 * length s + 1)"] that by (simp add: json_Decode_def)
qed

section \<open>Writing\<close>

text \<open>\<^verbatim>\<open>json.Marshal\<close> of a struct: its fields in their order. A time is written as a string that needs no escapes.\<close>

fun json_pairs :: "(string \<times> string) list \<Rightarrow> string" where
  "json_pairs [] = ''}''"
| "json_pairs [(k, v)] = json_string k @ '':'' @ json_string v @ ''}''"
| "json_pairs ((k, v) # fs) = json_string k @ '':'' @ json_string v @ '','' @ json_pairs fs"

definition json_object :: "(string \<times> string) list \<Rightarrow> string" where
  "json_object fs = ''{'' @ json_pairs fs"

lemma skip_ws_struct [simp]:
  "skip_ws (CHR '':'' # t) = CHR '':'' # t" "skip_ws (CHR ''}'' # t) = CHR ''}'' # t" "skip_ws (CHR ''{'' # t) = CHR ''{'' # t"
  by (simp_all add: skip_ws_def json_ws_def)

lemma json_string_Cons: "json_string v @ t = CHR 0x22 # concat (map esc v) @ CHR 0x22 # t"
  by (simp add: json_string_def)

lemma json_value_string: "json_value (Suc n) (json_string v @ t) = Some (JString v, t)"
  using unquote_json_string [of v t] skip_ws_quote [of v t] by (simp add: json_value.simps(2) json_string_Cons)

lemma json_members_pairs:
  "fs \<noteq> [] \<Longrightarrow> length fs < n \<Longrightarrow> json_members n (json_pairs fs @ t) = Some (map (apsnd JString) fs, t)"
proof (induction fs arbitrary: n rule: json_pairs.induct)
  case (2 k v)
  then obtain m where "n = Suc (Suc m)" by (cases n; cases "n - 1") auto
  then show ?case
    using unquote_json_string [of k] skip_ws_quote [of k] json_value_string [of m v "CHR ''}'' # t"]
    by (simp add: json_members.simps(2) json_string_Cons)
next
  case (3 k v f fs)
  then obtain m where m: "n = Suc (Suc m)" "length (f # fs) < Suc m" by (cases n; cases "n - 1") auto
  have "json_members (Suc m) (json_pairs (f # fs) @ t) = Some (map (apsnd JString) (f # fs), t)"
    by (rule "3.IH") (use m(2) in simp_all)
  then show ?case
    using unquote_json_string [of k] skip_ws_quote [of k] json_value_string [of m v "CHR '','' # json_pairs (f # fs) @ t"] m(1)
    by (simp add: json_members.simps(2) [of "Suc m"] json_string_Cons)
qed simp

lemma length_json_pairs: "length fs < length (json_pairs fs)"
  by (induction fs rule: json_pairs.induct) (auto simp: json_string_def)

text \<open>What is written is read back, whatever follows it.\<close>

lemma json_object_read: "json_Decode (json_object fs @ t) = Inr (JObject (map (apsnd JString) fs))"
proof -
  define n where "n = 2 * length (json_object fs @ t) + 1"
  have l: "length fs < n" using length_json_pairs [of fs] by (simp add: n_def json_object_def)
  have "json_value (Suc n) (json_object fs @ t) = Some (JObject (map (apsnd JString) fs), t)"
  proof (cases fs)
    case Nil
    then show ?thesis by (simp add: json_object_def json_value.simps(2))
  next
    case (Cons f fs')
    then obtain k v u where "json_pairs fs @ t = json_string k @ u" by (cases f; cases fs') auto
    then have "skip_ws (json_pairs fs @ t) = CHR 0x22 # concat (map esc k) @ CHR 0x22 # u" using skip_ws_quote [of k u] by (simp add: json_string_Cons)
    with json_members_pairs [OF _ l, of t] Cons show ?thesis by (simp add: json_object_def json_value.simps(2))
  qed
  then show ?thesis using json_Decode_fuel [of "json_object fs @ t" "Suc n"] by (simp add: n_def)
qed

end
