(* ===== verification/RFC3339.thy ===== *)
theory RFC3339
  imports Time_Order
begin

text \<open>
  The JSON form of a \<^verbatim>\<open>time.Time\<close>, a text in the format of RFC 3339 with as many digits of the second as it takes, and the strict reader that
  \<^verbatim>\<open>UnmarshalJSON\<close> uses. A time is in nanoseconds from the epoch, and the offset of its location in seconds.
\<close>

section \<open>Writing\<close>

text \<open>\<^verbatim>\<open>.999999999\<close>: a fraction without the zeros at its end, and none if it is zero.\<close>

definition trim_zeros :: "string \<Rightarrow> string" where
  "trim_zeros ds = rev (dropWhile (\<lambda>c. c = CHR ''0'') (rev ds))"

definition show_frac :: "nat \<Rightarrow> string" where
  "show_frac ns = (if ns = 0 then '''' else CHR ''.'' # trim_zeros (pad 9 ns))"

text \<open>\<^verbatim>\<open>Z07:00\<close>.\<close>

definition show_zone_colon :: "int \<Rightarrow> string" where
  "show_zone_colon off =
     (if off = 0 then ''Z''
      else let z = nat (\<bar>off\<bar> div 60)
           in (if off < 0 \<and> z \<noteq> 0 then ''-'' else ''+'') @ pad 2 (z div 60) @ '':'' @ pad 2 (z mod 60))"

definition format_rfc3339 :: "int \<Rightarrow> time \<Rightarrow> string" where
  "format_rfc3339 off t =
     (case (date_at (t div nano + off), clock_at (t div nano + off)) of
        ((y, m, d), (h, mi, s)) \<Rightarrow>
          show_year y @ ''-'' @ pad 2 m @ ''-'' @ pad 2 d @ ''T'' @ pad 2 h @ '':'' @ pad 2 mi @ '':'' @ pad 2 s @
          show_frac (nat (t mod nano)) @ show_zone_colon off)"

text \<open>\<^verbatim>\<open>MarshalJSON\<close> refuses years that do not have four digits and offsets of a day or more.\<close>

definition rfc3339_ok :: "int \<Rightarrow> time \<Rightarrow> bool" where
  "rfc3339_ok off t \<longleftrightarrow>
     (let y = fst (date_at (t div nano + off)) in 0 \<le> y \<and> y \<le> 9999 \<and> \<bar>off\<bar> < 86400)"

section \<open>Reading\<close>

text \<open>A field of a fixed number of digits with its least and largest value.\<close>

definition field :: "nat \<Rightarrow> nat \<Rightarrow> nat \<Rightarrow> nat \<Rightarrow> string \<Rightarrow> nat option" where
  "field i n lo hi s =
     (let ds = take n (drop i s); v = read_digits 0 ds
      in if length ds = n \<and> list_all is_digit ds \<and> lo \<le> v \<and> v \<le> hi then Some v else None)"

definition days_in :: "int \<Rightarrow> nat \<Rightarrow> nat" where
  "days_in y m = month_days (leap y) ! (m - 1)"

text \<open>The nanoseconds of a fraction, of which only nine digits count.\<close>

definition read_frac :: "string \<Rightarrow> nat" where
  "read_frac ds = read_digits 0 (take 9 ds) * 10 ^ (9 - length (take 9 ds))"

definition read_zone :: "string \<Rightarrow> int option" where
  "read_zone s =
     (if s = ''Z'' then Some 0
      else if length s \<noteq> 6 \<or> s ! 0 \<notin> {CHR ''+'', CHR ''-''} \<or> s ! 3 \<noteq> CHR '':'' then None
      else case (field 1 2 0 23 s, field 4 2 0 59 s) of
             (Some h, Some m) \<Rightarrow> Some (let z = int (h * 60 + m) * 60 in if s ! 0 = CHR ''-'' then - z else z)
           | _ \<Rightarrow> None)"

definition parse_rfc3339 :: "string \<Rightarrow> error + time" where
  "parse_rfc3339 s =
     (let bad = Inl (ENew ''parsing time'')
      in if length s < 19 \<or> s ! 4 \<noteq> CHR ''-'' \<or> s ! 7 \<noteq> CHR ''-'' \<or> s ! 10 \<noteq> CHR ''T'' \<or> s ! 13 \<noteq> CHR '':'' \<or> s ! 16 \<noteq> CHR '':'' then bad
         else case (field 0 4 0 9999 s, field 5 2 1 12 s, field 11 2 0 23 s, field 14 2 0 59 s, field 17 2 0 59 s) of
                (Some y, Some m, Some h, Some mi, Some sec) \<Rightarrow>
                  (case field 8 2 1 (days_in (int y) m) s of
                     None \<Rightarrow> bad
                   | Some d \<Rightarrow>
                       (let r = drop 19 s;
                            frac = (take 1 r = ''.'' \<and> takeWhile is_digit (drop 1 r) \<noteq> []);
                            ns = (if frac then read_frac (takeWhile is_digit (drop 1 r)) else 0)
                        in case read_zone (if frac then dropWhile is_digit (drop 1 r) else r) of
                             None \<Rightarrow> bad
                           | Some off \<Rightarrow>
                               Inr (((day_number (int y) m d - epoch_day) * 86400 + int (h * 3600 + mi * 60 + sec) - off) * nano + int ns)))
              | _ \<Rightarrow> bad)"

section \<open>What is written is read back\<close>

lemma field_pad:
  assumes "drop i s = pad n v @ t" and "v < 10 ^ n" and "0 < n" and "lo \<le> v" and "v \<le> hi"
  shows "field i n lo hi s = Some v"
  using assms length_pad [OF assms(2,3)] by (simp add: field_def pad_digits)

lemma trim_zeros_split: "\<exists>k. ds = trim_zeros ds @ replicate k (CHR ''0'')"
proof -
  let ?z = "\<lambda>c. c = CHR ''0''"
  have "takeWhile ?z (rev ds) = replicate (length (takeWhile ?z (rev ds))) (CHR ''0'')"
    by (rule replicate_length_same [symmetric]) (auto dest: set_takeWhileD)
  then have "rev (takeWhile ?z (rev ds)) = replicate (length (takeWhile ?z (rev ds))) (CHR ''0'')" by (metis rev_replicate)
  moreover have "ds = trim_zeros ds @ rev (takeWhile ?z (rev ds))"
    unfolding trim_zeros_def rev_append [symmetric] takeWhile_dropWhile_id by simp
  ultimately show ?thesis by metis
qed

lemma read_digits_zeros: "read_digits a (replicate k (CHR ''0'')) = a * 10 ^ k"
  by (induction k arbitrary: a) (simp_all add: digit_val_def)

lemma read_trimmed:
  assumes "ns < 10 ^ 9" and "ns \<noteq> 0"
  shows "read_frac (trim_zeros (pad 9 ns)) = ns" and "list_all is_digit (trim_zeros (pad 9 ns))" and "trim_zeros (pad 9 ns) \<noteq> []"
proof -
  obtain k where k: "pad 9 ns = trim_zeros (pad 9 ns) @ replicate k (CHR ''0'')" using trim_zeros_split by blast
  have "length (pad 9 ns) = 9" by (rule length_pad [OF assms(1)]) simp
  then have l: "length (trim_zeros (pad 9 ns)) + k = 9" using arg_cong [OF k, of length] by simp
  have r: "read_digits 0 (trim_zeros (pad 9 ns)) * 10 ^ k = ns"
    using arg_cong [OF k, of "read_digits 0"] by (simp add: read_digits_append read_digits_zeros)
  moreover from l have "9 - length (trim_zeros (pad 9 ns)) = k" by simp
  ultimately show "read_frac (trim_zeros (pad 9 ns)) = ns" using l by (simp add: read_frac_def)
  show "list_all is_digit (trim_zeros (pad 9 ns))" using pad_digits [of 9 ns] k by (metis list_all_append)
  show "trim_zeros (pad 9 ns) \<noteq> []" using r assms(2) by auto
qed

lemma read_zone_shown:
  assumes "off mod 60 = 0" and "\<bar>off\<bar> < 86400"
  shows "read_zone (show_zone_colon off) = Some off"
proof (cases "off = 0")
  case False
  define z where "z = nat (\<bar>off\<bar> div 60)"
  define sg where "sg = (if off < 0 \<and> z \<noteq> 0 then CHR ''-'' else CHR ''+'')"
  have "60 dvd \<bar>off\<bar>" using assms(1) by (simp add: mod_0_imp_dvd)
  then have z: "int z * 60 = \<bar>off\<bar>" by (simp add: z_def pos_imp_zdiv_nonneg_iff)
  then have "z < 1440" using assms(2) by linarith
  then have b: "z div 60 < 24" "z mod 60 < 60" by (simp_all add: less_mult_imp_div_less)
  then have l: "length (pad 2 (z div 60)) = 2" "length (pad 2 (z mod 60)) = 2" by (simp_all add: length_pad)
  have e: "show_zone_colon off = sg # pad 2 (z div 60) @ '':'' @ pad 2 (z mod 60)"
    using False by (simp add: show_zone_colon_def Let_def z_def [symmetric] sg_def)
  have "field 1 2 0 23 (show_zone_colon off) = Some (z div 60)" "field 4 2 0 59 (show_zone_colon off) = Some (z mod 60)"
    using b l by (auto intro!: field_pad simp: e)
  moreover have "length (show_zone_colon off) = 6" "show_zone_colon off ! 0 = sg" "show_zone_colon off ! 3 = CHR '':''"
    using l by (simp_all add: e nth_append)
  moreover have "sg = CHR ''+'' \<or> sg = CHR ''-''" "show_zone_colon off \<noteq> ''Z''" by (simp_all add: sg_def e)
  moreover have "int (z div 60 * 60 + z mod 60) * 60 = \<bar>off\<bar>" using z by simp
  moreover have "(if sg = CHR ''-'' then - \<bar>off\<bar> else \<bar>off\<bar>) = off" using z False by (auto simp: sg_def)
  ultimately show ?thesis by (simp add: read_zone_def Let_def)
qed (simp add: show_zone_colon_def read_zone_def)

lemma zone_not_digit: "\<not> is_digit (show_zone_colon off ! 0)" "show_zone_colon off \<noteq> []" "show_zone_colon off ! 0 \<noteq> CHR ''.''"
  by (simp_all add: show_zone_colon_def Let_def is_digit_def)

text \<open>A time that \<^verbatim>\<open>MarshalJSON\<close> accepts is read back to the nanosecond if its offset is in whole minutes, since the seconds of an offset are not written.\<close>

lemma parse_format_rfc3339:
  assumes "rfc3339_ok off t" and "off mod 60 = 0"
  shows "parse_rfc3339 (format_rfc3339 off t) = Inr t"
proof -
  obtain y m d where d: "date_at (t div nano + off) = (y, m, d)" by (cases "date_at (t div nano + off)")
  obtain h mi s where c: "clock_at (t div nano + off) = (h, mi, s)" by (cases "clock_at (t div nano + off)")
  note db = date_day_number [OF d [unfolded date_at_def]] and dp = date_parts [OF d [unfolded date_at_def]] and cb = clock_at_bounds [OF c]
  have y: "show_year y = pad 4 (nat y)" "nat y < 10 ^ 4" "0 \<le> y" and off: "\<bar>off\<bar> < 86400"
    using assms(1) d by (auto simp: rfc3339_ok_def show_year_def nat_less_iff)
  define ns where "ns = nat (t mod nano)"
  have ns: "ns < 10 ^ 9" "int ns = t mod nano" by (simp_all add: ns_def nano_def nat_less_iff)
  define z where "z = show_zone_colon off"
  define r where "r = show_frac ns @ z"
  have zd: "z \<noteq> []" "\<not> is_digit (z ! 0)" "z ! 0 \<noteq> CHR ''.''" using zone_not_digit [of off] by (simp_all add: z_def)
  let ?t = "format_rfc3339 off t"
  have f: "?t = pad 4 (nat y) @ ''-'' @ pad 2 m @ ''-'' @ pad 2 d @ ''T'' @ pad 2 h @ '':'' @ pad 2 mi @ '':'' @ pad 2 s @ r"
    by (simp add: format_rfc3339_def d c y(1) ns_def r_def z_def)
  have b: "m < 10 ^ 2" "d < 10 ^ 2" "h < 10 ^ 2" "mi < 10 ^ 2" "s < 10 ^ 2" using db cb by simp_all
  note len = length_pad [OF y(2)] b [THEN length_pad]
  have days: "d \<le> days_in y m"
  proof -
    have "m - 1 < length (month_days (leap y))" using db by (simp add: month_days_def)
    then have "sum_list (take m (month_days (leap y))) = sum_list (take (m - 1) (month_days (leap y))) + days_in y m"
      using take_Suc_conv_app_nth [of "m - 1" "month_days (leap y)"] db(2) by (simp add: days_in_def)
    then show ?thesis using dp(3,4) by linarith
  qed
  have fields: "field 0 4 0 9999 ?t = Some (nat y)" "field 5 2 1 12 ?t = Some m" "field 8 2 1 (days_in (int (nat y)) m) ?t = Some d"
      "field 11 2 0 23 ?t = Some h" "field 14 2 0 59 ?t = Some mi" "field 17 2 0 59 ?t = Some s"
    using len y b db cb days by (auto intro!: field_pad simp: f)
  have seps: "\<not> length ?t < 19" "?t ! 4 = CHR ''-''" "?t ! 7 = CHR ''-''" "?t ! 10 = CHR ''T''" "?t ! 13 = CHR '':''" "?t ! 16 = CHR '':''" "drop 19 ?t = r"
    using len by (simp_all add: f nth_append)
  define frac where "frac = (take 1 r = ''.'' \<and> takeWhile is_digit (drop 1 r) \<noteq> [])"
  have rest: "(if frac then read_frac (takeWhile is_digit (drop 1 r)) else 0) = ns" "(if frac then dropWhile is_digit (drop 1 r) else r) = z"
  proof -
    have "(if frac then read_frac (takeWhile is_digit (drop 1 r)) else 0) = ns \<and> (if frac then dropWhile is_digit (drop 1 r) else r) = z"
    proof (cases "ns = 0")
      case True
      then show ?thesis using zd by (cases z) (auto simp: frac_def r_def show_frac_def)
    next
      case False
      note q = read_trimmed [OF ns(1) False]
      have "takeWhile is_digit (trim_zeros (pad 9 ns) @ z) = trim_zeros (pad 9 ns)" "dropWhile is_digit (trim_zeros (pad 9 ns) @ z) = z"
        using q(2) zd by (cases z; simp add: takeWhile_append dropWhile_append list_all_iff)+
      then show ?thesis using False q by (simp add: frac_def r_def show_frac_def)
    qed
    then show "(if frac then read_frac (takeWhile is_digit (drop 1 r)) else 0) = ns" "(if frac then dropWhile is_digit (drop 1 r) else r) = z" by simp_all
  qed
  have "((day_number y m d - epoch_day) * 86400 + int (h * 3600 + mi * 60 + s) - off) = t div nano"
    unfolding db(1) cb(4) using div_mult_mod_eq [of "t div nano + off" 86400] by simp
  moreover have "t div nano * nano + int ns = t" using ns(2) by simp
  ultimately show ?thesis
    using seps fields rest read_zone_shown [OF assms(2) off] y(3)
    unfolding parse_rfc3339_def Let_def z_def [symmetric] by (simp only: option.case prod.case if_False simp_thms nat_0_le frac_def [symmetric])
qed

end
