(* ===== verification/Wire.thy ===== *)
theory Wire
  imports SSH_Client Server_Flow JSON_Text RFC3339
begin

text \<open>
  The client and the server together: a request of \<^verbatim>\<open>client/client.go\<close> as JSON, served by \<^verbatim>\<open>server/handlers.go\<close>, and the answer as JSON back at the client. What
  \<^verbatim>\<open>Sign\<close> of the client returns is what the server signed, and it returns it.
\<close>

section \<open>The two documents\<close>

text \<open>\<^verbatim>\<open>lib.SignRequest\<close> and \<^verbatim>\<open>lib.SignResponse\<close> as JSON; \<open>zone\<close> gives the offset of the location of a time, which is whole minutes.\<close>

definition request_json :: "(time \<Rightarrow> int) \<Rightarrow> SignRequest \<Rightarrow> string" where
  "request_json zone sr =
     json_object [(''key'', req_Key sr), (''valid_until'', format_rfc3339 (zone (req_ValidUntil sr)) (req_ValidUntil sr)),
                  (''message'', req_Message sr), (''version'', req_Version sr)]"

definition response_json :: "SignResponse \<Rightarrow> string" where
  "response_json resp =
     json_object [(''status'', resp_Status resp), (''response'', resp_Response resp), (''version'', resp_Version resp)]"

lemma wire_keys:
  "equal_fold k k" "\<not> equal_fold ''valid_until'' ''key''" "\<not> equal_fold ''message'' ''key''" "\<not> equal_fold ''message'' ''valid_until''"
  "\<not> equal_fold ''version'' ''key''" "\<not> equal_fold ''version'' ''valid_until''" "\<not> equal_fold ''version'' ''message''"
  "\<not> equal_fold ''response'' ''status''" "\<not> equal_fold ''version'' ''status''" "\<not> equal_fold ''version'' ''response''"
  by (simp add: equal_fold_def) (code_simp+)

lemma request_read:
  assumes "env_json env = json_Decode" and "env_parse_time env = parse_rfc3339"
    and "rfc3339_ok (zone (req_ValidUntil sr)) (req_ValidUntil sr)" and "zone (req_ValidUntil sr) mod 60 = 0"
  shows "decode_request env (request_json zone sr) = Inr sr"
  using json_object_read [where t = "''''"] parse_format_rfc3339 [OF assms(3,4)]
  by (simp add: decode_request_def assms(1,2) request_json_def request_field_def wire_keys)

lemma response_read:
  assumes "cl_json api = json_Decode"
  shows "decode_response api (response_json resp @ t) = Inr resp"
  by (simp add: decode_response_def assms response_json_def json_object_read response_field_def wire_keys)

section \<open>A request on its way\<close>

text \<open>
  The request that \<^verbatim>\<open>send\<close> makes, and what is left of the server's response at the client. The server's answers to \<^verbatim>\<open>/sign\<close> consist of JSON documents, each with
  a newline. \<open>at n\<close> is the server's state and world when it gets the request with number \<open>n\<close>, and \<open>net n\<close> whether the connection fails.
\<close>

definition sign_post :: "(time \<Rightarrow> int) \<Rightarrow> string \<Rightarrow> SignRequest \<Rightarrow> request" where
  "sign_post zone authorization sr =
     \<lparr>r_Method = ''POST'', r_Path = ''/sign'', r_URI = ''/sign'', r_Authorization = authorization, r_Form = [], r_Query = [],
      r_Body = request_json zone sr, r_Session = []\<rparr>"

fun body_json :: "body \<Rightarrow> string" where
  "body_json (BSignResponse resp) = response_json resp @ [newline]"
| "body_json _ = ''''"

definition client_answer :: "response \<Rightarrow> ca_answer" where
  "client_answer rw =
     \<lparr>ans_StatusCode = (case w_status rw of Some c \<Rightarrow> c | None \<Rightarrow> 200),
      ans_NeedReason = (case map_of (w_header rw) ''X-Need-Reason'' of Some v \<Rightarrow> v | None \<Rightarrow> ''''),
      ans_Body = concat (map body_json (w_body rw))\<rparr>"

definition ca_link ::
  "('k, 'ca, 's) server_env \<Rightarrow> ('k, 'ca, 's) application \<Rightarrow> (time \<Rightarrow> int) \<Rightarrow> (nat \<Rightarrow> 's \<times> world) \<Rightarrow> (nat \<Rightarrow> error option)
     \<Rightarrow> nat \<Rightarrow> bool \<Rightarrow> string \<Rightarrow> string \<Rightarrow> SignRequest \<Rightarrow> error + ca_answer" where
  "ca_link env a zone at net n insecure url authorization sr =
     (case net n of
        Some e \<Rightarrow> Inl e
      | None \<Rightarrow> (case serve env a (sign_post zone authorization sr) (fst (at n)) (snd (at n)) of
                   (_, h', _) \<Rightarrow> Inr (client_answer (hs_resp h'))))"

text \<open>
  Client and server use the same packages for SSH, JSON and times; the client sends a time only if it can be written, from a location whose offset is whole minutes; the router
  knows the path.
\<close>

definition wired :: "('k, 'ca) client_api \<Rightarrow> ('k, 'ca, 's) server_env \<Rightarrow> (time \<Rightarrow> int) \<Rightarrow> bool" where
  "wired api env zone \<longleftrightarrow>
     cl_ssh api = env_ssh env \<and> cl_json api = json_Decode \<and> env_json env = json_Decode \<and> env_parse_time env = parse_rfc3339 \<and>
     (\<forall>sr. marshal_fault api sr = None \<longrightarrow> rfc3339_ok (zone (req_ValidUntil sr)) (req_ValidUntil sr)) \<and> (\<forall>t. zone t mod 60 = 0) \<and>
     (\<forall>r. r_Method r = ''POST'' \<and> r_Path r = ''/sign'' \<longrightarrow> mux env setupRoutes r = Inr HSign) \<and> recovery_ok env"

text \<open>What the SSH package documents of a certificate that was signed: it can be written on a line, read back and seen as the certificate it is.\<close>

definition signed_wire_ok :: "('k, 'ca) ssh_api \<Rightarrow> bool" where
  "signed_wire_ok ssh \<longleftrightarrow>
     (\<forall>n ca c c'. SignCert ssh n ca c = Inr c' \<longrightarrow> marshal_ok ssh (CertAsKey ssh c') \<and> as_cert_ok ssh c')"

lemma sign_post_fields [simp]:
  "r_Method (sign_post zone hdr sr) = ''POST''" "r_Path (sign_post zone hdr sr) = ''/sign''"
  "r_Body (sign_post zone hdr sr) = request_json zone sr" "r_Authorization (sign_post zone hdr sr) = hdr"
  by (simp_all add: sign_post_def)

lemma wired_serve:
  assumes "wired api env zone"
  shows "serve env a (sign_post zone hdr sr) s w =
    (case sign env a (sign_post zone hdr sr) (start_state env (sign_post zone hdr sr) s) w of
       (Return u, h', w') \<Rightarrow> (Return u, h', w')
     | (Panic, h', w') \<Rightarrow> (Return (), h'\<lparr>hs_resp := write_header 500 (hs_resp h')\<rparr>, w'))"
proof -
  have "recovery_ok env" "mux env setupRoutes (sign_post zone hdr sr) = Inr HSign" using assms by (simp_all add: wired_def)
  from serve_eq [OF this] show ?thesis by simp
qed
section \<open>The server's side\<close>

definition only_json :: "'s hstate \<Rightarrow> bool" where
  "only_json h \<longleftrightarrow> set (w_body (hs_resp h)) \<subseteq> range BSignResponse"

lemma only_json_steps [simp]:
  "keeps only_json (on_store op)" "keeps only_json (WriteHeader c)" "keeps only_json (Header_Add k v)" "keeps only_json (Write (BSignResponse resp))"
  by (auto simp: keeps_def only_json_def on_store_def WriteHeader_def Header_Add_def Write_def on_resp_def split: prod.split)

lemma only_json_Encode [simp]: "keeps only_json (Encode nw (BSignResponse resp))" "keeps only_json (sign_fail env code e)"
  by (auto simp: Encode_def sign_fail_def split: option.split)

lemma only_json_sign: "keeps only_json (sign env a r)"
  by (auto simp: sign_def sign_issue_def Let_def split: sum.split option.split prod.split)

text \<open>An answer that the client reads as ok is one that \<^verbatim>\<open>sign\<close> of the server wrote.\<close>

lemma link_ok:
  assumes "wired api env zone" and "ca_link env a zone at net n insecure u hdr sr = Inr ans"
    and "decode_response api (ans_Body ans) = Inr resp"
  obtains res h' w' where "sign env a (sign_post zone hdr sr) (start_state env (sign_post zone hdr sr) (fst (at n))) (snd (at n)) = (res, h', w')"
    and "BSignResponse resp \<in> set (w_body (hs_resp h'))"
proof -
  let ?h = "start_state env (sign_post zone hdr sr) (fst (at n))"
  obtain res h' w' where s: "sign env a (sign_post zone hdr sr) ?h (snd (at n)) = (res, h', w')"
    by (cases "sign env a (sign_post zone hdr sr) ?h (snd (at n))")
  have ans: "ans_Body ans = concat (map body_json (w_body (hs_resp h')))"
    using assms(2) s by (cases res) (auto simp: ca_link_def wired_serve [OF assms(1)] client_answer_def split: option.splits)
  have "only_json ?h" by (simp add: only_json_def start_state_def new_response_def)
  then have "only_json h'" using only_json_sign [of env a "sign_post zone hdr sr"] s unfolding keeps_def by (metis fst_conv snd_conv)
  have j: "cl_json api = json_Decode" using assms(1) by (simp add: wired_def)
  show thesis
  proof (cases "w_body (hs_resp h')")
    case Nil
    with ans assms(3) show thesis by (simp add: decode_response_def j json_Decode_def json_value.simps(2))
  next
    case (Cons b bs)
    with \<open>only_json h'\<close> obtain resp' where b: "b = BSignResponse resp'" by (auto simp: only_json_def)
    with ans Cons assms(3) have "resp' = resp" by (simp add: response_read [OF j])
    with that s b Cons show thesis by simp
  qed
qed

text \<open>
  A server that accepts: the provider is content with the token, nothing panics, the signer signs and the connection takes the answer. It may want a reason, and its store may refuse the record.
\<close>

definition accepts :: "('k, 'ca, 's) server_env \<Rightarrow> ('k, 'ca, 's) application \<Rightarrow> Token \<Rightarrow> 's \<Rightarrow> world \<Rightarrow> bool" where
  "accepts env a t s v \<longleftrightarrow>
     (\<exists>w1. prov_Valid (app_provider a) t v = (Return True, w1)) \<and>
     (\<forall>w. \<exists>username w'. prov_Username (app_provider a) t w = (Return username, w')) \<and>
     (\<forall>w. \<exists>e w'. prov_Revoke (app_provider a) t w = (Return e, w')) \<and>
     (\<forall>n c. \<exists>c'. SignCert (env_ssh env) n (ks_ca (app_keysigner a)) c = Inr c') \<and>
     (\<forall>rec w. \<exists>e s' w'. store_SetRecord (app_certstore a) rec s w = (Return e, s', w')) \<and> (\<forall>n. net_Write env n = None)"

lemma link_asks:
  assumes "wired api env zone" and "accepts env a (tokenFromRequest (sign_post zone hdr sr)) (fst (at n)) (snd (at n))" and "net n = None"
    and "decode_request env (request_json zone sr) = Inr sr" and "app_requireReason a" and "req_Message sr = ''''"
  shows "\<exists>ans. ca_link env a zone at net n insecure u hdr sr = Inr ans \<and> asks_reason ans"
proof -
  obtain w1 where v: "prov_Valid (app_provider a) (tokenFromRequest (sign_post zone hdr sr)) (snd (at n)) = (Return True, w1)" and nw: "\<And>n. net_Write env n = None"
    using assms(2) by (auto simp: accepts_def)
  let ?h = "start_state env (sign_post zone hdr sr) (fst (at n))"
  have "sign env a (sign_post zone hdr sr) ?h (snd (at n)) =
      act_bind (Header_Add ''X-Need-Reason'' ''required'') (\<lambda>_. sign_fail env 403 errNeedsReason) ?h w1"
    using v assms(4-6) by (simp add: sign_def Let_def act_bind_def lift_io_def)
  then show ?thesis
    using assms(3) nw
    by (simp add: ca_link_def wired_serve [OF assms(1)] act_bind_def Header_Add_def on_resp_def sign_fail_eq start_state_def
        new_response_def client_answer_def asks_reason_def write_header_def HasPrefix_def)
qed

text \<open>Nobody else sets the header that asks for a reason.\<close>

definition no_reason :: "'s hstate \<Rightarrow> bool" where
  "no_reason h \<longleftrightarrow> map_of (w_header (hs_resp h)) ''X-Need-Reason'' = None"

lemma no_reason_steps [simp]:
  "keeps no_reason (on_store op)" "keeps no_reason (WriteHeader c)" "keeps no_reason (Write b)"
  by (auto simp: keeps_def no_reason_def on_store_def WriteHeader_def Write_def on_resp_def split: prod.split)

lemma no_reason_fail [simp]: "keeps no_reason (Encode nw b)" "keeps no_reason (sign_fail env code e)"
  by (auto simp: Encode_def sign_fail_def split: option.split)

lemma no_reason_sign:
  assumes "decode_request env (r_Body r) = Inr sr" and "req_Message sr \<noteq> ''''"
  shows "keeps no_reason (sign env a r)"
  using assms by (auto simp: sign_def sign_issue_def Let_def split: sum.split option.split prod.split)

lemma link_never_asks:
  assumes "wired api env zone" and "decode_request env (request_json zone sr) = Inr sr" and "req_Message sr \<noteq> ''''"
    and "ca_link env a zone at net n insecure u hdr sr = Inr ans"
  shows "\<not> asks_reason ans"
proof -
  let ?r = "sign_post zone hdr sr"
  obtain res h' w' where s: "sign env a ?r (start_state env ?r (fst (at n))) (snd (at n)) = (res, h', w')"
    by (cases "sign env a ?r (start_state env ?r (fst (at n))) (snd (at n))")
  have "no_reason (start_state env ?r (fst (at n)))" by (simp add: no_reason_def start_state_def new_response_def)
  then have "no_reason h'" using no_reason_sign [of env ?r sr a] assms(2,3) s unfolding keeps_def by (metis fst_conv snd_conv sign_post_fields(3))
  then have "ans_NeedReason ans = ''''"
    using assms(4) s by (cases res) (auto simp: ca_link_def wired_serve [OF assms(1)] client_answer_def no_reason_def split: option.splits)
  then show ?thesis by (simp add: asks_reason_def HasPrefix_def)
qed

lemma link_signs:
  assumes "wired api env zone" and "accepts env a (tokenFromRequest (sign_post zone hdr sr)) (fst (at n)) (snd (at n))" and "net n = None"
    and "decode_request env (request_json zone sr) = Inr sr" and "\<not> (app_requireReason a \<and> req_Message sr = '''')"
    and "signed_wire_ok (env_ssh env)" and "ParseAuthorizedKey (env_ssh env) (req_Key sr) = Inr pub"
  shows "\<exists>ans resp cert. ca_link env a zone at net n insecure u hdr sr = Inr ans \<and> decode_response api (ans_Body ans) = Inr resp \<and>
    \<not> asks_reason ans \<and> read_response api resp = Inr cert"
proof -
  let ?r = "sign_post zone hdr sr" and ?t = "tokenFromRequest (sign_post zone hdr sr)"
  let ?h = "start_state env ?r (fst (at n))"
  obtain w1 where v: "prov_Valid (app_provider a) ?t (snd (at n)) = (Return True, w1)" using assms(2) by (auto simp: accepts_def)
  obtain username w2 where un: "prov_Username (app_provider a) ?t w1 = (Return username, w2)" using assms(2) unfolding accepts_def by blast
  obtain e w3 where rv: "prov_Revoke (app_provider a) ?t w2 = (Return e, w3)" using assms(2) unfolding accepts_def by blast
  have sc: "\<And>n c. \<exists>c'. SignCert (env_ssh env) n (ks_ca (app_keysigner a)) c = Inr c'" using assms(2) unfolding accepts_def by blast
  obtain cert req' w4 where c: "SignUserKey (env_ssh env) (env_clk env) (app_keysigner a) sr username w3 = (Return (Inr cert, req'), w4)"
      "\<exists>n c. SignCert (env_ssh env) n (ks_ca (app_keysigner a)) c = Inr cert"
  proof -
    define c0 where "c0 = setPermissions (app_keysigner a) (base_cert (app_keysigner a) pub username (env_clk env (ticks w3 + 1)) (env_clk env (ticks w3 + 2))
      (req_ValidUntil (if env_clk env (ticks w3) + ks_validity (app_keysigner a) < req_ValidUntil sr
         then sr\<lparr>req_ValidUntil := env_clk env (ticks w3) + ks_validity (app_keysigner a)\<rparr> else sr)))"
    obtain c' where c': "SignCert (env_ssh env) (rands w3) (ks_ca (app_keysigner a)) c0 = Inr c'" using sc by blast
    then have "\<exists>req' w'. SignUserKey (env_ssh env) (env_clk env) (app_keysigner a) sr username w3 = (Return (Inr c', req'), w')"
      using assms(7) by (simp add: SignUserKey_eq Let_def c0_def)
    with c' that show thesis by blast
  qed
  then have m: "marshal_ok (env_ssh env) (CertAsKey (env_ssh env) cert)" "as_cert_ok (env_ssh env) cert" using assms(6) by (auto simp: signed_wire_ok_def)
  obtain line where l: "GetPublicKey (env_ssh env) (CertAsKey (env_ssh env) cert) = Return line"
      "ParseAuthorizedKey (env_ssh env) line = Inr (CertAsKey (env_ssh env) cert)"
    using GetPublicKey_marshal [OF m(1)] by metis
  obtain rec where r: "MakeRecord (env_ssh env) cert = Return rec" by (simp add: MakeRecord_def l(1))
  obtain e' s' w5 where st: "store_SetRecord (app_certstore a) (rec\<lparr>rec_Message := req_Message req'\<rparr>) (fst (at n)) w4 = (Return e', s', w5)"
    using assms(2) unfolding accepts_def by blast
  have nw: "net_Write env (calls w5) = None" using assms(2) by (simp add: accepts_def)
  have h: "hs_store ?h = fst (at n)" "w_status (hs_resp ?h) = None" "w_body (hs_resp ?h) = []" "w_header (hs_resp ?h) = [(''X-Cashier-Version'', lib_Version env)]"
    by (simp_all add: start_state_def new_response_def)
  let ?resp = "\<lparr>resp_Status = ''ok'', resp_Response = line, resp_Version = ''''\<rparr>"
  have "decode_request env (r_Body ?r) = Inr sr" using assms(4) by simp
  from sign_accepted [OF v this assms(5) un rv] have "sign env a ?r ?h (snd (at n)) = sign_issue env a sr username ?h w3" by simp
  also have "\<dots> = (Return (), ?h\<lparr>hs_store := s', hs_resp := (write_header 200 (hs_resp ?h))\<lparr>w_body := w_body (hs_resp ?h) @ [BSignResponse ?resp]\<rparr>\<rparr>,
      w5\<lparr>calls := Suc (calls w5)\<rparr>)"
    by (rule sign_issue_eq [OF c(1) l(1) r _ nw]) (simp only: h(1) st)
  finally have ans: "ca_link env a zone at net n insecure u hdr sr =
      Inr \<lparr>ans_StatusCode = 200, ans_NeedReason = '''', ans_Body = response_json ?resp @ [newline]\<rparr>"
    using assms(3) h by (simp add: ca_link_def wired_serve [OF assms(1)] client_answer_def write_header_def)
  have wd: "cl_ssh api = env_ssh env" "cl_json api = json_Decode" using assms(1) by (simp_all add: wired_def)
  have "read_response api ?resp = Inr cert" using l(2) m(2) by (simp add: read_response_def wd as_cert_ok_def)
  moreover have "decode_response api (response_json ?resp @ [newline]) = Inr ?resp" by (rule response_read [OF wd(2)])
  ultimately show ?thesis using ans by (simp add: asks_reason_def)
qed

lemma send_loop_good:
  assumes "\<And>sr w. req_Key sr = req_Key s \<Longrightarrow> req_ValidUntil sr = req_ValidUntil s \<Longrightarrow>
      (\<exists>e w'. send api sr token (cc_CA conf) (cc_ValidateTLSCertificate conf) w = (Return (Inl e), w') \<and> is_needs_reason e) \<or>
      (\<exists>resp w'. send api sr token (cc_CA conf) (cc_ValidateTLSCertificate conf) w = (Return (Inr resp), w') \<and> good resp)"
    and "send_loop api token conf s w = Some y"
  shows "\<exists>resp w'. y = (Return (Inr resp), w') \<and> good resp"
proof -
  define K U where "K = req_Key s" and "U = req_ValidUntil s"
  have "api = api \<and> token = token \<and> conf = conf \<and> req_Key s = K \<and> req_ValidUntil s = U \<longrightarrow> (\<exists>resp w'. y = (Return (Inr resp), w') \<and> good resp)"
  proof (rule send_loop.raw_induct [where P = "\<lambda>api' token' conf' s w y. api' = api \<and> token' = token \<and> conf' = conf \<and> req_Key s = K \<and> req_ValidUntil s = U \<longrightarrow>
        (\<exists>resp w'. y = (Return (Inr resp), w') \<and> good resp)", OF _ assms(2)], goal_cases)
    case (1 f api' token' conf' s w y)
    show ?case
    proof
      assume same: "api' = api \<and> token' = token \<and> conf' = conf \<and> req_Key s = K \<and> req_ValidUntil s = U"
      with assms(1) consider (asks) e w' where "send api s token (cc_CA conf) (cc_ValidateTLSCertificate conf) w = (Return (Inl e), w')" "is_needs_reason e"
        | (ok) resp w' where "send api s token (cc_CA conf) (cc_ValidateTLSCertificate conf) w = (Return (Inr resp), w')" "good resp"
        unfolding K_def U_def by blast
      then show "\<exists>resp w'. y = (Return (Inr resp), w') \<and> good resp"
      proof cases
        case (asks e w')
        let ?s = "s\<lparr>req_Message := prompt api (rands w')\<rparr>"
        from 1(2) same asks have "f api token conf ?s (w'\<lparr>rands := Suc (rands w')\<rparr>) = Some y"
          by (simp add: promptForReason_def draw_def)
        with 1(1) same show ?thesis by fastforce
      next
        case (ok resp w')
        with 1(2) same have "y = (Return (Inr resp), w')" by simp
        with ok(2) show ?thesis by blast
      qed
    qed
  qed
  then show ?thesis by (simp add: K_def U_def)
qed

text \<open>The loop of the client over such a server ends with a certificate.\<close>

lemma loop_finishes:
  assumes "wired api env zone" and "ca_Post api = ca_link env a zone at (\<lambda>_. None)" and "plain_errors api"
    and "signed_wire_ok (env_ssh env)" and "ParseAuthorizedKey (env_ssh env) (req_Key s) = Inr pub" and "CHR '' '' \<notin> set token"
    and "\<And>n. accepts env a (empty_Token\<lparr>AccessToken := token\<rparr>) (fst (at n)) (snd (at n))"
    and "\<And>sr. req_ValidUntil sr = req_ValidUntil s \<Longrightarrow> marshal_fault api sr = None"
    and "sign_url api (cc_CA conf) = Inr u" and "post_fault api u = None" and "prompt api (rands w + k) \<noteq> ''''"
  shows "\<exists>resp cert w'. send_loop api token conf s w = Some (Return (Inr resp), w') \<and> read_response api resp = Inr cert"
proof -
  have wd: "env_json env = json_Decode" "env_parse_time env = parse_rfc3339" "\<And>t. zone t mod 60 = 0"
    using assms(1) by (simp_all add: wired_def)
  have t: "tokenFromRequest (sign_post zone (''Bearer '' @ token) sr) = empty_Token\<lparr>AccessToken := token\<rparr>" for sr
    using tokenFromRequest_bearer [OF assms(6), of "sign_post zone (''Bearer '' @ token) sr"] by (simp add: sign_post_def)
  have read: "decode_request env (request_json zone sr) = Inr sr" if "marshal_fault api sr = None" for sr
    using assms(1) that by (intro request_read [OF wd(1,2)]) (simp_all add: wired_def)
  have acc: "accepts env a (tokenFromRequest (sign_post zone (''Bearer '' @ token) sr)) (fst (at n)) (snd (at n))" for sr n
    unfolding t by (rule assms(7))
  have snd: "(\<exists>e w'. send api sr token (cc_CA conf) (cc_ValidateTLSCertificate conf) v = (Return (Inl e), w') \<and> is_needs_reason e) \<or>
      (\<exists>resp w'. send api sr token (cc_CA conf) (cc_ValidateTLSCertificate conf) v = (Return (Inr resp), w') \<and> (\<exists>cert. read_response api resp = Inr cert))"
    if "req_Key sr = req_Key s" "req_ValidUntil sr = req_ValidUntil s" for sr v
  proof -
    have mf: "marshal_fault api sr = None" by (rule assms(8) [OF that(2)])
    show ?thesis
    proof (cases "app_requireReason a \<and> req_Message sr = ''''")
      case True
      then obtain ans where "ca_link env a zone at (\<lambda>_. None) (calls v) (\<not> cc_ValidateTLSCertificate conf) u (''Bearer '' @ token) sr = Inr ans" "asks_reason ans"
        using link_asks [where net = "\<lambda>_. None" and n = "calls v" and at = at, OF assms(1) acc _ read [OF mf]] by blast
      then show ?thesis by (intro disjI1) (simp add: send_def mf assms(2,9,10) io_defs asks_reason_def)
    next
      case False
      have key: "ParseAuthorizedKey (env_ssh env) (req_Key sr) = Inr pub" using assms(5) that(1) by simp
      from link_signs [where net = "\<lambda>_. None" and n = "calls v" and at = at, OF assms(1) acc _ read [OF mf] False assms(4) key] obtain ans resp cert where "ca_link env a zone at (\<lambda>_. None) (calls v) (\<not> cc_ValidateTLSCertificate conf) u (''Bearer '' @ token) sr = Inr ans"
          "decode_response api (ans_Body ans) = Inr resp" "\<not> asks_reason ans" "read_response api resp = Inr cert" by blast
      then show ?thesis by (intro disjI2) (auto simp: send_def mf assms(2,9,10) io_defs asks_reason_def)
    qed
  qed
  have "\<not> asks_reason ans" if "answered api token conf sr n ans" "req_Message sr \<noteq> ''''" for n sr ans
    using that link_never_asks [OF assms(1) read, where net = "\<lambda>_. None"] by (auto simp: answered_def assms(2))
  then obtain y where y: "send_loop api token conf s w = Some y"
    using send_loop_ends [OF assms(3), of token conf w k s] assms(11) by auto
  from send_loop_good [OF _ y, where good = "\<lambda>resp. \<exists>cert. read_response api resp = Inr cert"] snd y show ?thesis by auto
qed

section \<open>A concrete pair for the witnesses\<close>

text \<open>An SSH package in which a key is its line and the line of a certificate holds all of its fields.\<close>

fun flat :: "(string \<times> string) list \<Rightarrow> string list" where
  "flat [] = []"
| "flat ((k, v) # m) = k # v # flat m"

fun unflat :: "string list \<Rightarrow> (string \<times> string) list" where
  "unflat (k # v # ss) = (k, v) # unflat ss"
| "unflat _ = []"

lemma unflat_flat [simp]: "unflat (flat m) = m"
  by (induction m rule: flat.induct) simp_all

definition cert_line :: "string Certificate \<Rightarrow> string" where
  "cert_line c = json_Marshal
     [cert_Nonce c, cert_Key c, show_nat (unat (cert_Serial c)), show_nat (unat (cert_CertType c)), cert_KeyId c, json_Marshal (cert_ValidPrincipals c),
      show_nat (unat (cert_ValidAfter c)), show_nat (unat (cert_ValidBefore c)), json_Marshal (flat (cert_CriticalOptions c)),
      json_Marshal (flat (cert_Extensions c)), json_Marshal (case cert_SignatureKey c of None \<Rightarrow> [] | Some s \<Rightarrow> [s]),
      json_Marshal (case cert_Signature c of None \<Rightarrow> [] | Some s \<Rightarrow> [s])]"

definition line_list :: "string \<Rightarrow> string list" where
  "line_list s = (case json_Unmarshal s of Some ss \<Rightarrow> ss | None \<Rightarrow> [])"

definition line_opt :: "string \<Rightarrow> string option" where
  "line_opt s = (case line_list s of [] \<Rightarrow> None | x # _ \<Rightarrow> Some x)"

definition line_cert :: "string \<Rightarrow> string Certificate option" where
  "line_cert s =
     (case line_list s of
        [a, b, c, d, e, f, g, h, i, j, k, l] \<Rightarrow>
          Some \<lparr>cert_Nonce = a, cert_Key = b, cert_Serial = of_nat (read_digits 0 c), cert_CertType = of_nat (read_digits 0 d), cert_KeyId = e,
            cert_ValidPrincipals = line_list f, cert_ValidAfter = of_nat (read_digits 0 g), cert_ValidBefore = of_nat (read_digits 0 h),
            cert_CriticalOptions = unflat (line_list i), cert_Extensions = unflat (line_list j), cert_SignatureKey = line_opt k, cert_Signature = line_opt l\<rparr>
      | _ \<Rightarrow> None)"

lemma line_list_Marshal [simp]: "line_list (json_Marshal ss) = ss"
  by (simp add: line_list_def json_roundtrip)

lemma line_opt_Marshal [simp]: "line_opt (json_Marshal (case x of None \<Rightarrow> [] | Some s \<Rightarrow> [s])) = x"
  by (cases x) (simp_all add: line_opt_def)

lemma line_cert_line: "line_cert (cert_line c) = Some c"
  by (simp add: line_cert_def cert_line_def)

definition lssh :: "(string, unit) ssh_api" where
  "lssh = wssh\<lparr>CertAsKey := cert_line, AsCertificate := line_cert\<rparr>"

definition lserver :: "(string, unit, memoryStore) server_env" where
  "lserver = wserver\<lparr>env_ssh := lssh, env_json := json_Decode, env_parse_time := parse_rfc3339\<rparr>"

definition lclient :: "(string, unit) client_api" where
  "lclient = wclient\<lparr>cl_ssh := lssh, cl_json := json_Decode, ca_Post := ca_link lserver wapplication (\<lambda>_. 0) (\<lambda>_. (newMemoryStore, world0)) (\<lambda>_. None),
     marshal_fault := (\<lambda>sr. if rfc3339_ok 0 (req_ValidUntil sr) then None else Some (ENew ''year outside of range [0,9999]''))\<rparr>"

lemma lserver_fields [simp]:
  "env_ssh lserver = lssh" "env_json lserver = json_Decode" "env_parse_time lserver = parse_rfc3339" "mux lserver = first_route" "net_Write lserver n = None"
  by (simp_all add: lserver_def)

lemma lclient_fields [simp]:
  "cl_ssh lclient = lssh" "cl_json lclient = json_Decode" "sign_url lclient ca = Inr (ca @ ''/sign'')" "post_fault lclient u = None"
  "ca_Post lclient = ca_link lserver wapplication (\<lambda>_. 0) (\<lambda>_. (newMemoryStore, world0)) (\<lambda>_. None)"
  "marshal_fault lclient sr = (if rfc3339_ok 0 (req_ValidUntil sr) then None else Some (ENew ''year outside of range [0,9999]''))"
  "prompt lclient n = (if n = 0 then '''' else ''because'')" "cl_ParseDuration lclient d = Inr Hour"
  by (simp_all add: lclient_def)

lemma lssh_fields [simp]: "CertAsKey lssh = cert_line" "AsCertificate lssh = line_cert"
  by (simp_all add: lssh_def)

lemma lwired: "wired lclient lserver (\<lambda>_. 0)"
proof -
  have "recovery_ok lserver" by (simp add: recovery_ok_def lserver_def wserver_def)
  moreover have "first_route setupRoutes r = Inr HSign" if "r_Method r = ''POST''" "r_Path r = ''/sign''" for r
    using that by (simp add: first_route_def setupRoutes_def on_path_def route_matches_def)
  ultimately show ?thesis by (simp add: wired_def)
qed

lemma lssh_ok: "signed_wire_ok lssh" "sign_cert_ok lssh" "marshal_ok lssh ''ssh-rsa AAAA''"
proof -
  have m: "marshal_ok lssh k" if "k \<noteq> ''bad''" for k
    using that by (simp add: marshal_ok_def lssh_def wssh_def)
  then show "marshal_ok lssh ''ssh-rsa AAAA''" by simp
  have "cert_line c \<noteq> ''bad''" for c by (simp add: cert_line_def json_Marshal_def)
  then show "signed_wire_ok lssh" by (simp add: signed_wire_ok_def m as_cert_ok_def line_cert_line)
  show "sign_cert_ok lssh" by (auto simp: sign_cert_ok_def lssh_def wssh_def tbs_def)
qed

lemma lclient_plain: "plain_errors lclient"
proof -
  have d: "\<not> is_needs_reason e" if "decode_struct f z j = Inl e" for f :: "string \<times> json \<Rightarrow> SignResponse \<times> bool \<Rightarrow> SignResponse \<times> bool" and z j e
    using that by (cases j) (auto split: prod.splits if_splits)
  show ?thesis
    by (auto simp: plain_errors_def ca_link_def decode_response_def json_Decode_def dest: d split: option.splits sum.splits if_splits prod.splits)
qed

lemma laccepts: "accepts lserver wapplication (empty_Token\<lparr>AccessToken := ''tok''\<rparr>) newMemoryStore v"
proof -
  have "\<exists>w1. prov_Valid wprovider (empty_Token\<lparr>AccessToken := ''tok''\<rparr>) v = (Return True, w1)"
    by (rule wprovider_Valid) (simp_all add: empty_Token_def)
  moreover have "\<exists>u w'. prov_Username wprovider t w = (Return u, w')" for t w
    by (simp add: wprovider_def github_provider_def github_Username_def wgh_def io_defs)
  moreover have "\<exists>e w'. prov_Revoke wprovider t w = (Return e, w')" for t w
    by (simp add: wprovider_def github_provider_def github_Revoke_def ret_def)
  moreover have "\<exists>e s' w'. memoryStore_SetRecord rec newMemoryStore w = (Return e, s', w')" for rec w
    using mem_SetRecord_ledger [OF mem_open_new, of rec w] by blast
  ultimately show ?thesis by (simp add: accepts_def wapplication_def memoryStorer_def) (simp add: lssh_def wssh_def)
qed

section \<open>What Sign returns\<close>

text \<open>
  The server in a given state and world accepts a token and, for the user name of the provider and a request that asks for the expiry \<open>until\<close>, signs the certificate and hands its record to the store.
\<close>

definition issues :: "('k, 'ca, 's) server_env \<Rightarrow> ('k, 'ca, 's) application \<Rightarrow> Token \<Rightarrow> 's \<Rightarrow> world \<Rightarrow> time \<Rightarrow> 'k Certificate \<Rightarrow> bool" where
  "issues env a t s v until cert \<longleftrightarrow>
     (\<exists>w1 username w2 req req' w3 w4 rec e s' w5.
        prov_Valid (app_provider a) t v = (Return True, w1) \<and> prov_Username (app_provider a) t w1 = (Return username, w2) \<and>
        req_ValidUntil req = until \<and> (app_requireReason a \<longrightarrow> req_Message req \<noteq> '''') \<and>
        SignUserKey (env_ssh env) (env_clk env) (app_keysigner a) req username w3 = (Return (Inr cert, req'), w4) \<and>
        MakeRecord (env_ssh env) cert = Return rec \<and>
        store_SetRecord (app_certstore a) (rec\<lparr>rec_Message := req_Message req'\<rparr>) s w4 = (Return e, s', w5))"

text \<open>
  C10: the certificate that the client returns is the one that the server signed for this client: when Sign of the client, talking to a server of this program, returns a certificate, then the
  provider of the server accepted exactly the client's token, a reason was given if the server wants one, and the server signed for the user name that the provider gave, with the expiry that the
  client asked for; the certificate at the client is that one, for exactly the client's key, and its record was handed to the store.
\<close>

theorem client_server_sign:
  assumes "wired api env zone" and "ca_Post api = ca_link env a zone at net"
    and "sign_cert_ok (env_ssh env)" and "signed_wire_ok (env_ssh env)" and "marshal_ok (env_ssh env) pub" and "CHR '' '' \<notin> set token"
    and "Sign api clk pub token conf w = Some (Return (Inr cert), w')"
  shows "\<exists>n validity. cl_ParseDuration api (cc_Validity conf) = Inr validity \<and> cert_Key cert = pub \<and>
    issues env a (empty_Token\<lparr>AccessToken := token\<rparr>) (fst (at n)) (snd (at n)) (clk (ticks w) + validity) cert"
proof -
  have wd: "cl_ssh api = env_ssh env" "env_json env = json_Decode" "env_parse_time env = parse_rfc3339" "\<And>t. zone t mod 60 = 0"
    using assms(1) by (simp_all add: wired_def)
  obtain validity sr n ans resp k where c: "cl_ParseDuration api (cc_Validity conf) = Inr validity"
      "GetPublicKey (cl_ssh api) pub = Return (req_Key sr)" "req_ValidUntil sr = clk (ticks w) + validity"
      "answered api token conf sr n ans" "decode_response api (ans_Body ans) = Inr resp"
      "resp_Status resp = ''ok''" "ParseAuthorizedKey (cl_ssh api) (resp_Response resp) = Inr k" "AsCertificate (cl_ssh api) k = Some cert"
    using Sign_certificate [OF assms(7)] by blast
  let ?r = "sign_post zone (''Bearer '' @ token) sr"
  obtain u where "ca_link env a zone at net n (\<not> cc_ValidateTLSCertificate conf) u (''Bearer '' @ token) sr = Inr ans"
    using c(4) assms(2) by (auto simp: answered_def)
  from link_ok [OF assms(1) this c(5)] obtain res h' w1' where
    s: "sign env a ?r (start_state env ?r (fst (at n))) (snd (at n)) = (res, h', w1')" "BSignResponse resp \<in> set (w_body (hs_resp h'))" .
  have h: "w_body (hs_resp (start_state env ?r (fst (at n)))) = []" "hs_store (start_state env ?r (fst (at n))) = fst (at n)"
    by (simp_all add: start_state_def new_response_def)
  have t: "tokenFromRequest ?r = empty_Token\<lparr>AccessToken := token\<rparr>"
    using tokenFromRequest_bearer [OF assms(6), of ?r] by (simp add: sign_post_def)
  obtain w1 w2 w3 username req where q: "prov_Valid (app_provider a) (tokenFromRequest ?r) (snd (at n)) = (Return True, w1)"
      "decode_request env (r_Body ?r) = Inr req" "app_requireReason a \<longrightarrow> req_Message req \<noteq> ''''"
      "prov_Username (app_provider a) (tokenFromRequest ?r) w1 = (Return username, w2)"
      "sign_issue env a req username (start_state env ?r (fst (at n))) w3 = (res, h', w1')"
    by (rule sign_ok_issue [OF s(1) h(1) s(2) c(6)])
  have "rfc3339_ok (zone (req_ValidUntil sr)) (req_ValidUntil sr)" using assms(1) c(4) by (simp add: wired_def answered_def)
  from request_read [where zone = zone, OF wd(2,3) this wd(4)] q(2) have req: "req = sr" by simp
  obtain cert' req' w4 rec e s' w5 where
    i: "SignUserKey (env_ssh env) (env_clk env) (app_keysigner a) req username w3 = (Return (Inr cert', req'), w4)"
      "GetPublicKey (env_ssh env) (CertAsKey (env_ssh env) cert') = Return (resp_Response resp)"
      "MakeRecord (env_ssh env) cert' = Return rec"
      "store_SetRecord (app_certstore a) (rec\<lparr>rec_Message := req_Message req'\<rparr>) (hs_store (start_state env ?r (fst (at n)))) w4 = (Return e, s', w5)"
    by (rule sign_issue_ok [OF q(5) h(1) s(2) c(6)])
  have "\<exists>n ca c0. SignCert (env_ssh env) n ca c0 = Inr cert'"
    using i(1) by (auto simp: SignUserKey_eq Let_def split: sum.splits)
  then have m: "marshal_ok (env_ssh env) (CertAsKey (env_ssh env) cert')" "as_cert_ok (env_ssh env) cert'" using assms(4) by (auto simp: signed_wire_ok_def)
  have "ParseAuthorizedKey (env_ssh env) (resp_Response resp) = Inr (CertAsKey (env_ssh env) cert')"
    by (rule GetPublicKey_marshal [OF m(1)]) (use i(2) in simp)
  with c(7) have "k = CertAsKey (env_ssh env) cert'" by (simp add: wd(1))
  with c(8) m(2) have cert: "cert' = cert" by (simp add: as_cert_ok_def wd(1))
  have "ParseAuthorizedKey (env_ssh env) (req_Key sr) = Inr pub"
    by (rule GetPublicKey_marshal [OF assms(5)]) (use c(2) in \<open>simp add: wd(1)\<close>)
  with SignUserKey_fields(1) [OF i(1) assms(3)] req cert have "cert_Key cert = pub" by simp
  moreover have "issues env a (empty_Token\<lparr>AccessToken := token\<rparr>) (fst (at n)) (snd (at n)) (clk (ticks w) + validity) cert"
    using q(1,3,4) [unfolded t req] i(1,3,4) [unfolded req cert h(2)] c(3) unfolding issues_def by blast
  ultimately show ?thesis using c(1) by blast
qed
text \<open>
  C11: the client ends with a certificate: a client that talks to a server of this program over a connection that works, with a token that the server's provider accepts and without another error of the
  packages, returns a certificate, also from a server that wants a reason, as soon as the user enters one; it never asks for ever.
\<close>

theorem client_server_finishes:
  assumes "wired api env zone" and "ca_Post api = ca_link env a zone at (\<lambda>_. None)" and "plain_errors api"
    and "signed_wire_ok (env_ssh env)" and "marshal_ok (env_ssh env) pub" and "CHR '' '' \<notin> set token"
    and "\<And>n. accepts env a (empty_Token\<lparr>AccessToken := token\<rparr>) (fst (at n)) (snd (at n))"
    and "cl_ParseDuration api (cc_Validity conf) = Inr validity" and "\<And>sr. req_ValidUntil sr = clk (ticks w) + validity \<Longrightarrow> marshal_fault api sr = None"
    and "sign_url api (cc_CA conf) = Inr u" and "post_fault api u = None" and "prompt api (rands w + k) \<noteq> ''''"
  shows "\<exists>cert w'. Sign api clk pub token conf w = Some (Return (Inr cert), w')"
proof -
  have wd: "cl_ssh api = env_ssh env" using assms(1) by (simp add: wired_def)
  obtain key where key: "GetPublicKey (env_ssh env) pub = Return key" "ParseAuthorizedKey (env_ssh env) key = Inr pub"
    using GetPublicKey_marshal [OF assms(5)] by metis
  let ?s = "\<lparr>req_Key = key, req_ValidUntil = Add (clk (ticks w)) validity, req_Message = '''', req_Version = cl_Version api\<rparr>"
  obtain resp cert w' where "send_loop api token conf ?s (w\<lparr>ticks := Suc (ticks w)\<rparr>) = Some (Return (Inr resp), w')" "read_response api resp = Inr cert"
    using loop_finishes [OF assms(1-4) _ assms(6,7) _ assms(10,11), where s = ?s and w = "w\<lparr>ticks := Suc (ticks w)\<rparr>" and k = k] key(2) assms(9,12) by (auto simp: Add_def)
  then show ?thesis using assms(8) key(1) by (simp add: Sign_def Let_def wd)
qed

lemma lclient_time: "req_ValidUntil sr = 50 + Hour \<Longrightarrow> marshal_fault lclient sr = None"
proof -
  have "date_at 3600 = (1970, 1, 1)"
    by (simp add: date_at_def date_def year_day_def epoch_day_def Let_def leap_def month_days_def)
  then have "rfc3339_ok 0 (50 + Hour)" by (simp add: rfc3339_ok_def Hour_def nano_def)
  then show "req_ValidUntil sr = 50 + Hour \<Longrightarrow> marshal_fault lclient sr = None" by simp
qed

theorem client_server_finishes_witness:
  "\<exists>cert w'. Sign lclient (\<lambda>_. 50) ''ssh-rsa AAAA'' ''tok'' wcconf world0 = Some (Return (Inr cert), w')"
  by (rule client_server_finishes [OF lwired lclient_fields(5) lclient_plain, where validity = Hour and u = "cc_CA wcconf @ ''/sign''" and k = 1])
    (use lclient_time in \<open>simp_all add: lssh_ok laccepts world0_def del: lclient_fields(6)\<close>)

theorem client_server_sign_witness:
  "\<exists>cert w'. Sign lclient (\<lambda>_. 50) ''ssh-rsa AAAA'' ''tok'' wcconf world0 = Some (Return (Inr cert), w') \<and> cert_Key cert = ''ssh-rsa AAAA'' \<and>
     issues lserver wapplication (empty_Token\<lparr>AccessToken := ''tok''\<rparr>) newMemoryStore world0 (50 + Hour) cert"
proof -
  let ?s = "\<lparr>req_Key = ''ssh-rsa AAAA'', req_ValidUntil = 50 + Hour, req_Message = '''', req_Version = cl_Version lclient\<rparr>"
  have "\<exists>resp cert w'. send_loop lclient ''tok'' wcconf ?s (world0\<lparr>ticks := 1\<rparr>) = Some (Return (Inr resp), w') \<and> read_response lclient resp = Inr cert"
    by (rule loop_finishes [OF lwired lclient_fields(5) lclient_plain, where pub = "''ssh-rsa AAAA''" and u = "cc_CA wcconf @ ''/sign''" and k = 1])
      (use lclient_time in \<open>simp_all add: lssh_ok laccepts world0_def del: lclient_fields(6)\<close>, simp add: lssh_def wssh_def)
  moreover have "GetPublicKey lssh ''ssh-rsa AAAA'' = Return ''ssh-rsa AAAA''" by (simp add: GetPublicKey_def lssh_def wssh_def)
  ultimately obtain cert w' where s: "Sign lclient (\<lambda>_. 50) ''ssh-rsa AAAA'' ''tok'' wcconf world0 = Some (Return (Inr cert), w')"
    by (auto simp: Sign_def Add_def world0_def)
  from client_server_sign [OF lwired lclient_fields(5) _ _ _ _ s] s lssh_ok show ?thesis by (auto simp: world0_def)
qed

end
