(* ===== verification/Migration.thy ===== *)
theory Migration
  imports SSH_Client Go_Time
begin

text \<open>
  \<^verbatim>\<open>generate/migration/migration.go\<close>: the tool that adds an empty migration for every kind of database. The answers of \<^verbatim>\<open>git\<close> and of the
  directory are fields of its environment.
\<close>

section \<open>Paths\<close>

text \<open>\<^verbatim>\<open>path.Clean\<close>: the elements of a path, without empty ones and dots; two dots take the element before them away where there is one.\<close>

fun clean_elem :: "bool \<Rightarrow> string list \<Rightarrow> string \<Rightarrow> string list" where
  "clean_elem rooted out e =
     (if e = '''' \<or> e = ''.'' then out
      else if e = ''..'' then
        (if out \<noteq> [] \<and> last out \<noteq> ''..'' then butlast out else if rooted then out else out @ [e])
      else out @ [e])"

definition path_Clean :: "string \<Rightarrow> string" where
  "path_Clean p =
     (let rooted = HasPrefix p ''/'';
          out = foldl (clean_elem rooted) [] (Split p (CHR ''/''))
      in if rooted then CHR ''/'' # join (CHR ''/'') out else if out = [] then ''.'' else join (CHR ''/'') out)"

definition path_Join :: "string list \<Rightarrow> string" where
  "path_Join elems =
     (let es = filter (\<lambda>e. e \<noteq> '''') elems
      in if es = [] then '''' else path_Clean (join (CHR ''/'') es))"

section \<open>The tool\<close>

definition migrationsPath :: string where
  "migrationsPath = ''server/store/migrations''"

definition migration_contents :: string where
  "migration_contents = ''-- +migrate Up'' @ [newline, newline, newline] @ ''-- +migrate Down''"

record dir_entry =
  de_Name :: string
  de_IsDir :: bool

record migration_env =
  me_now :: int
  me_git :: "error + string"
  me_ReadDir :: "string \<Rightarrow> error + dir_entry list"
  me_fs :: client_fs

definition flag_Arg :: "string list \<Rightarrow> nat \<Rightarrow> string" where
  "flag_Arg args i = (if i < length args then args ! i else '''')"

definition migration_name :: "migration_env \<Rightarrow> string list \<Rightarrow> string" where
  "migration_name env args = format_compact (me_now env) @ ''_'' @ flag_Arg args 0 @ ''.sql''"

text \<open>The loop over the directory: the result is the exit status and the files. The file is announced before it is written.\<close>

fun write_migrations :: "client_fs \<Rightarrow> string \<Rightarrow> dir_entry list \<Rightarrow> files \<Rightarrow> string list \<Rightarrow> int \<times> files \<times> string list" where
  "write_migrations fs name [] m out = (0, m, out)"
| "write_migrations fs name (e # es) m out =
     (if de_IsDir e then
        (let filename = path_Join [migrationsPath, de_Name e, name];
             out = out @ [''Wrote empty migration file: '' @ filename]
         in case WriteFile fs filename migration_contents 420 m of
              (Some err, m') \<Rightarrow> (1, m', out)
            | (None, m') \<Rightarrow> write_migrations fs name es m' out)
      else write_migrations fs name es m out)"

text \<open>With another number of arguments than one the usage is printed, and the tool goes on.\<close>

definition migration_main :: "migration_env \<Rightarrow> string list \<Rightarrow> files \<Rightarrow> int \<times> files \<times> string list" where
  "migration_main env args m =
     (let out = (if length args \<noteq> 1 then [''Usage: migration <migration name>''] else []);
          name = migration_name env args
      in case me_git env of
           Inl e \<Rightarrow> (1, m, out)
         | Inr gitRoot \<Rightarrow>
             (case me_ReadDir env (path_Join [TrimSpace gitRoot, migrationsPath]) of
                Inl e \<Rightarrow> (1, m, out)
              | Inr ents \<Rightarrow> write_migrations (me_fs env) name ents m out))"

section \<open>Lemmas\<close>

definition plain_elem :: "string \<Rightarrow> bool" where
  "plain_elem e \<longleftrightarrow> e \<noteq> '''' \<and> e \<noteq> ''.'' \<and> e \<noteq> ''..'' \<and> CHR ''/'' \<notin> set e"

lemma foldl_clean_plain:
  "list_all plain_elem es \<Longrightarrow> foldl (clean_elem rooted) out es = out @ es"
  by (induction es arbitrary: out) (auto simp: plain_elem_def)

lemma join_Cons: "es \<noteq> [] \<Longrightarrow> join c (e # es) = e @ c # join c es"
  by (cases es) simp_all

lemma Split_join_plain:
  assumes "es \<noteq> []" and "list_all plain_elem es"
  shows "Split (join (CHR ''/'') es) (CHR ''/'') = es"
  using assms
  by (induction es rule: list_nonempty_induct) (simp_all add: plain_elem_def Split_no_sep Split_append_sep join_Cons)

lemma path_Clean_plain:
  assumes "es \<noteq> []" and "list_all plain_elem es"
  shows "path_Clean (join (CHR ''/'') es) = join (CHR ''/'') es"
proof -
  obtain x e es' where es: "es = (x # e) # es'" and "x \<noteq> CHR ''/''"
    using assms by (cases es; cases "hd es") (auto simp: plain_elem_def)
  then have "\<not> HasPrefix (join (CHR ''/'') es) ''/''" by (cases es') (simp_all add: HasPrefix_def)
  then show ?thesis using assms by (simp add: path_Clean_def Split_join_plain foldl_clean_plain)
qed

text \<open>The file of a migration.\<close>

definition migration_file :: "string \<Rightarrow> string \<Rightarrow> string" where
  "migration_file dir name = ''server/store/migrations/'' @ dir @ ''/'' @ name"

lemma path_Join_migration:
  assumes "plain_elem dir" and "plain_elem name"
  shows "path_Join [migrationsPath, dir, name] = migration_file dir name"
proof -
  have "join (CHR ''/'') [migrationsPath, dir, name] = join (CHR ''/'') [''server'', ''store'', ''migrations'', dir, name]"
    by (simp add: migrationsPath_def)
  moreover have "path_Clean (join (CHR ''/'') [''server'', ''store'', ''migrations'', dir, name]) =
      join (CHR ''/'') [''server'', ''store'', ''migrations'', dir, name]"
    by (rule path_Clean_plain) (use assms in \<open>simp_all add: plain_elem_def\<close>)
  ultimately show ?thesis using assms
    by (simp add: path_Join_def migration_file_def plain_elem_def migrationsPath_def)
qed

lemma write_migrations_all:
  assumes "\<And>f. write_fault fs f = None" and "plain_elem name" and "list_all (\<lambda>e. plain_elem (de_Name e)) es"
    and "write_migrations fs name es m out = (status, m', out')"
  defines "new \<equiv> (\<lambda>e. migration_file (de_Name e) name) ` {e \<in> set es. de_IsDir e}"
  shows "status = 0 \<and> (\<forall>f. m' f = (if f \<in> new then Some (migration_contents, case m f of Some (_, p) \<Rightarrow> p | None \<Rightarrow> 420) else m f))"
  using assms(3,4) unfolding new_def
proof (induction es arbitrary: m out)
  case (Cons e es)
  show ?case
  proof (cases "de_IsDir e")
    case True
    let ?f = "migration_file (de_Name e) name"
    have j: "path_Join [migrationsPath, de_Name e, name] = ?f" using path_Join_migration assms(2) Cons.prems(1) by simp
    obtain m1 where w: "WriteFile fs ?f migration_contents 420 m = (None, m1)"
      and m1: "m1 = m(?f \<mapsto> (migration_contents, case m ?f of Some (_, p) \<Rightarrow> p | None \<Rightarrow> 420))"
      by (simp add: WriteFile_def assms(1))
    have "status = 0 \<and> (\<forall>f. m' f = (if f \<in> (\<lambda>e. migration_file (de_Name e) name) ` {e \<in> set es. de_IsDir e}
        then Some (migration_contents, case m1 f of Some (_, p) \<Rightarrow> p | None \<Rightarrow> 420) else m1 f))"
      using Cons.prems True w by (intro Cons.IH) (simp_all add: j)
    moreover have "{e' \<in> set (e # es). de_IsDir e'} = insert e {e \<in> set es. de_IsDir e}" using True by auto
    ultimately show ?thesis by (simp add: m1)
  next
    case False
    moreover have "{e' \<in> set (e # es). de_IsDir e'} = {e \<in> set es. de_IsDir e}" using False by auto
    ultimately show ?thesis using Cons by simp
  qed
qed simp

section \<open>Properties\<close>

text \<open>
  The tool writes one empty migration into every directory of the migrations and nothing else, under one name that starts with the time. It does so whatever the number of
  arguments is, although it prints its usage if that is not one; and it finds the directories below the root of the repository but writes
  below the directory it runs in.
\<close>

theorem migration_files:
  assumes "\<And>f. write_fault (me_fs env) f = None" and "me_git env = Inr root"
    and "me_ReadDir env (path_Join [TrimSpace root, migrationsPath]) = Inr es" and "list_all (\<lambda>e. plain_elem (de_Name e)) es"
    and "CHR ''/'' \<notin> set (migration_name env args)"
    and "migration_main env args m = (status, m', out)"
  shows "status = 0 \<and> (\<forall>f. m' f =
    (if f \<in> (\<lambda>e. migration_file (de_Name e) (migration_name env args)) ` {e \<in> set es. de_IsDir e}
     then Some (migration_contents, case m f of Some (_, p) \<Rightarrow> p | None \<Rightarrow> 420) else m f))"
proof -
  have "length (migration_name env args) > 2" by (simp add: migration_name_def)
  then have "plain_elem (migration_name env args)" using assms(5) by (auto simp: plain_elem_def)
  then show ?thesis
    using write_migrations_all [OF assms(1) _ assms(4)] assms(2,3,6) by (auto simp: migration_main_def Let_def)
qed

definition wmigration :: migration_env where
  "wmigration = \<lparr>me_now = 0, me_git = Inr (''/repo'' @ [newline]),
     me_ReadDir = (\<lambda>d. if d = ''/repo/server/store/migrations'' then Inr [\<lparr>de_Name = ''mysql'', de_IsDir = True\<rparr>, \<lparr>de_Name = ''migrations_test.go'', de_IsDir = False\<rparr>]
                       else Inl (ENew ''open'')),
     me_fs = \<lparr>write_fault = (\<lambda>_. None), pem_Encode = snd\<rparr>\<rparr>"

theorem migration_files_witness:
  "\<exists>m' out. migration_main wmigration [] (\<lambda>_. None) = (0, m', out) \<and>
     m' ''server/store/migrations/mysql/19700101000000_.sql'' = Some (migration_contents, 420)"
proof -
  have p: "path_Join [TrimSpace (''/repo'' @ [newline]), migrationsPath] = ''/repo/server/store/migrations''" by code_simp
  have n: "migration_name wmigration [] = ''19700101000000_.sql''" by code_simp
  let ?es = "[\<lparr>de_Name = ''mysql'', de_IsDir = True\<rparr>, \<lparr>de_Name = ''migrations_test.go'', de_IsDir = False\<rparr>]"
  obtain status m' out where m: "migration_main wmigration [] (\<lambda>_. None) = (status, m', out)" by (cases "migration_main wmigration [] (\<lambda>_. None)")
  have f: "write_fault (me_fs wmigration) f = None" for f by (simp add: wmigration_def)
  have g: "me_git wmigration = Inr (''/repo'' @ [newline])" by (simp add: wmigration_def)
  have d: "me_ReadDir wmigration (path_Join [TrimSpace (''/repo'' @ [newline]), migrationsPath]) = Inr ?es"
    unfolding p by (simp add: wmigration_def)
  have e: "list_all (\<lambda>e. plain_elem (de_Name e)) ?es" by (simp add: plain_elem_def)
  have s: "CHR ''/'' \<notin> set (migration_name wmigration [])" by (simp add: n)
  have in_new: "''server/store/migrations/mysql/19700101000000_.sql'' \<in> (\<lambda>e. migration_file (de_Name e) (migration_name wmigration [])) ` {e \<in> set ?es. de_IsDir e}"
    by (rule image_eqI [where x = "\<lparr>de_Name = ''mysql'', de_IsDir = True\<rparr>"]) (simp_all add: migration_file_def n)
  from migration_files [OF f g d e s m] have "status = 0"
    and "m' ''server/store/migrations/mysql/19700101000000_.sql'' = Some (migration_contents, 420)"
    using in_new by simp_all
  then show ?thesis using m by blast
qed

end
