(* ===== verification/Cashier_Files.thy ===== *)
theory Cashier_Files
  imports Cashier_Main Migration
begin

text \<open>
  The two ends of a run of \<^verbatim>\<open>cmd/cashier\<close>: its flags, which are made before \<^verbatim>\<open>main\<close> begins, and the files that it leaves behind, also over files that are there already.
\<close>

section \<open>The flags\<close>

text \<open>\<^verbatim>\<open>user.Current\<close> gives the home directory of the user or an error, which is ignored: the user is then a nil pointer.\<close>

datatype flag_value = FString string | FInt int | FDuration duration | FBool bool

definition cashier_flags :: "error + string \<Rightarrow> (string \<times> flag_value) list outcome" where
  "cashier_flags current_user =
     (case current_user of
        Inl e \<Rightarrow> Panic
      | Inr HomeDir \<Rightarrow> Return
          [(''config'', FString (path_Join [HomeDir, ''.cashier.conf''])),
           (''ca'', FString ''http://localhost:10000''),
           (''key_size'', FInt 0),
           (''validity'', FDuration (Hour * 24)),
           (''key_type'', FString ''''),
           (''key_file_prefix'', FString ''''),
           (''version'', FBool False)])"

text \<open>The values after \<^verbatim>\<open>pflag.Parse\<close>, where \<open>given\<close> holds the flags of the command line.\<close>

definition flag_of :: "(string \<times> flag_value) list \<Rightarrow> (string \<rightharpoonup> flag_value) \<Rightarrow> string \<Rightarrow> flag_value option" where
  "flag_of flags given name = (if name \<in> fst ` set flags then (case given name of Some v \<Rightarrow> Some v | None \<Rightarrow> map_of flags name) else None)"

definition cashier_start ::
  "('k, 'ca) cashier_env \<Rightarrow> error + string \<Rightarrow> (string \<rightharpoonup> flag_value) \<Rightarrow> files \<Rightarrow> world \<Rightarrow> (int + 'k cashier) outcome" where
  "cashier_start env current_user given fls w =
     (case cashier_flags current_user of
        Panic \<Rightarrow> Panic
      | Return flags \<Rightarrow>
          main_begin env (flag_of flags given ''version'' = Some (FBool True))
            (case flag_of flags given ''config'' of Some (FString f) \<Rightarrow> f | _ \<Rightarrow> '''') fls w)"

text \<open>Every flag that \<^verbatim>\<open>setDefaults\<close> of the client library binds is one of them, so that no binding fails unseen.\<close>

lemma bound_flags: "cashier_flags current_user = Return flags \<Longrightarrow> set (v_flags setDefaults) \<subseteq> fst ` set flags"
  by (auto simp: cashier_flags_def setDefaults_def split: sum.splits)

text \<open>
  Without an entry for the user in the system's database the client ends with a panic whatever its arguments are, also when it is only asked for its version.
\<close>

theorem start_without_user: "cashier_start env (Inl e) given fls w = Panic"
  by (simp add: cashier_start_def cashier_flags_def)

section \<open>The files\<close>

text \<open>The mode a file has after it was written, and the three files of a certificate.\<close>

definition kept_mode :: "files \<Rightarrow> string \<Rightarrow> nat \<Rightarrow> nat" where
  "kept_mode m name perm = (case m name of Some (_, p) \<Rightarrow> p | None \<Rightarrow> perm)"

lemma WriteFile_ok: "WriteFile fs name data perm m = (None, m') \<longleftrightarrow> write_fault fs name = None \<and> m' = m(name \<mapsto> (data, kept_mode m name perm))"
  by (auto simp: WriteFile_def kept_mode_def Let_def split: option.splits file_fault.splits)

lemma WriteFile_frame: "WriteFile fs name data perm m = (res, m') \<Longrightarrow> other \<noteq> name \<Longrightarrow> m' other = m other"
  by (auto simp: WriteFile_def Let_def split: option.splits file_fault.splits)

definition cert_files :: "string \<Rightarrow> 'k Certificate \<Rightarrow> string set" where
  "cert_files pfx cert = {id_file pfx cert, id_file pfx cert @ ''.pub'', id_file pfx cert @ ''-cert.pub''}"

lemma multi_None: "multi [x, y] = None \<longleftrightarrow> x = None \<and> y = None"
  by (cases x; cases y) (simp_all add: multi_def)

lemma main_save_frame:
  assumes "f \<notin> cert_files (cc_PublicFilePrefix (cs_conf s)) cert"
  shows "cs_files (main_save env s cert) f = cs_files s f"
  using assms
  by (auto simp: main_save_def SavePublicFiles_def SavePrivateFiles_def cert_files_def Let_def WriteFile_frame
      split: prod.splits option.splits sum.splits if_splits)

text \<open>
  What a client that saves its files leaves behind: if it was given a prefix and goes on to stop, then the key, its public part and the certificate are in the three files that are named after the
  certificate, with the modes 0600, 0644 and 0644 (384 and 420) where they are new; a file that was there keeps its mode, also the one that gets the private key; no other file
  changes, whatever fails.
\<close>

theorem saved_files:
  assumes "s' = main_save env s cert" and "pfx = cc_PublicFilePrefix (cs_conf s)" and "name = id_file pfx cert"
  shows "(\<forall>f. f \<notin> cert_files pfx cert \<longrightarrow> cs_files s' f = cs_files s f) \<and>
    (cs_pc s' = AtStop \<and> pfx \<noteq> '''' \<longrightarrow>
      (\<exists>block. pemBlockForKey (ce_keys env) (cs_priv s) = Inr block \<and>
         cs_files s' name = Some (pem_Encode (ce_fs env) block, kept_mode (cs_files s) name 384) \<and>
         cs_files s' (name @ ''.pub'') = Some (MarshalAuthorizedKey (cl_ssh (ce_api env)) (cs_pub s), kept_mode (cs_files s) (name @ ''.pub'') 420) \<and>
         cs_files s' (name @ ''-cert.pub'') =
           Some (fst (ce_wire env cert) @ '' '' @ base64_EncodeToString (snd (ce_wire env cert)), kept_mode (cs_files s) (name @ ''-cert.pub'') 420)))"
proof (intro conjI allI impI)
  show "cs_files s' f = cs_files s f" if "f \<notin> cert_files pfx cert" for f
    using main_save_frame [of f s cert env] that assms by simp
next
  assume a: "cs_pc s' = AtStop \<and> pfx \<noteq> ''''"
  let ?m = "cs_files s"
  obtain e1 m1 where 1: "SavePublicFiles (cl_ssh (ce_api env)) (ce_fs env) (ce_wire env) pfx cert (cs_pub s) ?m = (e1, m1)" by fastforce
  obtain e2 m2 where 2: "SavePrivateFiles (ce_keys env) (ce_fs env) pfx cert (cs_priv s) m1 = (e2, m2)" by fastforce
  from a 1 2 have n: "e1 = None" "e2 = None" "cs_files s' = m2"
    by (auto simp: assms(1,2) main_save_def split: option.splits)
  have m1: "m1 = ?m(name @ ''.pub'' \<mapsto> (MarshalAuthorizedKey (cl_ssh (ce_api env)) (cs_pub s), kept_mode ?m (name @ ''.pub'') 420),
      name @ ''-cert.pub'' \<mapsto> (fst (ce_wire env cert) @ '' '' @ base64_EncodeToString (snd (ce_wire env cert)), kept_mode ?m (name @ ''-cert.pub'') 420))"
    using 1 a unfolding n(1)
    by (auto simp: SavePublicFiles_def Let_def multi_None WriteFile_ok assms(3) kept_mode_def split: prod.splits)
  obtain block where b: "pemBlockForKey (ce_keys env) (cs_priv s) = Inr block" "m2 = m1(name \<mapsto> (pem_Encode (ce_fs env) block, kept_mode m1 name 384))"
    using 2 a unfolding n(2) by (auto simp: SavePrivateFiles_def WriteFile_ok assms(3) split: sum.splits)
  have "kept_mode m1 name 384 = kept_mode ?m name 384" by (simp add: m1 kept_mode_def)
  with b m1 n(3) show "\<exists>block. pemBlockForKey (ce_keys env) (cs_priv s) = Inr block \<and>
         cs_files s' name = Some (pem_Encode (ce_fs env) block, kept_mode (cs_files s) name 384) \<and>
         cs_files s' (name @ ''.pub'') = Some (MarshalAuthorizedKey (cl_ssh (ce_api env)) (cs_pub s), kept_mode (cs_files s) (name @ ''.pub'') 420) \<and>
         cs_files s' (name @ ''-cert.pub'') =
           Some (fst (ce_wire env cert) @ '' '' @ base64_EncodeToString (snd (ce_wire env cert)), kept_mode (cs_files s) (name @ ''-cert.pub'') 420)"
    by simp
qed

end
