(* ===== verification/Spec2Isabelle.thy ===== *)
theory Spec2Isabelle
  imports Auth_Test Client_Cache Cashierd Token_Page Store_SQLite Schema Certs_Page Server_Atomic Server_List Server_Logins Wire Cashier_Files
begin

text \<open>
  \<^bold>\<open>Cashier, a certificate authority for SSH keys.\<close>

  \<^bold>\<open>The program.\<close> A user logs in at the server through an OAuth provider (\<^verbatim>\<open>/auth/login\<close>, \<^verbatim>\<open>/auth/callback\<close>), copies the access
  token from the start page into the command-line client, or lets the page send it to the client's local server, and the client sends it with a fresh public key to \<^verbatim>\<open>/sign\<close>. The
  server asks the provider whether the token is good, signs a short-lived user certificate, records it in its store and
  returns it; the client puts key and certificate into the SSH agent. An administrator can list certificates and revoke
  them, and \<^verbatim>\<open>/revoked\<close> serves the key revocation list of those that are revoked and have not expired.

  \<^bold>\<open>How the code is modelled.\<close> A Go function that only computes is a HOL function. Effects are explicit: \<open>world\<close> (theory
  \<open>Go_Prelude\<close>) counts the readings of the clock, the draws of randomness and the calls of remote services, and holds the
  two metrics; \<open>'a io\<close> is a function from world to an outcome (\<open>Return\<close> or \<open>Panic\<close>) and a world. Whatever is not in the
  repository is an argument: the clock \<open>clk\<close>, the SSH package (\<open>ssh_api\<close>), OAuth and the provider APIs (\<open>oauth2_api\<close>,
  \<open>github_api\<close>, \<open>google_api\<close>), the database connection (\<open>sql_env\<close>), the session, CSRF, routing and recovery packages (\<open>server_env\<close>),
  Vault, HCL, viper, the file system, the agent, and what the server's process needs of its machine (\<open>host\<close>). A remote service takes the number of the call, so that two equal
  requests may be answered differently. What is assumed of them is named (\<open>sign_cert_ok\<close>, \<open>marshal_ok\<close>, \<open>mux_ok\<close>, \<open>csrf_ok\<close>,
  \<open>recovery_ok\<close>, \<open>token_valid_ok\<close>, \<open>viper_ok\<close>) and says what those packages document. Times are \<^typ>\<open>int\<close> nanoseconds from the epoch;
  the conversions to \<^verbatim>\<open>int64\<close> and \<^verbatim>\<open>uint64\<close> seconds are kept at 64 bits, since the wrap-around matters.

  \<^bold>\<open>The theories, in the order of the program.\<close>

  \<^item> \<open>Go_Prelude\<close>, \<open>Go_Strings\<close>, \<open>Go_Time\<close>, \<open>Time_Order\<close>: errors, outcomes, world, time, words, Go maps; the string functions of the standard
    library; the calendar and the layouts of times, one of which is shown to name its second; that times as texts are ordered as the times are.
  \<^item> \<open>Ssh_Types\<close>: \<^verbatim>\<open>lib/\<close>, and the SSH package as a parameter.
  \<^item> \<open>Config\<close>, \<open>Config_Read\<close>: \<^verbatim>\<open>server/config\<close>, \<^verbatim>\<open>server/helpers/vault\<close> and \<^verbatim>\<open>server/wkfs/vaultfs\<close>. Where each secret of a
    configuration comes from, and what happens when a section is missing.
  \<^item> \<open>String_Slice\<close>, \<open>Store_Record\<close>, \<open>Record_JSON\<close>, \<open>Store_Mem\<close>, \<open>Store_SQL\<close>, \<open>Store\<close>, \<open>Store_Any\<close>: \<^verbatim>\<open>server/store\<close>. The interface \<^verbatim>\<open>CertStorer\<close> is a record of
    operations and its contract the locale \<open>cert_storer\<close>: every operation keeps the invariant and acts on an abstract ledger
    from key ids to records. The in-memory store and the SQL store are two interpretations (\<open>mem\<close>, \<open>sql\<close>); the lemma that a
    revoked record is listed until it expires is proved once in the locale. \<open>Store\<close> also shows where the two differ. \<open>Store_Any\<close> is a
    value of the interface, a store of either kind, and interprets the contract a third time (\<open>any\<close>). \<open>Record_JSON\<close> is the form in which a record leaves the server.
  \<^item> \<open>Store_SQLite\<close>: the SQL store over the driver for SQLite, which writes times as texts: until when a revoked certificate is listed there.
  \<^item> \<open>SQL_DDL\<close>, \<open>Schema\<close>: the statements of \<^verbatim>\<open>server/store/migrations\<close> and of the SQL store over tables with columns, keys and indexes, in the dialects of MySQL and
    SQLite. The migrations succeed, keep the certificates that are there, and lead to the schema that types every statement of the store; the rows of
    \<open>Store_SQL\<close> refine those of that schema.
  \<^item> \<open>Signer\<close>: \<^verbatim>\<open>server/signer\<close>. What is in a certificate, how long it is valid, what its permissions are, and what is in a
    revocation list.
  \<^item> \<open>Auth_Types\<close>, \<open>Auth_Github\<close>, \<open>Auth_Google\<close>, \<open>Auth_Gitlab\<close>, \<open>Auth_Microsoft\<close>, \<open>Auth_Test\<close>, \<open>Client_Cache\<close>: \<^verbatim>\<open>server/auth\<close>. The interface
    \<^verbatim>\<open>Provider\<close> has the locales \<open>provider\<close> and \<open>token_provider\<close>, interpreted for every implementation. For each of the four real
    providers, \<^verbatim>\<open>Valid\<close> is characterized by the policy that the configuration states. The cache of HTTP clients
    never gives one client to two tokens.
  \<^item> \<open>Token_Text\<close>: \<^verbatim>\<open>encodeToken\<close> of the server and the loop of \<^verbatim>\<open>cmd/cashier/main.go\<close> that reads it back.
  \<^item> \<open>Http\<close>, \<open>Server\<close>: \<^verbatim>\<open>server/handlers.go\<close> and the application part of \<^verbatim>\<open>server/server.go\<close>. A handler acts on store, session and
    response (\<open>hstate\<close>); \<open>serve\<close> is a whole request through router, middlewares, guards and handler.
  \<^item> \<open>Server_Guards\<close>: which requests can change the store, and that a panic of a handler is answered. \<open>Server_Flow\<close>: what a
    certificate in an answer of \<^verbatim>\<open>/sign\<close> implies. \<open>Server_Login\<close>: the login from its redirect to the page with the token.
    \<open>CA_Server\<close>: signing, revoking and listing over any store that keeps the contract (proved in \<open>cert_storer\<close>).
  \<^item> \<open>Server_History\<close>: the server over a whole history of requests. What a request can do to the store (\<open>serve_store_cases\<close>), where the sessions that clients send come from,
    and hence where every record and every revocation comes from. \<open>Server_List\<close>: the invariant of the store and the revocation list over such a history.
    \<open>Server_Logins\<close>: which callback put the token into a session, and which login drew its state.
    \<open>Server_Atomic\<close>: requests that interleave.
  \<^item> \<open>Server_Run\<close>, \<open>Server_Start\<close>: the start and stop of the server in \<^verbatim>\<open>server/server.go\<close>, and \<^verbatim>\<open>server/metrics\<close>. The process keeps the list of
    what it did. The order of the steps of \<^verbatim>\<open>Run\<close> relative to the drop of privileges, and that what it starts is what the configuration says
    (\<open>configured\<close>), so that the theorems on requests hold for every server it starts. \<open>Cashierd\<close>: \<^verbatim>\<open>cmd/cashierd\<close>, the life of the server command.
  \<^item> \<open>SSH_Client\<close>: \<^verbatim>\<open>client/\<close>. Keys, files, the agent, the request to the CA and its loop, the configuration.
  \<^item> \<open>Cashier_Main\<close>: \<^verbatim>\<open>cmd/cashier\<close>. \<^verbatim>\<open>main\<close>, the reader of the standard input and the handlers of the local server are a step relation
    (\<open>cstep\<close>) with an invariant (\<open>cashier_inv\<close>) that every step keeps. What the browser is told is true; when the client ends and when it hangs.
  \<^item> \<open>Token_Page\<close>: the script of \<^verbatim>\<open>server/templates/token.go\<close>, from the page to the local server of the client. \<open>Certs_Page\<close>: \<^verbatim>\<open>server/templates/certs.go\<close> with
    \<^verbatim>\<open>server/static/js/table.js\<close>, from the listing to the form that revokes.
  \<^item> \<open>JSON_Text\<close>, \<open>RFC3339\<close>: what \<^verbatim>\<open>encoding/json\<close> and \<^verbatim>\<open>time\<close> do with the two wire types. A reader of any JSON document, and that what is written is read back.
  \<^item> \<open>Wire\<close>: client and server together. The client's request as JSON goes through \<open>serve\<close> and the answer back (\<open>ca_link\<close>); \<open>client_server_sign\<close> says what a certificate at the
    client implies at the server, over any connection, and \<open>client_server_finishes\<close> that a client with an accepted token gets one.
  \<^item> \<open>Migration\<close>: \<^verbatim>\<open>generate/migration\<close>. \<open>Cashier_Files\<close>: the flags of \<^verbatim>\<open>cmd/cashier\<close> and the files it leaves behind.
  \<^item> This theory: the properties that span server, signer and store, and client and server.

  \<^bold>\<open>Loops.\<close> Loops over data are structural recursion or \<open>function\<close> with a measure. Two loops of the client may run forever, the
  one that reads a pasted token and the one that asks for a reason; they are \<open>partial_function (option)\<close>, and it is shown
  exactly when the first and under which conditions the second returns. The reader of JSON has the length of
  its input as fuel, and more changes nothing (\<open>value_fuel\<close>).

  \<^bold>\<open>Concurrency.\<close> The stores and the cache hold a mutex (or one database statement) for each operation, so operations are
  atomic. A request to the server is served whole in \<open>serve\<close>; \<open>Server_Atomic\<close> shows that each request calls the store once at most and depends on it only through that call, so
  that requests that interleave have the effect of a history in which they are served one after the other. The goroutines of the client interleave: a step of
  \<open>cstep\<close> is what one of them does between two points where it can meet another, and the properties hold for every order of steps. The two
  channels hold one value each, as they are made. The time limits of the local server's connections are left out.

  \<^bold>\<open>Databases.\<close> The contract of a store is shown for a database that gives text columns as bytes and compares times as instants (\<open>sql_up\<close>), as the driver for MySQL does. The driver
  for SQLite does neither; what the store does over it is in \<open>Store\<close> (principals are lost) and \<open>Store_SQLite\<close> (the list of revoked certificates depends on the time zone).

  \<^bold>\<open>Not modelled.\<close> The layout of the pages, style sheets and the search of the certificate page (\<^verbatim>\<open>list.min.js\<close>, a package); the text of log messages; the keys for the
  tests. The bookkeeping of the migration library, which says what migrations are pending, is a parameter. The comparison of key ids by a database is taken as byte for byte, which
  a collation of MySQL may make coarser.

  \<^bold>\<open>Left open.\<close> The certificates of a store over SQLite in the time zone UTC; text that is not valid UTF-8, which \<^verbatim>\<open>encoding/json\<close> replaces, in the wire types; what a browser
  makes of the pages beyond their scripts.
\<close>

section \<open>Revocation from end to end\<close>

lemma parseTime_pre_epoch:
  assumes "zero_time \<le> t" and "t < 0"
  shows "parseTime (uint64 (t div nano)) < 0"
proof -
  note p = pre_epoch_seconds [OF assms]
  have "int64 (uint64 (t div nano)) = t div nano" using p by (simp add: fits64_def unixToInternal_def)
  moreover have "wrap64 (t div nano + unixToInternal) = t div nano + unixToInternal"
    using p by (simp add: fits64_def unixToInternal_def)
  ultimately show ?thesis using p by (simp add: parseTime_def time_Unix_def nano_def)
qed

definition wvalid :: SignRequest where
  "wvalid = wsreq\<lparr>req_ValidUntil := 3600 * nano\<rparr>"

lemma wkeyId: "keyId ''alice'' 50 = ''alice_0''"
  by code_simp





section \<open>The token from the page to the request\<close>

text \<open>
  The token of the server's page comes back to the server: what the user copies from the page and the client reads, decodes and sends as its
  bearer token is the access token that the sign handler then asks the provider about, for every token without a space.
\<close>

theorem token_page_to_request:
  assumes "CHR '' '' \<notin> set token"
  shows "\<exists>encoded t. paste_loop (scan_lines [] (encodeToken token @ ''.'' @ [newline])) '''' = Some encoded \<and>
    base64_DecodeString encoded = Some t \<and>
    tokenFromRequest (r\<lparr>r_Authorization := ''Bearer '' @ t\<rparr>) = empty_Token\<lparr>AccessToken := token\<rparr>"
  using paste_encoded [of "[newline]" token] base64_decode_encode tokenFromRequest_bearer [OF assms] by auto

theorem token_page_to_request_witness:
  "tokenFromRequest (wsign\<lparr>r_Authorization := ''Bearer secret''\<rparr>) = empty_Token\<lparr>AccessToken := ''secret''\<rparr>"
  using token_page_to_request [of "''secret''" wsign] paste_encoded [of "[newline]" "''secret''"] base64_decode_encode by auto

end
